(* ===== verification/Prelude.thy ===== *)
theory Prelude
  imports Main "HOL-Library.Word"
begin

text \<open>
  Shared vocabulary of the development: machine integers and bytes, the values a Rust call
  can end with, the combinators that spell the \<open>?\<close> operator and the \<open>for\<close> loops of the
  sources, and the big-endian form of an integer with its inverse laws.
\<close>

section \<open>Machine types\<close>

text \<open>
  Signed Rust integers are words read with \<^const>\<open>sint\<close>; \<open>usize\<close> and \<open>u64\<close> values
  are natural numbers, with their 64-bit bound written out where the code depends on it.
\<close>

type_synonym u8 = "8 word"
type_synonym i32 = "32 word"
type_synonym i64 = "64 word"
type_synonym bytes = "u8 list"

named_theorems codec \<open>encoding and decoding equations of the wire format\<close>
named_theorems faults \<open>which faults a deserialiser can end with\<close>
named_theorems evaluate \<open>definitions and equations that run the model on a concrete input\<close>

section \<open>Outcomes of a call\<close>

text \<open>
  A call returns a value, returns an error value of its error type (\<open>Err\<close>), or panics,
  which unwinds the task. \<open>Diverge\<close> stands for a loop that has not returned within the
  fuel of the model; the theorems about the loops show that it does not occur.
\<close>

datatype panic =
    BufUnderflow        \<comment> \<open>a read past the end of a buffer\<close>
  | CapacityOverflow    \<comment> \<open>an allocation of more than \<open>isize::MAX\<close> bytes\<close>
  | SliceIndex          \<comment> \<open>a slice range out of bounds\<close>
  | AssertFailed        \<comment> \<open>\<open>assert!\<close>\<close>
  | Unreachable         \<comment> \<open>\<open>unreachable!\<close>\<close>
  | Todo                \<comment> \<open>\<open>todo!\<close>\<close>
  | ExplicitPanic       \<comment> \<open>\<open>panic!\<close>\<close>
  | UnwrapNone          \<comment> \<open>\<open>unwrap\<close> of \<open>None\<close>\<close>
  | UnwrapErr           \<comment> \<open>\<open>unwrap\<close> of an \<open>Err\<close>\<close>

datatype 'e fault = Err 'e | Panic panic | Diverge

type_synonym ('a, 'e) result = "'e fault + 'a"
type_synonym ('a, 'e) deserializer = "bytes \<Rightarrow> ('a \<times> bytes, 'e) result"
type_synonym 'e serializer = "bytes \<Rightarrow> (bytes, 'e) result"

text \<open>
  \<open>bind m k\<close> is \<open>let x = m(bytes)?; k(x)\<close>: the rest of the buffer is handed on, a fault ends
  the call. \<open>Ok\<close> is the final \<open>Ok(x)\<close>, \<open>fail\<close> an early \<open>return Err(e)\<close> or a panic.
\<close>

definition bind :: "('a, 'e) deserializer \<Rightarrow> ('a \<Rightarrow> ('b, 'e) deserializer) \<Rightarrow> ('b, 'e) deserializer" where
  "bind m k bs = (case m bs of Inl f \<Rightarrow> Inl f | Inr (x, rest) \<Rightarrow> k x rest)"

definition Ok :: "'a \<Rightarrow> ('a, 'e) deserializer" where
  "Ok x bs = Inr (x, bs)"

definition fail :: "'e fault \<Rightarrow> ('a, 'e) deserializer" where
  "fail f bs = Inl f"

text \<open>A loop \<open>for _ in 0..n { res.push(m(bytes)?) }\<close>.\<close>

primrec repeat_de :: "nat \<Rightarrow> ('a, 'e) deserializer \<Rightarrow> ('a list, 'e) deserializer" where
  "repeat_de 0 m = Ok []"
| "repeat_de (Suc n) m = bind m (\<lambda>x. bind (repeat_de n m) (\<lambda>xs. Ok (x # xs)))"

text \<open>\<open>assert!(bytes.is_empty())\<close>\<close>

definition assert_empty :: "(unit, 'e) deserializer" where
  "assert_empty bs = (if bs = [] then Inr ((), bs) else Inl (Panic AssertFailed))"

text \<open>
  \<open>seq a b\<close> is \<open>a(buffer)?; b(buffer)\<close>, \<open>for_each\<close> the loop
  \<open>for it in xs { it.serialize_into(buffer)?; }\<close>, \<open>finish\<close> the final \<open>Ok(())\<close>.
\<close>

definition seq :: "'e serializer \<Rightarrow> 'e serializer \<Rightarrow> 'e serializer" where
  "seq a b buf = (case a buf of Inl f \<Rightarrow> Inl f | Inr buf' \<Rightarrow> b buf')"

definition finish :: "'e serializer" where
  "finish buf = Inr buf"

primrec for_each :: "('a \<Rightarrow> 'e serializer) \<Rightarrow> 'a list \<Rightarrow> 'e serializer" where
  "for_each ser [] = finish"
| "for_each ser (x # xs) = seq (ser x) (for_each ser xs)"

lemma bind_eq_Inr:
  "bind m k bs = Inr p \<longleftrightarrow> (\<exists>x rest. m bs = Inr (x, rest) \<and> k x rest = Inr p)"
  by (auto simp: bind_def split: sum.splits)

lemma bind_Inr: "m bs = Inr (x, rest) \<Longrightarrow> bind m k bs = k x rest"
  by (simp add: bind_def)

lemma bind_Inl: "m bs = Inl f \<Longrightarrow> bind m k bs = Inl f"
  by (simp add: bind_def)

lemma bind_same:
  "(\<And>x rest. m bs = Inr (x, rest) \<Longrightarrow> k x rest = k' x rest) \<Longrightarrow> bind m k bs = bind m k' bs"
  by (simp add: bind_def split: sum.split prod.split)

lemma bind_eq_Inl:
  "bind m k bs = Inl f \<longleftrightarrow> m bs = Inl f \<or> (\<exists>x rest. m bs = Inr (x, rest) \<and> k x rest = Inl f)"
  by (auto simp: bind_def split: sum.splits)

lemma Ok_eq [simp]: "Ok x bs = Inr (x, bs)"
  by (simp add: Ok_def)

lemma fail_eq [simp]: "fail f bs = Inl f"
  by (simp add: fail_def)

lemma finish_eq [simp]: "finish buf = Inr buf"
  by (simp add: finish_def)

lemma assert_empty_eq_Inr [codec]: "assert_empty bs = Inr (u, rest) \<longleftrightarrow> bs = [] \<and> rest = []"
  by (auto simp: assert_empty_def)

lemma assert_empty_Nil [simp]: "assert_empty [] = Inr ((), [])"
  by (simp add: assert_empty_def)

lemma assert_empty_Cons [simp]: "assert_empty (b # bs) = Inl (Panic AssertFailed)"
  by (simp add: assert_empty_def)

lemma seq_Inr [codec]: "a buf = Inr buf' \<Longrightarrow> seq a b buf = b buf'"
  by (simp add: seq_def)

lemma for_each_append:
  assumes "\<And>x buf. x \<in> set xs \<Longrightarrow> ser x buf = Inr (buf @ enc x)"
  shows "for_each ser xs buf = Inr (buf @ concat (map enc xs))"
  using assms by (induction xs arbitrary: buf) (simp_all add: seq_def)

lemma for_each_eq [codec]:
  assumes "\<And>x buf. ser x buf = Inr (buf @ enc x)"
  shows "for_each ser xs buf = Inr (buf @ concat (map enc xs))"
  by (rule for_each_append) (rule assms)

subsection \<open>The faults of a deserialiser\<close>

definition faults_in :: "('e fault \<Rightarrow> bool) \<Rightarrow> ('a, 'e) deserializer \<Rightarrow> bool" where
  "faults_in P m \<longleftrightarrow> (\<forall>bs f. m bs = Inl f \<longrightarrow> P f)"

lemma faults_inD: "faults_in P m \<Longrightarrow> m bs = Inl f \<Longrightarrow> P f"
  by (auto simp: faults_in_def)

lemma faults_in_mono: "faults_in P m \<Longrightarrow> (\<And>f. P f \<Longrightarrow> Q f) \<Longrightarrow> faults_in Q m"
  by (auto simp: faults_in_def)

lemma faults_in_bind [faults]:
  "faults_in P m \<Longrightarrow> (\<And>x. faults_in P (k x)) \<Longrightarrow> faults_in P (bind m k)"
  by (auto simp: faults_in_def bind_eq_Inl)

lemma faults_in_Ok [faults]: "faults_in P (Ok x)"
  by (simp add: faults_in_def)

lemma faults_in_fail [faults]: "P f \<Longrightarrow> faults_in P (fail f)"
  by (simp add: faults_in_def)

lemma faults_in_if [faults]:
  "faults_in P m \<Longrightarrow> faults_in P m' \<Longrightarrow> faults_in P (if c then m else m')"
  by simp

lemma faults_in_assert_empty [faults]: "P (Panic AssertFailed) \<Longrightarrow> faults_in P assert_empty"
  by (simp add: faults_in_def assert_empty_def)

lemma faults_in_repeat_de [faults]: "faults_in P m \<Longrightarrow> faults_in P (repeat_de n m)"
  by (induction n) (auto intro!: faults)

section \<open>Big-endian integers\<close>

text \<open>
  \<open>be_bytes k n\<close> is the \<open>k\<close>-byte big-endian form of \<open>n\<close> (its low \<open>8 * k\<close> bits), the form in
  which the network protocol carries every integer; \<open>be_nat\<close> reads such a form back.
\<close>

fun be_bytes :: "nat \<Rightarrow> nat \<Rightarrow> bytes" where
  "be_bytes 0 n = []"
| "be_bytes (Suc k) n = be_bytes k (n div 256) @ [word_of_nat n]"

definition be_nat :: "bytes \<Rightarrow> nat" where
  "be_nat bs = foldl (\<lambda>acc b. acc * 256 + unat b) 0 bs"

lemma length_be_bytes [simp]: "length (be_bytes k n) = k"
  by (induction k arbitrary: n) auto

lemma be_bytes_numeral [evaluate]:
  "be_bytes (numeral k) n = be_bytes (pred_numeral k) (n div 256) @ [word_of_nat n]"
  by (subst numeral_eq_Suc) (rule be_bytes.simps(2))

lemma be_nat_Nil [simp]: "be_nat [] = 0"
  by (simp add: be_nat_def)

lemma be_nat_snoc [simp]: "be_nat (bs @ [b]) = be_nat bs * 256 + unat b"
  by (simp add: be_nat_def)

lemma unat_u8_less: "unat (b :: u8) < 256"
  using unsigned_less [of b] by simp

lemma word_of_nat_byte: "word_of_nat (n * 256 + unat b) = (b :: u8)"
proof (rule word_unat_eq_iff [THEN iffD2])
  show "unat (word_of_nat (n * 256 + unat b) :: u8) = unat b"
    using unat_u8_less [of b] unat_of_nat [of "n * 256 + unat b", where 'a = 8] by simp
qed

lemma be_nat_be_bytes: "be_nat (be_bytes k n) = n mod 256 ^ k"
proof (induction k arbitrary: n)
  case (Suc k)
  have "unat (word_of_nat n :: u8) = n mod 256"
    by (simp add: unat_of_nat)
  with Suc show ?case
    by (simp add: mod_mult2_eq)
qed simp

lemma be_nat_less: "be_nat bs < 256 ^ length bs"
proof (induction bs rule: rev_induct)
  case (snoc b bs)
  with unat_u8_less [of b] show ?case by simp
qed simp

lemma be_bytes_be_nat: "be_bytes (length bs) (be_nat bs) = bs"
proof (induction bs rule: rev_induct)
  case (snoc b bs)
  have "(be_nat bs * 256 + unat b) div 256 = be_nat bs"
    using unat_u8_less [of b] by simp
  with snoc show ?case
    by (simp add: word_of_nat_byte del: of_nat_add of_nat_mult)
qed simp

lemma be_bytes_inj: "m < 256 ^ k \<Longrightarrow> n < 256 ^ k \<Longrightarrow> be_bytes k m = be_bytes k n \<longleftrightarrow> m = n"
  by (metis be_nat_be_bytes mod_less)

lemma be_bytes_mod: "be_bytes k (n mod 256 ^ k) = be_bytes k n"
  by (metis be_bytes_be_nat be_nat_be_bytes length_be_bytes)

text \<open>Fixed-width integers: a word and its bytes determine each other.\<close>

lemma word_be_bytes:
  assumes "256 ^ k = (2 :: nat) ^ LENGTH('a::len)"
  shows "word_of_nat (be_nat (be_bytes k (unat (w :: 'a word)))) = w"
  using assms by (simp add: be_nat_be_bytes)

lemma be_bytes_word:
  assumes "256 ^ k = (2 :: nat) ^ LENGTH('a::len)" and "length bs = k"
  shows "be_bytes k (unat (word_of_nat (be_nat bs) :: 'a word)) = bs"
  using assms be_nat_less [of bs] be_bytes_be_nat [of bs] by (simp add: unat_of_nat)

lemma be_bytes_unat_inj:
  assumes "256 ^ k = (2 :: nat) ^ LENGTH('a::len)"
  shows "be_bytes k (unat (w :: 'a word)) = be_bytes k (unat w') \<longleftrightarrow> w = w'"
  using word_be_bytes [OF assms, of w] word_be_bytes [OF assms, of w'] by metis

lemma be_bytes_word_inj [simp]:
  "be_bytes 4 (unat (w :: i32)) = be_bytes 4 (unat w') \<longleftrightarrow> w = w'"
  "be_bytes 8 (unat (v :: i64)) = be_bytes 8 (unat v') \<longleftrightarrow> v = v'"
  by (rule be_bytes_unat_inj; simp)+

lemma take_drop_iff:
  "length h = n \<Longrightarrow> n \<le> length bs \<and> take n bs = h \<and> drop n bs = rest \<longleftrightarrow> bs = h @ rest"
  by (metis append_eq_conv_conj append_take_drop_id length_append le_add1)

end
