(* ===== verification/Rust_Std.thy ===== *)
theory Rust_Std
  imports Prelude
begin

text \<open>
  The parts of the Rust standard library that the sources use: the \<open>as\<close> casts between
  \<open>i32\<close> and \<open>usize\<close>, the capacity limit of a collection, checked \<open>usize\<close> arithmetic,
  \<open>i32::from_be_bytes\<close> and the UTF-8 check of \<open>String::from_utf8\<close>.
\<close>

section \<open>Integers\<close>

text \<open>The casts \<open>x as usize\<close> of an \<open>i32\<close> (sign extension to 64 bits) and \<open>n as i32\<close> (truncation).\<close>

definition i32_as_usize :: "i32 \<Rightarrow> nat" where
  "i32_as_usize w = nat (sint w mod 2 ^ 64)"

definition usize_as_i32 :: "nat \<Rightarrow> i32" where
  "usize_as_i32 n = word_of_nat n"

text \<open>
  A collection never takes more than \<open>isize::MAX\<close> bytes: \<open>vec![0; len]\<close> and
  \<open>Vec::with_capacity(len)\<close> panic with a capacity overflow beyond it. The lengths of this
  program are \<open>i32\<close> values, so either they are below \<open>2 ^ 31\<close> or, negative and sign-extended,
  at least \<open>2 ^ 64 - 2 ^ 31\<close>; an element size below \<open>2 ^ 32\<close> bytes does not change which.
\<close>

definition capacity_overflow :: "nat \<Rightarrow> bool" where
  "capacity_overflow len \<longleftrightarrow> 2 ^ 63 \<le> len"

lemma even_div_2_31: "0 \<le> (u::int) \<Longrightarrow> u < 2 ^ 32 \<Longrightarrow> even (u div 2 ^ 31) \<longleftrightarrow> u < 2 ^ 31"
proof -
  assume u: "0 \<le> u" "u < 2 ^ 32"
  show ?thesis
  proof (cases "u < 2 ^ 31")
    case True
    with u show ?thesis by simp
  next
    case False
    have "(u - 2 ^ 31) div 2 ^ 31 = 0" using u False by simp
    moreover have "u div 2 ^ 31 = (u - 2 ^ 31) div 2 ^ 31 + 1"
      using div_add_self2 [of "2 ^ 31" "u - 2 ^ 31"] by simp
    ultimately show ?thesis using False by simp
  qed
qed

lemma unat_i32_less: "unat (w :: i32) < 2 ^ 32"
  using unsigned_less [of w] by simp

lemma sint_i32: "sint (w :: i32) = (if unat w < 2 ^ 31 then int (unat w) else int (unat w) - 2 ^ 32)"
proof -
  define u where "u = uint w"
  have u: "0 \<le> u" "u < 2 ^ 32"
    using uint_lt2p [of w] by (simp_all add: u_def)
  have w: "int (unat w) = u" by (simp add: u_def)
  have "bit u 31 \<longleftrightarrow> \<not> u < 2 ^ 31"
    using even_div_2_31 [OF u] by (simp add: bit_iff_odd)
  moreover have "take_bit 32 u = u"
    using u by (simp add: take_bit_int_eq_self)
  moreover have "unat w < 2 ^ 31 \<longleftrightarrow> u < 2 ^ 31"
    using of_nat_less_iff [of "unat w" "2 ^ 31", where 'a = int] by (simp only: of_nat_power of_nat_numeral w)
  ultimately show ?thesis
    unfolding w by (simp add: sint_uint u_def [symmetric] signed_take_bit_eq_take_bit_minus)
qed

lemma mod_shift: "0 \<le> (a::int) + 2 ^ 64 \<Longrightarrow> a < 0 \<Longrightarrow> a mod 2 ^ 64 = a + 2 ^ 64"
  by (metis add.commute add_less_same_cancel1 mod_add_self2 mod_pos_pos_trivial)

lemma i32_as_usize_nonneg:
  assumes "unat w < 2 ^ 31"
  shows "i32_as_usize w = unat w"
proof -
  define n where "n = unat w"
  have "n < 2 ^ 31" using assms by (simp add: n_def)
  then have "int n mod 2 ^ 64 = int n" by simp
  with \<open>n < 2 ^ 31\<close> show ?thesis
    unfolding i32_as_usize_def sint_i32 n_def [symmetric] by simp
qed

lemma i32_as_usize_neg:
  assumes "\<not> unat w < 2 ^ 31"
  shows "i32_as_usize w = unat w + (2 ^ 64 - 2 ^ 32)"
proof -
  define n where "n = unat w"
  have n: "n < 2 ^ 32" "\<not> n < 2 ^ 31" using unat_i32_less [of w] assms by (simp_all add: n_def)
  then have "(int n - 2 ^ 32) mod 2 ^ 64 = int n - 2 ^ 32 + 2 ^ 64"
    by (intro mod_shift) simp_all
  with n show ?thesis
    unfolding i32_as_usize_def sint_i32 n_def [symmetric] by simp
qed

lemma usize_as_i32_unat [simp]: "usize_as_i32 (unat w) = w"
  by (simp add: usize_as_i32_def)

lemma be_bytes_usize_as_i32 [simp]: "be_bytes 4 (unat (usize_as_i32 n)) = be_bytes 4 n"
  using be_bytes_mod [of 4 n] by (simp add: usize_as_i32_def unat_of_nat)

lemma unat_usize_as_i32: "n < 2 ^ 31 \<Longrightarrow> unat (usize_as_i32 n) = n"
  by (simp add: usize_as_i32_def unat_of_nat)

text \<open>\<open>n.checked_add(k)\<close> and \<open>n.checked_sub(k)\<close> on \<open>usize\<close>.\<close>

definition checked_add :: "nat \<Rightarrow> nat \<Rightarrow> nat option" where
  "checked_add n k = (if n + k < 2 ^ 64 then Some (n + k) else None)"

definition checked_sub :: "nat \<Rightarrow> nat \<Rightarrow> nat option" where
  "checked_sub n k = (if k \<le> n then Some (n - k) else None)"

text \<open>\<open>i32::from_be_bytes(src[..4].try_into().unwrap())\<close>\<close>

definition i32_from_be_bytes :: "bytes \<Rightarrow> i32" where
  "i32_from_be_bytes bs = word_of_nat (be_nat bs)"

lemma i32_from_be_bytes_be_bytes [simp]: "i32_from_be_bytes (be_bytes 4 (unat w)) = w"
  by (simp add: i32_from_be_bytes_def word_be_bytes)

section \<open>UTF-8\<close>

text \<open>
  A Rust \<open>String\<close> is its bytes, which are always well-formed UTF-8. \<open>utf8\<close> is the check of
  \<open>String::from_utf8\<close>: the well-formed byte sequences of the Unicode standard, with no
  overlong form, no surrogate and nothing above U+10FFFF.
\<close>

type_synonym rust_string = bytes

definition continuation :: "u8 \<Rightarrow> bool" where
  "continuation b \<longleftrightarrow> 0x80 \<le> b \<and> b \<le> 0xBF"

text \<open>\<open>second_ok b0 b1\<close>: \<open>b1\<close> may follow the lead byte \<open>b0\<close> of a three or four byte form.\<close>

definition second_ok :: "u8 \<Rightarrow> u8 \<Rightarrow> bool" where
  "second_ok b0 b1 \<longleftrightarrow>
     (if b0 = 0xE0 then 0xA0 \<le> b1 \<and> b1 \<le> 0xBF
      else if b0 = 0xED then 0x80 \<le> b1 \<and> b1 \<le> 0x9F
      else if b0 = 0xF0 then 0x90 \<le> b1 \<and> b1 \<le> 0xBF
      else if b0 = 0xF4 then 0x80 \<le> b1 \<and> b1 \<le> 0x8F
      else continuation b1)"

fun utf8 :: "bytes \<Rightarrow> bool" where
  "utf8 [] = True"
| "utf8 (b0 # bs) =
     (if b0 \<le> 0x7F then utf8 bs
      else if 0xC2 \<le> b0 \<and> b0 \<le> 0xDF then
        (case bs of b1 # rest \<Rightarrow> continuation b1 \<and> utf8 rest | [] \<Rightarrow> False)
      else if 0xE0 \<le> b0 \<and> b0 \<le> 0xEF then
        (case bs of b1 # b2 # rest \<Rightarrow> second_ok b0 b1 \<and> continuation b2 \<and> utf8 rest | _ \<Rightarrow> False)
      else if 0xF0 \<le> b0 \<and> b0 \<le> 0xF4 then
        (case bs of b1 # b2 # b3 # rest \<Rightarrow>
           second_ok b0 b1 \<and> continuation b2 \<and> continuation b3 \<and> utf8 rest | _ \<Rightarrow> False)
      else False)"

lemma utf8_ascii: "list_all (\<lambda>b. b \<le> 0x7F) bs \<Longrightarrow> utf8 bs"
  by (induction bs) auto

end
