(* ===== verification/Bytes_Api.thy ===== *)
theory Bytes_Api
  imports Rust_Std
begin

text \<open>
  The interface of the third-party crate \<open>bytes\<close>. A \<open>BytesMut\<close> is the byte list it holds
  (\<open>len\<close>, \<open>is_empty\<close> and \<open>src[..4]\<close> are those of the slice it derefs to); the operations of
  its traits \<open>Buf\<close> and \<open>BufMut\<close> are not code of this repository, so they are the fields of a
  record \<open>B\<close> that every definition of the model takes as an argument. \<^theory_text>\<open>bytes_laws\<close> states
  what the documentation of the crate promises of them, and \<open>std_bytes\<close> is a concrete
  instance for the witnesses. \<open>reserve\<close> and \<open>with_capacity\<close> only affect capacity and are
  left out.
\<close>

section \<open>The operations\<close>

text \<open>A read returns \<open>None\<close> where the crate panics.\<close>

record bytes_crate =
  crate_get_u8 :: "bytes \<Rightarrow> (u8 \<times> bytes) option"
  crate_get_i32 :: "bytes \<Rightarrow> (i32 \<times> bytes) option"
  crate_get_i64 :: "bytes \<Rightarrow> (i64 \<times> bytes) option"
  crate_get_uint :: "nat \<Rightarrow> bytes \<Rightarrow> (nat \<times> bytes) option"
  crate_get_uint_le :: "nat \<Rightarrow> bytes \<Rightarrow> (nat \<times> bytes) option"
  crate_copy_to_slice :: "nat \<Rightarrow> bytes \<Rightarrow> (bytes \<times> bytes) option"
  crate_split_to :: "nat \<Rightarrow> bytes \<Rightarrow> (bytes \<times> bytes) option"
  crate_advance :: "nat \<Rightarrow> bytes \<Rightarrow> (unit \<times> bytes) option"
  crate_put_u8 :: "u8 \<Rightarrow> bytes \<Rightarrow> bytes"
  crate_put_i32 :: "i32 \<Rightarrow> bytes \<Rightarrow> bytes"
  crate_put_i64 :: "i64 \<Rightarrow> bytes \<Rightarrow> bytes"
  crate_put_uint :: "nat \<Rightarrow> nat \<Rightarrow> bytes \<Rightarrow> bytes"
  crate_put_uint_le :: "nat \<Rightarrow> nat \<Rightarrow> bytes \<Rightarrow> bytes"
  crate_put_slice :: "bytes \<Rightarrow> bytes \<Rightarrow> bytes"
  crate_extend_from_slice :: "bytes \<Rightarrow> bytes \<Rightarrow> bytes"

definition may_panic :: "(bytes \<Rightarrow> ('a \<times> bytes) option) \<Rightarrow> ('a, 'e) deserializer" where
  "may_panic m bs = (case m bs of None \<Rightarrow> Inl (Panic BufUnderflow) | Some p \<Rightarrow> Inr p)"

definition get_u8 :: "bytes_crate \<Rightarrow> (u8, 'e) deserializer" where
  "get_u8 B = may_panic (crate_get_u8 B)"

definition get_i32 :: "bytes_crate \<Rightarrow> (i32, 'e) deserializer" where
  "get_i32 B = may_panic (crate_get_i32 B)"

definition get_i64 :: "bytes_crate \<Rightarrow> (i64, 'e) deserializer" where
  "get_i64 B = may_panic (crate_get_i64 B)"

definition get_uint :: "bytes_crate \<Rightarrow> nat \<Rightarrow> (nat, 'e) deserializer" where
  "get_uint B k = may_panic (crate_get_uint B k)"

definition get_uint_le :: "bytes_crate \<Rightarrow> nat \<Rightarrow> (nat, 'e) deserializer" where
  "get_uint_le B k = may_panic (crate_get_uint_le B k)"

definition copy_to_slice :: "bytes_crate \<Rightarrow> nat \<Rightarrow> (bytes, 'e) deserializer" where
  "copy_to_slice B n = may_panic (crate_copy_to_slice B n)"

definition split_to :: "bytes_crate \<Rightarrow> nat \<Rightarrow> (bytes, 'e) deserializer" where
  "split_to B n = may_panic (crate_split_to B n)"

definition advance :: "bytes_crate \<Rightarrow> nat \<Rightarrow> (unit, 'e) deserializer" where
  "advance B n = may_panic (crate_advance B n)"

definition put_u8 :: "bytes_crate \<Rightarrow> u8 \<Rightarrow> 'e serializer" where
  "put_u8 B b buf = Inr (crate_put_u8 B b buf)"

definition put_i32 :: "bytes_crate \<Rightarrow> i32 \<Rightarrow> 'e serializer" where
  "put_i32 B w buf = Inr (crate_put_i32 B w buf)"

definition put_i64 :: "bytes_crate \<Rightarrow> i64 \<Rightarrow> 'e serializer" where
  "put_i64 B w buf = Inr (crate_put_i64 B w buf)"

definition put_uint :: "bytes_crate \<Rightarrow> nat \<Rightarrow> nat \<Rightarrow> 'e serializer" where
  "put_uint B n k buf = Inr (crate_put_uint B n k buf)"

definition put_uint_le :: "bytes_crate \<Rightarrow> nat \<Rightarrow> nat \<Rightarrow> 'e serializer" where
  "put_uint_le B n k buf = Inr (crate_put_uint_le B n k buf)"

definition put_slice :: "bytes_crate \<Rightarrow> bytes \<Rightarrow> 'e serializer" where
  "put_slice B s buf = Inr (crate_put_slice B s buf)"

definition extend_from_slice :: "bytes_crate \<Rightarrow> bytes \<Rightarrow> 'e serializer" where
  "extend_from_slice B s buf = Inr (crate_extend_from_slice B s buf)"

section \<open>The documented behaviour\<close>

text \<open>
  Reads take bytes off the front, in the order the crate documents (big-endian unless the
  name ends in \<open>_le\<close>), and panic when too few remain; writes append at the end.
\<close>

locale bytes_laws =
  fixes B :: bytes_crate
  assumes get_u8_law: "crate_get_u8 B bs = (case bs of [] \<Rightarrow> None | b # rest \<Rightarrow> Some (b, rest))"
    and get_i32_law: "crate_get_i32 B bs =
      (if length bs < 4 then None else Some (word_of_nat (be_nat (take 4 bs)), drop 4 bs))"
    and get_i64_law: "crate_get_i64 B bs =
      (if length bs < 8 then None else Some (word_of_nat (be_nat (take 8 bs)), drop 8 bs))"
    and get_uint_law: "k \<le> 8 \<Longrightarrow> crate_get_uint B k bs =
      (if length bs < k then None else Some (be_nat (take k bs), drop k bs))"
    and get_uint_le_law: "k \<le> 8 \<Longrightarrow> crate_get_uint_le B k bs =
      (if length bs < k then None else Some (be_nat (rev (take k bs)), drop k bs))"
    and copy_to_slice_law: "crate_copy_to_slice B n bs =
      (if length bs < n then None else Some (take n bs, drop n bs))"
    and split_to_law: "crate_split_to B n bs =
      (if length bs < n then None else Some (take n bs, drop n bs))"
    and advance_law: "crate_advance B n bs =
      (if length bs < n then None else Some ((), drop n bs))"
    and put_u8_law: "crate_put_u8 B b buf = buf @ [b]"
    and put_i32_law: "crate_put_i32 B w buf = buf @ be_bytes 4 (unat w)"
    and put_i64_law: "crate_put_i64 B v buf = buf @ be_bytes 8 (unat v)"
    and put_uint_law: "k \<le> 8 \<Longrightarrow> m < 2 ^ 64 \<Longrightarrow> crate_put_uint B m k buf = buf @ be_bytes k m"
    and put_uint_le_law:
      "k \<le> 8 \<Longrightarrow> m < 2 ^ 64 \<Longrightarrow> crate_put_uint_le B m k buf = buf @ rev (be_bytes k m)"
    and put_slice_law: "crate_put_slice B s buf = buf @ s"
    and extend_from_slice_law: "crate_extend_from_slice B s buf = buf @ s"
begin

text \<open>Every read is characterised by what it consumed.\<close>

lemma get_u8_iff [codec]: "get_u8 B bs = Inr (b, rest) \<longleftrightarrow> bs = b # rest"
  by (auto simp: get_u8_def may_panic_def get_u8_law split: list.splits)

lemma get_i32_iff [codec]: "get_i32 B bs = Inr (w, rest) \<longleftrightarrow> bs = be_bytes 4 (unat w) @ rest"
proof -
  have "get_i32 B bs = Inr (w, rest) \<longleftrightarrow>
      4 \<le> length bs \<and> word_of_nat (be_nat (take 4 bs)) = w \<and> drop 4 bs = rest"
    by (auto simp: get_i32_def may_panic_def get_i32_law)
  also have "\<dots> \<longleftrightarrow> 4 \<le> length bs \<and> take 4 bs = be_bytes 4 (unat w) \<and> drop 4 bs = rest"
    using word_be_bytes [of 4 w] be_bytes_word [where 'a = 32, of 4 "take 4 bs"] by auto
  also have "\<dots> \<longleftrightarrow> bs = be_bytes 4 (unat w) @ rest"
    by (rule take_drop_iff) (rule length_be_bytes)
  finally show ?thesis .
qed

lemma get_i64_iff [codec]: "get_i64 B bs = Inr (v, rest) \<longleftrightarrow> bs = be_bytes 8 (unat v) @ rest"
proof -
  have "get_i64 B bs = Inr (v, rest) \<longleftrightarrow>
      8 \<le> length bs \<and> word_of_nat (be_nat (take 8 bs)) = v \<and> drop 8 bs = rest"
    by (auto simp: get_i64_def may_panic_def get_i64_law)
  also have "\<dots> \<longleftrightarrow> 8 \<le> length bs \<and> take 8 bs = be_bytes 8 (unat v) \<and> drop 8 bs = rest"
    using word_be_bytes [of 8 v] be_bytes_word [where 'a = 64, of 8 "take 8 bs"] by auto
  also have "\<dots> \<longleftrightarrow> bs = be_bytes 8 (unat v) @ rest"
    by (rule take_drop_iff) (rule length_be_bytes)
  finally show ?thesis .
qed

lemma copy_to_slice_iff [codec]:
  "copy_to_slice B n bs = Inr (xs, rest) \<longleftrightarrow> length xs = n \<and> bs = xs @ rest"
  by (auto simp: copy_to_slice_def may_panic_def copy_to_slice_law)

lemma get_u8_Cons [codec]: "get_u8 B (b # rest) = Inr (b, rest)"
  by (simp add: get_u8_iff)

lemma get_i32_be [codec]: "get_i32 B (be_bytes 4 (unat w) @ rest) = Inr (w, rest)"
  by (simp add: get_i32_iff)

lemma get_i64_be [codec]: "get_i64 B (be_bytes 8 (unat v) @ rest) = Inr (v, rest)"
  by (simp add: get_i64_iff)

lemma put_u8_eq [codec]: "put_u8 B b buf = Inr (buf @ [b])"
  by (simp add: put_u8_def put_u8_law)

lemma put_i32_eq [codec]: "put_i32 B w buf = Inr (buf @ be_bytes 4 (unat w))"
  by (simp add: put_i32_def put_i32_law)

lemma put_i64_eq [codec]: "put_i64 B v buf = Inr (buf @ be_bytes 8 (unat v))"
  by (simp add: put_i64_def put_i64_law)

lemma put_slice_eq [codec]: "put_slice B s buf = Inr (buf @ s)"
  by (simp add: put_slice_def put_slice_law)

lemma extend_from_slice_eq [codec]: "extend_from_slice B s buf = Inr (buf @ s)"
  by (simp add: extend_from_slice_def extend_from_slice_law)

lemma split_to_eq: "n \<le> length bs \<Longrightarrow> split_to B n bs = Inr (take n bs, drop n bs)"
  by (simp add: split_to_def may_panic_def split_to_law)

lemma advance_eq: "n \<le> length bs \<Longrightarrow> advance B n bs = Inr ((), drop n bs)"
  by (simp add: advance_def may_panic_def advance_law)

lemma get_uint_eq:
  "k \<le> 8 \<Longrightarrow> k \<le> length bs \<Longrightarrow> get_uint B k bs = Inr (be_nat (take k bs), drop k bs)"
  by (simp add: get_uint_def may_panic_def get_uint_law)

lemma get_uint_le_eq:
  "k \<le> 8 \<Longrightarrow> k \<le> length bs \<Longrightarrow> get_uint_le B k bs = Inr (be_nat (rev (take k bs)), drop k bs)"
  by (simp add: get_uint_le_def may_panic_def get_uint_le_law)

lemma put_uint_eq: "k \<le> 8 \<Longrightarrow> m < 2 ^ 64 \<Longrightarrow> put_uint B m k buf = Inr (buf @ be_bytes k m)"
  by (simp add: put_uint_def put_uint_law)

lemma put_uint_le_eq:
  "k \<le> 8 \<Longrightarrow> m < 2 ^ 64 \<Longrightarrow> put_uint_le B m k buf = Inr (buf @ rev (be_bytes k m))"
  by (simp add: put_uint_le_def put_uint_le_law)

end

text \<open>A read can only fail by panicking, whatever the crate does.\<close>

lemma may_panic_faults: "P (Panic BufUnderflow) \<Longrightarrow> faults_in P (may_panic m)"
  by (auto simp: faults_in_def may_panic_def split: option.splits)

lemma read_faults:
  assumes "P (Panic BufUnderflow)"
  shows "faults_in P (get_u8 B)" "faults_in P (get_i32 B)" "faults_in P (get_i64 B)"
    "faults_in P (copy_to_slice B n)"
  using assms by (simp_all add: get_u8_def get_i32_def get_i64_def copy_to_slice_def may_panic_faults)

section \<open>A concrete instance\<close>

definition take_off :: "nat \<Rightarrow> (bytes \<Rightarrow> 'a) \<Rightarrow> bytes \<Rightarrow> ('a \<times> bytes) option" where
  "take_off n f bs = (if length bs < n then None else Some (f (take n bs), drop n bs))"

definition std_bytes :: bytes_crate where
  "std_bytes = \<lparr>
     crate_get_u8 = take_off 1 hd,
     crate_get_i32 = take_off 4 (\<lambda>h. word_of_nat (be_nat h)),
     crate_get_i64 = take_off 8 (\<lambda>h. word_of_nat (be_nat h)),
     crate_get_uint = (\<lambda>k. take_off k be_nat),
     crate_get_uint_le = (\<lambda>k. take_off k (\<lambda>h. be_nat (rev h))),
     crate_copy_to_slice = (\<lambda>n. take_off n (\<lambda>h. h)),
     crate_split_to = (\<lambda>n. take_off n (\<lambda>h. h)),
     crate_advance = (\<lambda>n. take_off n (\<lambda>h. ())),
     crate_put_u8 = (\<lambda>b buf. buf @ [b]),
     crate_put_i32 = (\<lambda>w buf. buf @ be_bytes 4 (unat w)),
     crate_put_i64 = (\<lambda>v buf. buf @ be_bytes 8 (unat v)),
     crate_put_uint = (\<lambda>m k buf. buf @ be_bytes k m),
     crate_put_uint_le = (\<lambda>m k buf. buf @ rev (be_bytes k m)),
     crate_put_slice = (\<lambda>s buf. buf @ s),
     crate_extend_from_slice = (\<lambda>s buf. buf @ s)\<rparr>"

interpretation std: bytes_laws std_bytes
  by unfold_locales (auto simp: std_bytes_def take_off_def split: list.splits)

lemmas std_laws = std.bytes_laws_axioms

end
