(* ===== verification/Errors.thy ===== *)
theory Errors
  imports Prelude
begin

text \<open>The error type of the proxy (\<open>src/src/errors.rs\<close>).\<close>

datatype ZkError =
    SocketError string
  | InvalidPacketLength i32
  | InvalidOpCode i32
  | DecodeError
  | EncodeError
  | InvalidString

text \<open>
  \<open>impl From<std::io::Error> for ZkError\<close>: the argument is the text \<open>e.to_string()\<close> of the
  I/O error, which the standard library makes.
\<close>

definition ZkError_from_io :: "string \<Rightarrow> ZkError" where
  "ZkError_from_io text_of_e = SocketError text_of_e"

end
