(* ===== verification/Jute.thy ===== *)
theory Jute
  imports Bytes_Api Errors
begin

text \<open>
  The abstract specification of the wire format and the contract of the traits \<open>Serialize\<close>
  and \<open>Deserialize\<close> (\<open>src/src/record.rs\<close>). ZooKeeper describes its messages in the Jute
  language: a message is a record of bytes, 32 and 64 bit integers, length-prefixed buffers
  and strings, and length-prefixed vectors of records. A value of \<open>jute\<close> is such a message,
  \<open>jute_bytes\<close> its encoding. Each struct of the proxy has a view as a Jute record, and the
  locales state what its three trait methods owe to that view.
\<close>

section \<open>Messages\<close>

datatype jute =
    JByte u8
  | JInt i32
  | JLong i64
  | JBuffer bytes
  | JString rust_string
  | JRecord "jute list"
  | JVector "jute list"

fun jute_bytes :: "jute \<Rightarrow> bytes" where
  "jute_bytes (JByte b) = [b]"
| "jute_bytes (JInt w) = be_bytes 4 (unat w)"
| "jute_bytes (JLong v) = be_bytes 8 (unat v)"
| "jute_bytes (JBuffer bs) = be_bytes 4 (length bs) @ bs"
| "jute_bytes (JString s) = be_bytes 4 (length s) @ s"
| "jute_bytes (JRecord fs) = concat (map jute_bytes fs)"
| "jute_bytes (JVector xs) = be_bytes 4 (length xs) @ concat (map jute_bytes xs)"

text \<open>What fits the format: lengths are non-negative 32-bit integers, strings are UTF-8.\<close>

fun jute_ok :: "jute \<Rightarrow> bool" where
  "jute_ok (JBuffer bs) = (length bs < 2 ^ 31)"
| "jute_ok (JString s) = (length s < 2 ^ 31 \<and> utf8 s)"
| "jute_ok (JRecord fs) = (\<forall>f \<in> set fs. jute_ok f)"
| "jute_ok (JVector xs) = (length xs < 2 ^ 31 \<and> (\<forall>x \<in> set xs. jute_ok x))"
| "jute_ok _ = True"

fun jute_size :: "jute \<Rightarrow> nat" where
  "jute_size (JByte b) = 1"
| "jute_size (JInt w) = 4"
| "jute_size (JLong v) = 8"
| "jute_size (JBuffer bs) = 4 + length bs"
| "jute_size (JString s) = 4 + length s"
| "jute_size (JRecord fs) = sum_list (map jute_size fs)"
| "jute_size (JVector xs) = 4 + sum_list (map jute_size xs)"

lemma length_jute_bytes: "length (jute_bytes j) = jute_size j"
  by (induction j) (simp_all add: length_concat comp_def cong: map_cong)

section \<open>The contract of the traits\<close>

text \<open>
  \<open>Serialize\<close>: \<open>serialize_into\<close> appends the encoding of the value's view to the buffer and
  leaves what the buffer held, and \<open>size\<close> is exactly the number of bytes it appends.
\<close>

locale jute_serializer =
  fixes ser :: "'a \<Rightarrow> ZkError serializer"
    and size_of :: "'a \<Rightarrow> nat"
    and view :: "'a \<Rightarrow> jute"
  assumes ser_law [codec]: "ser x buf = Inr (buf @ jute_bytes (view x))"
    and size_law [codec]: "size_of x = jute_size (view x)"
begin

lemma for_each_law [codec]:
  "for_each ser xs buf = Inr (buf @ concat (map (\<lambda>x. jute_bytes (view x)) xs))"
  by (rule for_each_eq) (rule ser_law)

lemma map_size_law [codec]: "map size_of xs = map (\<lambda>x. jute_size (view x)) xs"
  by (simp add: size_law)

lemma size_exact: "ser x buf = Inr buf' \<Longrightarrow> length buf' = length buf + size_of x"
  by (auto simp: ser_law size_law length_jute_bytes)

end

text \<open>
  \<open>Deserialize\<close>: \<open>deserialize\<close> returns \<open>x\<close> exactly when \<open>x\<close> is well-formed and the buffer
  starts with the encoding of \<open>x\<close>, and then it leaves the bytes behind that encoding.
\<close>

locale jute_message = jute_serializer ser size_of view
  for ser :: "'a \<Rightarrow> ZkError serializer" and size_of :: "'a \<Rightarrow> nat" and view :: "'a \<Rightarrow> jute" +
  fixes ok :: "'a \<Rightarrow> bool"
    and de :: "('a, ZkError) deserializer"
  assumes de_law [codec]: "de bs = Inr (x, rest) \<longleftrightarrow> ok x \<and> bs = jute_bytes (view x) @ rest"
begin

lemma de_encoded [codec]: "ok x \<Longrightarrow> de (jute_bytes (view x) @ rest) = Inr (x, rest)"
  by (simp add: de_law)

lemma roundtrip: "ok x \<Longrightarrow> ser x [] = Inr bs \<Longrightarrow> de (bs @ rest) = Inr (x, rest)"
  by (auto simp: ser_law de_law)

lemma reprint: "de bs = Inr (x, rest) \<Longrightarrow> ser x buf = Inr (buf @ h) \<longleftrightarrow> bs = h @ rest"
  by (auto simp: ser_law de_law)

lemma consumed: "de bs = Inr (x, rest) \<Longrightarrow> length bs = size_of x + length rest"
  by (auto simp: de_law size_law length_jute_bytes)

text \<open>The encoding is uniquely readable: no well-formed encoding is a prefix of another.\<close>

lemma prefix_free:
  assumes "ok x" "ok y"
    and "jute_bytes (view x) @ r = jute_bytes (view y) @ s"
  shows "x = y \<and> r = s"
proof -
  have "de (jute_bytes (view x) @ r) = Inr (x, r)"
    using assms by (simp add: de_law)
  moreover have "de (jute_bytes (view x) @ r) = Inr (y, s)"
    using assms by (simp add: de_law)
  ultimately show ?thesis by simp
qed

text \<open>A message that is cut short is never read as some other message.\<close>

lemma cut_short:
  assumes "ok x" and "jute_bytes (view x) = bs @ c # missing"
  shows "\<exists>f. de bs = Inl f"
proof (cases "de bs")
  case (Inr p)
  obtain y r where p: "p = (y, r)" by (cases p)
  then have "ok y" and "bs = jute_bytes (view y) @ r"
    using Inr by (simp_all add: de_law)
  then have "x = y \<and> [] = r @ c # missing"
    using assms by (intro prefix_free) simp_all
  then show ?thesis by simp
qed simp

end

text \<open>
  The deserialiser of a struct asks for no more than that lengths and strings fit the format.
  It ends with a value, with \<open>Err(InvalidString)\<close>, or panics in a read past the end of the
  buffer or in an allocation for a negative length.
\<close>

definition wire_fault :: "ZkError fault \<Rightarrow> bool" where
  "wire_fault f \<longleftrightarrow> f = Err InvalidString \<or> f = Panic BufUnderflow \<or> f = Panic CapacityOverflow"

lemma wire_fault_simps [simp]:
  "wire_fault (Err InvalidString)" "wire_fault (Panic BufUnderflow)"
  "wire_fault (Panic CapacityOverflow)" "\<not> wire_fault Diverge"
  by (simp_all add: wire_fault_def)

lemmas wire_read_faults [faults] = read_faults [where P = wire_fault, OF wire_fault_simps(2)]

locale jute_record = jute_message ser size_of view "\<lambda>x. jute_ok (view x)" de
  for ser :: "'a \<Rightarrow> ZkError serializer" and size_of :: "'a \<Rightarrow> nat" and view :: "'a \<Rightarrow> jute"
    and de :: "('a, ZkError) deserializer" +
  assumes fault_law [faults]: "faults_in wire_fault de"
begin

lemma truncated:
  assumes "jute_ok (view x)" and "jute_bytes (view x) = bs @ c # missing"
  shows "\<exists>f. de bs = Inl f \<and> wire_fault f"
  using cut_short [OF assms] fault_law by (auto dest: faults_inD)

end

text \<open>
  For a struct, the decoding law is shown in two halves: what a successful read says about
  the buffer, and the read of an encoding.
\<close>

lemma jute_recordI:
  assumes "\<And>x buf. ser x buf = Inr (buf @ jute_bytes (view x))"
    and "\<And>x. size_of x = jute_size (view x)"
    and "\<And>bs x rest. de bs = Inr (x, rest) \<Longrightarrow>
      jute_ok (view x) \<and> bs = jute_bytes (view x) @ rest"
    and "\<And>x rest. jute_ok (view x) \<Longrightarrow> de (jute_bytes (view x) @ rest) = Inr (x, rest)"
    and "faults_in wire_fault de"
  shows "jute_record ser size_of view de"
  using assms by unfold_locales blast+

end
