(* ===== verification/Proto_Base.thy ===== *)
theory Proto_Base
  imports Jute
begin

text \<open>
  The building blocks of \<open>src/src/proto.rs\<close>: strings, vectors and byte vectors, and the
  structs that other structs contain (\<open>Id\<close>, \<open>ACL\<close>, \<open>Stat\<close>, \<open>ClientInfo\<close>). For each the
  struct, its three trait methods, its Jute view, and the proof of the contract.
\<close>

section \<open>String\<close>

definition String_serialize_into :: "bytes_crate \<Rightarrow> rust_string \<Rightarrow> ZkError serializer" where
  "String_serialize_into B self =
     seq (put_i32 B (usize_as_i32 (length self)))
    (seq (put_slice B self)
     finish)"

definition String_size :: "rust_string \<Rightarrow> nat" where
  "String_size self = 4 + length self"

definition String_deserialize :: "bytes_crate \<Rightarrow> (rust_string, ZkError) deserializer" where
  "String_deserialize B =
     bind (get_i32 B) (\<lambda>w. let len = i32_as_usize w in
       if capacity_overflow len then fail (Panic CapacityOverflow)
       else bind (copy_to_slice B len) (\<lambda>buf.
         if utf8 buf then Ok buf else fail (Err InvalidString)))"

section \<open>Vec of bytes\<close>

definition Bytes_serialize_into :: "bytes_crate \<Rightarrow> bytes \<Rightarrow> ZkError serializer" where
  "Bytes_serialize_into B self =
     seq (put_i32 B (usize_as_i32 (length self)))
    (seq (put_slice B self)
     finish)"

definition Bytes_size :: "bytes \<Rightarrow> nat" where
  "Bytes_size self = 4 + length self"

definition Bytes_deserialize :: "bytes_crate \<Rightarrow> (bytes, ZkError) deserializer" where
  "Bytes_deserialize B =
     bind (get_i32 B) (\<lambda>w. let len = i32_as_usize w in
       if capacity_overflow len then fail (Panic CapacityOverflow)
       else bind (copy_to_slice B len) Ok)"

section \<open>Vec of T\<close>

text \<open>The methods of \<open>Vec<T>\<close> take those of the element type \<open>T\<close>.\<close>

definition Vec_serialize_into ::
  "bytes_crate \<Rightarrow> ('a \<Rightarrow> ZkError serializer) \<Rightarrow> 'a list \<Rightarrow> ZkError serializer" where
  "Vec_serialize_into B ser self =
     seq (put_i32 B (usize_as_i32 (length self)))
    (seq (for_each ser self)
     finish)"

definition Vec_size :: "('a \<Rightarrow> nat) \<Rightarrow> 'a list \<Rightarrow> nat" where
  "Vec_size size_of self = 4 + sum_list (map size_of self)"

definition Vec_deserialize ::
  "bytes_crate \<Rightarrow> ('a, ZkError) deserializer \<Rightarrow> ('a list, ZkError) deserializer" where
  "Vec_deserialize B de =
     bind (get_i32 B) (\<lambda>w. let len = i32_as_usize w in
       if capacity_overflow len then fail (Panic CapacityOverflow)
       else repeat_de len de)"

text \<open>
  A length read from the wire is usable exactly when it is not negative, that is below
  \<open>2 ^ 31\<close>; a negative one is an allocation of more than \<open>isize::MAX\<close> bytes.
\<close>

lemma capacity_overflow_i32: "capacity_overflow (i32_as_usize w) \<longleftrightarrow> \<not> unat w < 2 ^ 31"
proof (cases "unat w < 2 ^ 31")
  case True
  then show ?thesis by (simp add: i32_as_usize_nonneg capacity_overflow_def)
next
  case False
  then show ?thesis by (simp add: i32_as_usize_neg capacity_overflow_def)
qed

context bytes_laws
begin

lemma read_length_iff:
  "bind (get_i32 B) (\<lambda>w. let len = i32_as_usize w in
     if capacity_overflow len then fail f else m len) bs = Inr q \<longleftrightarrow>
   (\<exists>n rest. n < 2 ^ 31 \<and> bs = be_bytes 4 n @ rest \<and> m n rest = Inr q)" (is "?L \<longleftrightarrow> ?R")
proof
  assume ?L
  then show ?R
    by (auto simp: codec bind_eq_Inr Let_def capacity_overflow_i32 i32_as_usize_nonneg split: if_splits)
next
  assume ?R
  then obtain n rest where n: "n < 2 ^ 31" "bs = be_bytes 4 n @ rest" "m n rest = Inr q"
    by blast
  then have "unat (usize_as_i32 n) = n" by (simp add: unat_usize_as_i32)
  then have "i32_as_usize (usize_as_i32 n) = n" "\<not> capacity_overflow n"
    using n i32_as_usize_nonneg [of "usize_as_i32 n"] by (simp_all add: capacity_overflow_def)
  with n show ?L
    unfolding bind_eq_Inr
    by (intro exI [of _ "usize_as_i32 n"] exI [of _ rest]) (simp add: get_i32_iff)
qed

lemma repeat_de_iff:
  assumes "\<And>bs x rest. de bs = Inr (x, rest) \<longleftrightarrow> P x \<and> bs = enc x @ rest"
  shows "repeat_de n de bs = Inr (xs, rest) \<longleftrightarrow>
    length xs = n \<and> (\<forall>x \<in> set xs. P x) \<and> bs = concat (map enc xs) @ rest"
proof (induction n arbitrary: bs xs)
  case 0
  show ?case by (auto simp: codec)
next
  case (Suc n)
  show ?case
    by (cases xs) (auto simp: bind_eq_Inr assms Suc.IH)
qed

end

lemma length_faults [faults]:
  assumes "\<And>n. faults_in wire_fault (m n)"
  shows "faults_in wire_fault (bind (get_i32 B) (\<lambda>w. let len = i32_as_usize w in
     if capacity_overflow len then fail (Panic CapacityOverflow) else m len))"
proof (rule faults_in_bind)
  show "faults_in wire_fault (get_i32 B)" by (rule faults)
next
  fix w
  show "faults_in wire_fault (let len = i32_as_usize w in
     if capacity_overflow len then fail (Panic CapacityOverflow) else m len)"
    using assms [of "i32_as_usize w"] by (simp add: Let_def faults_in_def)
qed

section \<open>The contracts\<close>

definition String_jute :: "rust_string \<Rightarrow> jute" where
  "String_jute s = JString s"

definition Bytes_jute :: "bytes \<Rightarrow> jute" where
  "Bytes_jute bs = JBuffer bs"

definition Vec_jute :: "('a \<Rightarrow> jute) \<Rightarrow> 'a list \<Rightarrow> jute" where
  "Vec_jute view xs = JVector (map view xs)"

lemma jute_bytes_Vec [simp]:
  "jute_bytes (Vec_jute view xs) =
    be_bytes 4 (length xs) @ concat (map (\<lambda>x. jute_bytes (view x)) xs)"
  by (simp add: Vec_jute_def comp_def)

lemma jute_ok_Vec [simp]:
  "jute_ok (Vec_jute view xs) \<longleftrightarrow> length xs < 2 ^ 31 \<and> (\<forall>x \<in> set xs. jute_ok (view x))"
  by (simp add: Vec_jute_def)

lemma jute_size_Vec [simp]:
  "jute_size (Vec_jute view xs) = 4 + sum_list (map (\<lambda>x. jute_size (view x)) xs)"
  by (simp add: Vec_jute_def comp_def)

lemma String_faults [faults]: "faults_in wire_fault (String_deserialize B)"
  unfolding String_deserialize_def
  by (intro length_faults faults) simp_all

lemma Bytes_faults [faults]: "faults_in wire_fault (Bytes_deserialize B)"
  unfolding Bytes_deserialize_def by (intro length_faults faults)

sublocale bytes_laws \<subseteq> String: jute_record
    "String_serialize_into B" String_size String_jute "String_deserialize B"
proof unfold_locales
  fix bs x rest
  show "String_deserialize B bs = Inr (x, rest) \<longleftrightarrow>
      jute_ok (String_jute x) \<and> bs = jute_bytes (String_jute x) @ rest"
    unfolding String_deserialize_def read_length_iff
    by (auto simp: codec bind_eq_Inr String_jute_def split: if_splits)
qed (simp_all add: codec String_serialize_into_def String_size_def String_jute_def String_faults)

sublocale bytes_laws \<subseteq> Bytes: jute_record
    "Bytes_serialize_into B" Bytes_size Bytes_jute "Bytes_deserialize B"
proof unfold_locales
  fix bs x rest
  show "Bytes_deserialize B bs = Inr (x, rest) \<longleftrightarrow>
      jute_ok (Bytes_jute x) \<and> bs = jute_bytes (Bytes_jute x) @ rest"
    unfolding Bytes_deserialize_def read_length_iff
    by (auto simp: codec bind_eq_Inr Bytes_jute_def)
qed (simp_all add: codec Bytes_serialize_into_def Bytes_size_def Bytes_jute_def Bytes_faults)

text \<open>A vector meets the contract whenever its elements do.\<close>

context bytes_laws
begin

lemma Vec_record:
  assumes "jute_record ser size_of view de"
  shows "jute_record (Vec_serialize_into B ser) (Vec_size size_of) (Vec_jute view) (Vec_deserialize B de)"
proof -
  note message = jute_record.axioms(1) [OF assms]
  note elem = jute_serializer.for_each_law [OF jute_message.axioms(1) [OF message]]
    jute_serializer.map_size_law [OF jute_message.axioms(1) [OF message]]
  show ?thesis
  proof unfold_locales
    fix bs x rest
    show "Vec_deserialize B de bs = Inr (x, rest) \<longleftrightarrow>
        jute_ok (Vec_jute view x) \<and> bs = jute_bytes (Vec_jute view x) @ rest"
      unfolding Vec_deserialize_def read_length_iff
        repeat_de_iff [OF jute_message.de_law [OF message]]
      by auto
  next
    show "faults_in wire_fault (Vec_deserialize B de)"
      unfolding Vec_deserialize_def
      by (intro length_faults faults jute_record.fault_law [OF assms])
  qed (simp_all add: codec Vec_serialize_into_def Vec_size_def elem)
qed

text \<open>The read of a vector from its length prefix and its elements.\<close>

lemma Vec_read:
  assumes "jute_record ser size_of view de"
    and "length xs < 2 ^ 31" and "\<forall>x \<in> set xs. jute_ok (view x)"
  shows "Vec_deserialize B de
    (be_bytes 4 (length xs) @ concat (map (\<lambda>x. jute_bytes (view x)) xs) @ rest) = Inr (xs, rest)"
  using jute_message.de_encoded [OF jute_record.axioms(1) [OF Vec_record [OF assms(1)]], of xs rest] assms(2,3) by simp

end

sublocale bytes_laws \<subseteq> Strings: jute_record
    "Vec_serialize_into B (String_serialize_into B)" "Vec_size String_size" "Vec_jute String_jute"
    "Vec_deserialize B (String_deserialize B)"
  by (rule Vec_record) (rule String.jute_record_axioms)

context bytes_laws
begin

lemmas Strings_read [codec] = Vec_read [OF String.jute_record_axioms]

end

section \<open>Id\<close>

record Id =
  scheme :: rust_string
  id_f :: rust_string

definition Id_jute :: "Id \<Rightarrow> jute" where
  "Id_jute x = JRecord [String_jute (scheme x), String_jute (id_f x)]"

definition Id_serialize_into :: "bytes_crate \<Rightarrow> Id \<Rightarrow> ZkError serializer" where
  "Id_serialize_into B self =
     seq (String_serialize_into B (scheme self))
    (seq (String_serialize_into B (id_f self))
     finish)"

definition Id_size :: "Id \<Rightarrow> nat" where
  "Id_size self = String_size (scheme self) + String_size (id_f self)"

definition Id_deserialize :: "bytes_crate \<Rightarrow> (Id, ZkError) deserializer" where
  "Id_deserialize B =
     bind (String_deserialize B) (\<lambda>scheme.
     bind (String_deserialize B) (\<lambda>id_f.
     Ok \<lparr>scheme = scheme, id_f = id_f\<rparr>))"

sublocale bytes_laws \<subseteq> Id: jute_record
    "Id_serialize_into B" Id_size Id_jute "Id_deserialize B"
  by (rule jute_recordI)
    (auto simp: codec Id_jute_def Id_serialize_into_def Id_size_def Id_deserialize_def
      bind_def intro!: faults split: sum.split_asm prod.split_asm)

sublocale bytes_laws \<subseteq> Ids: jute_record
    "Vec_serialize_into B (Id_serialize_into B)" "Vec_size Id_size" "Vec_jute Id_jute"
    "Vec_deserialize B (Id_deserialize B)"
  by (rule Vec_record) (rule Id.jute_record_axioms)

context bytes_laws
begin

lemmas Ids_read [codec] = Vec_read [OF Id.jute_record_axioms]

end

section \<open>ACL\<close>

record ACL =
  perms :: i32
  id_f :: Id

definition ACL_jute :: "ACL \<Rightarrow> jute" where
  "ACL_jute x = JRecord [JInt (perms x), Id_jute (id_f x)]"

definition ACL_serialize_into :: "bytes_crate \<Rightarrow> ACL \<Rightarrow> ZkError serializer" where
  "ACL_serialize_into B self =
     seq (put_i32 B (perms self))
    (seq (Id_serialize_into B (id_f self))
     finish)"

definition ACL_size :: "ACL \<Rightarrow> nat" where
  "ACL_size self = 4 + Id_size (id_f self)"

definition ACL_deserialize :: "bytes_crate \<Rightarrow> (ACL, ZkError) deserializer" where
  "ACL_deserialize B =
     bind (get_i32 B) (\<lambda>perms.
     bind (Id_deserialize B) (\<lambda>id_f.
     Ok \<lparr>perms = perms, id_f = id_f\<rparr>))"

sublocale bytes_laws \<subseteq> ACL: jute_record
    "ACL_serialize_into B" ACL_size ACL_jute "ACL_deserialize B"
  by (rule jute_recordI)
    (auto simp: codec ACL_jute_def ACL_serialize_into_def ACL_size_def ACL_deserialize_def
      bind_def intro!: faults split: sum.split_asm prod.split_asm)

sublocale bytes_laws \<subseteq> ACLs: jute_record
    "Vec_serialize_into B (ACL_serialize_into B)" "Vec_size ACL_size" "Vec_jute ACL_jute"
    "Vec_deserialize B (ACL_deserialize B)"
  by (rule Vec_record) (rule ACL.jute_record_axioms)

context bytes_laws
begin

lemmas ACLs_read [codec] = Vec_read [OF ACL.jute_record_axioms]

end

section \<open>Stat\<close>

record Stat =
  czxid :: i64
  mzxid :: i64
  ctime :: i64
  mtime :: i64
  version :: i32
  cversion :: i32
  aversion :: i32
  ephemeral_owner :: i64
  data_length :: i32
  num_children :: i32
  pzxid :: i64

definition Stat_jute :: "Stat \<Rightarrow> jute" where
  "Stat_jute x = JRecord [JLong (czxid x), JLong (mzxid x), JLong (ctime x), JLong (mtime x),
     JInt (version x), JInt (cversion x), JInt (aversion x), JLong (ephemeral_owner x),
     JInt (data_length x), JInt (num_children x), JLong (pzxid x)]"

definition Stat_serialize_into :: "bytes_crate \<Rightarrow> Stat \<Rightarrow> ZkError serializer" where
  "Stat_serialize_into B self =
     seq (put_i64 B (czxid self))
    (seq (put_i64 B (mzxid self))
    (seq (put_i64 B (ctime self))
    (seq (put_i64 B (mtime self))
    (seq (put_i32 B (version self))
    (seq (put_i32 B (cversion self))
    (seq (put_i32 B (aversion self))
    (seq (put_i64 B (ephemeral_owner self))
    (seq (put_i32 B (data_length self))
    (seq (put_i32 B (num_children self))
    (seq (put_i64 B (pzxid self))
     finish))))))))))"

definition Stat_size :: "Stat \<Rightarrow> nat" where
  "Stat_size self = 8 + 8 + 8 + 8 + 4 + 4 + 4 + 8 + 4 + 4 + 8"

definition Stat_deserialize :: "bytes_crate \<Rightarrow> (Stat, ZkError) deserializer" where
  "Stat_deserialize B =
     bind (get_i64 B) (\<lambda>czxid.
     bind (get_i64 B) (\<lambda>mzxid.
     bind (get_i64 B) (\<lambda>ctime.
     bind (get_i64 B) (\<lambda>mtime.
     bind (get_i32 B) (\<lambda>version.
     bind (get_i32 B) (\<lambda>cversion.
     bind (get_i32 B) (\<lambda>aversion.
     bind (get_i64 B) (\<lambda>ephemeral_owner.
     bind (get_i32 B) (\<lambda>data_length.
     bind (get_i32 B) (\<lambda>num_children.
     bind (get_i64 B) (\<lambda>pzxid.
     Ok \<lparr>czxid = czxid, mzxid = mzxid, ctime = ctime, mtime = mtime, version = version,
       cversion = cversion, aversion = aversion, ephemeral_owner = ephemeral_owner,
       data_length = data_length, num_children = num_children, pzxid = pzxid\<rparr>)))))))))))"

sublocale bytes_laws \<subseteq> Stat: jute_record
    "Stat_serialize_into B" Stat_size Stat_jute "Stat_deserialize B"
  by (rule jute_recordI)
    (auto simp: codec Stat_jute_def Stat_serialize_into_def Stat_size_def Stat_deserialize_def
      bind_def intro!: faults split: sum.split_asm prod.split_asm)

section \<open>StatPersisted\<close>

record StatPersisted =
  czxid :: i64
  mzxid :: i64
  ctime :: i64
  mtime :: i64
  version :: i32
  cversion :: i32
  aversion :: i32
  ephemeral_owner :: i64
  pzxid :: i64

definition StatPersisted_jute :: "StatPersisted \<Rightarrow> jute" where
  "StatPersisted_jute x = JRecord [JLong (czxid x), JLong (mzxid x), JLong (ctime x),
     JLong (mtime x), JInt (version x), JInt (cversion x), JInt (aversion x),
     JLong (ephemeral_owner x), JLong (pzxid x)]"

definition StatPersisted_serialize_into :: "bytes_crate \<Rightarrow> StatPersisted \<Rightarrow> ZkError serializer" where
  "StatPersisted_serialize_into B self =
     seq (put_i64 B (czxid self))
    (seq (put_i64 B (mzxid self))
    (seq (put_i64 B (ctime self))
    (seq (put_i64 B (mtime self))
    (seq (put_i32 B (version self))
    (seq (put_i32 B (cversion self))
    (seq (put_i32 B (aversion self))
    (seq (put_i64 B (ephemeral_owner self))
    (seq (put_i64 B (pzxid self))
     finish))))))))"

definition StatPersisted_size :: "StatPersisted \<Rightarrow> nat" where
  "StatPersisted_size self = 8 + 8 + 8 + 8 + 4 + 4 + 4 + 8 + 8"

definition StatPersisted_deserialize :: "bytes_crate \<Rightarrow> (StatPersisted, ZkError) deserializer" where
  "StatPersisted_deserialize B =
     bind (get_i64 B) (\<lambda>czxid.
     bind (get_i64 B) (\<lambda>mzxid.
     bind (get_i64 B) (\<lambda>ctime.
     bind (get_i64 B) (\<lambda>mtime.
     bind (get_i32 B) (\<lambda>version.
     bind (get_i32 B) (\<lambda>cversion.
     bind (get_i32 B) (\<lambda>aversion.
     bind (get_i64 B) (\<lambda>ephemeral_owner.
     bind (get_i64 B) (\<lambda>pzxid.
     Ok \<lparr>czxid = czxid, mzxid = mzxid, ctime = ctime, mtime = mtime, version = version,
       cversion = cversion, aversion = aversion, ephemeral_owner = ephemeral_owner,
       pzxid = pzxid\<rparr>)))))))))"

sublocale bytes_laws \<subseteq> StatPersisted: jute_record
    "StatPersisted_serialize_into B" StatPersisted_size StatPersisted_jute "StatPersisted_deserialize B"
  by (rule jute_recordI)
    (auto simp: codec StatPersisted_jute_def StatPersisted_serialize_into_def StatPersisted_size_def StatPersisted_deserialize_def
      bind_def intro!: faults split: sum.split_asm prod.split_asm)

section \<open>ClientInfo\<close>

record ClientInfo =
  auth_scheme :: rust_string
  user :: rust_string

definition ClientInfo_jute :: "ClientInfo \<Rightarrow> jute" where
  "ClientInfo_jute x = JRecord [String_jute (auth_scheme x), String_jute (user x)]"

definition ClientInfo_serialize_into :: "bytes_crate \<Rightarrow> ClientInfo \<Rightarrow> ZkError serializer" where
  "ClientInfo_serialize_into B self =
     seq (String_serialize_into B (auth_scheme self))
    (seq (String_serialize_into B (user self))
     finish)"

definition ClientInfo_size :: "ClientInfo \<Rightarrow> nat" where
  "ClientInfo_size self = String_size (auth_scheme self) + String_size (user self)"

definition ClientInfo_deserialize :: "bytes_crate \<Rightarrow> (ClientInfo, ZkError) deserializer" where
  "ClientInfo_deserialize B =
     bind (String_deserialize B) (\<lambda>auth_scheme.
     bind (String_deserialize B) (\<lambda>user.
     Ok \<lparr>auth_scheme = auth_scheme, user = user\<rparr>))"

sublocale bytes_laws \<subseteq> ClientInfo: jute_record
    "ClientInfo_serialize_into B" ClientInfo_size ClientInfo_jute "ClientInfo_deserialize B"
  by (rule jute_recordI)
    (auto simp: codec ClientInfo_jute_def ClientInfo_serialize_into_def ClientInfo_size_def ClientInfo_deserialize_def
      bind_def intro!: faults split: sum.split_asm prod.split_asm)

sublocale bytes_laws \<subseteq> ClientInfos: jute_record
    "Vec_serialize_into B (ClientInfo_serialize_into B)" "Vec_size ClientInfo_size" "Vec_jute ClientInfo_jute"
    "Vec_deserialize B (ClientInfo_deserialize B)"
  by (rule Vec_record) (rule ClientInfo.jute_record_axioms)

context bytes_laws
begin

lemmas ClientInfos_read [codec] = Vec_read [OF ClientInfo.jute_record_axioms]

end

section \<open>All of them\<close>

context bytes_laws
begin

text \<open>The string reader on every input that has a length field.\<close>

lemma String_read_eq:
  assumes "n < 2 ^ 32"
  shows "String_deserialize B (be_bytes 4 n @ bs) =
    (if 2 ^ 31 \<le> n then Inl (Panic CapacityOverflow)
     else if length bs < n then Inl (Panic BufUnderflow)
     else if utf8 (take n bs) then Inr (take n bs, drop n bs)
     else Inl (Err InvalidString))"
proof -
  define w :: i32 where "w = word_of_nat n"
  have w: "unat w = n" using assms by (simp add: w_def unat_of_nat)
  have read: "get_i32 B (be_bytes 4 n @ bs) = (Inr (w, bs) :: (i32 \<times> bytes, ZkError) result)"
    using get_i32_be [of w bs] w by simp
  show ?thesis
  proof (cases "2 ^ 31 \<le> n")
    case True
    then show ?thesis
      using capacity_overflow_i32 [of w] w
      by (simp add: String_deserialize_def bind_def read Let_def)
  next
    case False
    then have "i32_as_usize w = n" "\<not> capacity_overflow n"
      using capacity_overflow_i32 [of w] i32_as_usize_nonneg [of w] w by simp_all
    moreover have "copy_to_slice B n bs = (if length bs < n then Inl (Panic BufUnderflow)
        else Inr (take n bs, drop n bs) :: (bytes \<times> bytes, ZkError) result)"
      by (simp add: copy_to_slice_def may_panic_def copy_to_slice_law)
    ultimately show ?thesis
      using False by (simp add: String_deserialize_def bind_def read Let_def)
  qed
qed

lemma base_structs_hold:
  "jute_record (String_serialize_into B) String_size String_jute (String_deserialize B) \<and>
     jute_record (Bytes_serialize_into B) Bytes_size Bytes_jute (Bytes_deserialize B) \<and>
     jute_record (Vec_serialize_into B (String_serialize_into B)) (Vec_size String_size) (Vec_jute String_jute) (Vec_deserialize B (String_deserialize B)) \<and>
     jute_record (Id_serialize_into B) Id_size Id_jute (Id_deserialize B) \<and>
     jute_record (Vec_serialize_into B (Id_serialize_into B)) (Vec_size Id_size) (Vec_jute Id_jute) (Vec_deserialize B (Id_deserialize B)) \<and>
     jute_record (ACL_serialize_into B) ACL_size ACL_jute (ACL_deserialize B) \<and>
     jute_record (Vec_serialize_into B (ACL_serialize_into B)) (Vec_size ACL_size) (Vec_jute ACL_jute) (Vec_deserialize B (ACL_deserialize B)) \<and>
     jute_record (Stat_serialize_into B) Stat_size Stat_jute (Stat_deserialize B) \<and>
     jute_record (StatPersisted_serialize_into B) StatPersisted_size StatPersisted_jute (StatPersisted_deserialize B) \<and>
     jute_record (ClientInfo_serialize_into B) ClientInfo_size ClientInfo_jute (ClientInfo_deserialize B) \<and>
     jute_record (Vec_serialize_into B (ClientInfo_serialize_into B)) (Vec_size ClientInfo_size) (Vec_jute ClientInfo_jute) (Vec_deserialize B (ClientInfo_deserialize B))"
  by (intro conjI)
    (rule
    String.jute_record_axioms Bytes.jute_record_axioms Strings.jute_record_axioms
    Id.jute_record_axioms Ids.jute_record_axioms ACL.jute_record_axioms
    ACLs.jute_record_axioms Stat.jute_record_axioms StatPersisted.jute_record_axioms
    ClientInfo.jute_record_axioms ClientInfos.jute_record_axioms)+

end

end
