(* ===== verification/Proto_Session.thy ===== *)
theory Proto_Session
  imports Proto_Base
begin

text \<open>
  The session level structs of \<open>src/src/proto.rs\<close>: the connect handshake, the watch lists a
  client restores, the headers of requests, replies and transactions, and authentication.
  \<open>ConnectRequest\<close> and \<open>ConnectResponse\<close> do not meet the \<open>Deserialize\<close> half of the contract
  (their \<open>read_only\<close> byte); what their \<open>deserialize\<close> does is stated separately.
\<close>

section \<open>The read-only byte of the handshake\<close>

text \<open>
  Both handshake structs end with \<open>let read_only = if bytes.len() > 1 { bytes.get_u8() }
  else { 0 }\<close>.
\<close>

definition read_only_flag :: "bytes_crate \<Rightarrow> (u8, ZkError) deserializer" where
  "read_only_flag B bytes = (if 1 < length bytes then get_u8 B bytes else Ok 0 bytes)"

lemma read_only_flag_faults [faults]: "faults_in wire_fault (read_only_flag B)"
  using wire_read_faults(1) [of B] by (auto simp: faults_in_def read_only_flag_def)

context bytes_laws
begin

lemma read_only_flag_iff:
  "read_only_flag B bs = Inr (b, rest) \<longleftrightarrow>
    (if 1 < length bs then bs = b # rest else b = 0 \<and> rest = bs)"
  by (auto simp: read_only_flag_def codec)

end

section \<open>ConnectRequest\<close>

record ConnectRequest =
  protocol_version :: i32
  last_zxid_seen :: i64
  time_out :: i32
  session_id :: i64
  passwd :: bytes
  read_only :: u8

definition ConnectRequest_jute :: "ConnectRequest \<Rightarrow> jute" where
  "ConnectRequest_jute x = JRecord [JInt (protocol_version x), JLong (last_zxid_seen x),
     JInt (time_out x), JLong (session_id x), Bytes_jute (passwd x), JByte (read_only x)]"

definition ConnectRequest_serialize_into :: "bytes_crate \<Rightarrow> ConnectRequest \<Rightarrow> ZkError serializer" where
  "ConnectRequest_serialize_into B self =
     seq (put_i32 B (protocol_version self))
    (seq (put_i64 B (last_zxid_seen self))
    (seq (put_i32 B (time_out self))
    (seq (put_i64 B (session_id self))
    (seq (Bytes_serialize_into B (passwd self))
    (seq (put_u8 B (read_only self))
     finish)))))"

definition ConnectRequest_size :: "ConnectRequest \<Rightarrow> nat" where
  "ConnectRequest_size self = 4 + 8 + 4 + 8 + Bytes_size (passwd self) + 1"

definition ConnectRequest_deserialize :: "bytes_crate \<Rightarrow> (ConnectRequest, ZkError) deserializer" where
  "ConnectRequest_deserialize B =
     bind (get_i32 B) (\<lambda>protocol_version.
     bind (get_i64 B) (\<lambda>last_zxid_seen.
     bind (get_i32 B) (\<lambda>time_out.
     bind (get_i64 B) (\<lambda>session_id.
     bind (Bytes_deserialize B) (\<lambda>passwd.
     bind (read_only_flag B) (\<lambda>read_only.
     Ok \<lparr>protocol_version = protocol_version, last_zxid_seen = last_zxid_seen,
       time_out = time_out, session_id = session_id, passwd = passwd,
       read_only = read_only\<rparr>))))))"

sublocale bytes_laws \<subseteq> ConnectRequest: jute_serializer
    "ConnectRequest_serialize_into B" ConnectRequest_size ConnectRequest_jute
  by unfold_locales
    (simp_all add: codec ConnectRequest_jute_def ConnectRequest_serialize_into_def ConnectRequest_size_def)

text \<open>
  The part of the message before the \<open>read_only\<close> byte, which older peers leave out. The byte
  is read only when at least two bytes are left; otherwise it counts as 0 and a single left
  byte stays in the buffer.
\<close>

definition ConnectRequest_head :: "ConnectRequest \<Rightarrow> jute" where
  "ConnectRequest_head x = JRecord [JInt (protocol_version x), JLong (last_zxid_seen x), JInt (time_out x), JLong (session_id x), Bytes_jute (passwd x)]"

lemma ConnectRequest_jute_bytes:
  "jute_bytes (ConnectRequest_jute x) = jute_bytes (ConnectRequest_head x) @ [read_only x]"
  by (simp add: ConnectRequest_jute_def ConnectRequest_head_def)

lemma ConnectRequest_faults: "faults_in wire_fault (ConnectRequest_deserialize B)"
  unfolding ConnectRequest_deserialize_def by (intro faults)

context bytes_laws
begin

lemma ConnectRequest_read_iff:
  "ConnectRequest_deserialize B bs = Inr (x, rest) \<longleftrightarrow>
     jute_ok (ConnectRequest_head x) \<and>
     (\<exists>tail. bs = jute_bytes (ConnectRequest_head x) @ tail \<and>
       (if 1 < length tail then tail = read_only x # rest else read_only x = 0 \<and> rest = tail))"
  unfolding read_only_flag_iff [symmetric]
  by (auto simp: codec ConnectRequest_deserialize_def ConnectRequest_head_def bind_def
      split: sum.split_asm prod.split_asm)

end


section \<open>ConnectResponse\<close>

record ConnectResponse =
  protocol_version :: i32
  time_out :: i32
  session_id :: i64
  passwd :: bytes
  read_only :: u8

definition ConnectResponse_jute :: "ConnectResponse \<Rightarrow> jute" where
  "ConnectResponse_jute x = JRecord [JInt (protocol_version x), JInt (time_out x),
     JLong (session_id x), Bytes_jute (passwd x), JByte (read_only x)]"

definition ConnectResponse_serialize_into :: "bytes_crate \<Rightarrow> ConnectResponse \<Rightarrow> ZkError serializer" where
  "ConnectResponse_serialize_into B self =
     seq (put_i32 B (protocol_version self))
    (seq (put_i32 B (time_out self))
    (seq (put_i64 B (session_id self))
    (seq (Bytes_serialize_into B (passwd self))
    (seq (put_u8 B (read_only self))
     finish))))"

definition ConnectResponse_size :: "ConnectResponse \<Rightarrow> nat" where
  "ConnectResponse_size self = 4 + 4 + 8 + Bytes_size (passwd self) + 1"

definition ConnectResponse_deserialize :: "bytes_crate \<Rightarrow> (ConnectResponse, ZkError) deserializer" where
  "ConnectResponse_deserialize B =
     bind (get_i32 B) (\<lambda>protocol_version.
     bind (get_i32 B) (\<lambda>time_out.
     bind (get_i64 B) (\<lambda>session_id.
     bind (Bytes_deserialize B) (\<lambda>passwd.
     bind (read_only_flag B) (\<lambda>read_only.
     Ok \<lparr>protocol_version = protocol_version, time_out = time_out,
       session_id = session_id, passwd = passwd, read_only = read_only\<rparr>)))))"

sublocale bytes_laws \<subseteq> ConnectResponse: jute_serializer
    "ConnectResponse_serialize_into B" ConnectResponse_size ConnectResponse_jute
  by unfold_locales
    (simp_all add: codec ConnectResponse_jute_def ConnectResponse_serialize_into_def ConnectResponse_size_def)

text \<open>
  The part of the message before the \<open>read_only\<close> byte, which older peers leave out. The byte
  is read only when at least two bytes are left; otherwise it counts as 0 and a single left
  byte stays in the buffer.
\<close>

definition ConnectResponse_head :: "ConnectResponse \<Rightarrow> jute" where
  "ConnectResponse_head x = JRecord [JInt (protocol_version x), JInt (time_out x), JLong (session_id x), Bytes_jute (passwd x)]"

lemma ConnectResponse_jute_bytes:
  "jute_bytes (ConnectResponse_jute x) = jute_bytes (ConnectResponse_head x) @ [read_only x]"
  by (simp add: ConnectResponse_jute_def ConnectResponse_head_def)

lemma ConnectResponse_faults: "faults_in wire_fault (ConnectResponse_deserialize B)"
  unfolding ConnectResponse_deserialize_def by (intro faults)

context bytes_laws
begin

lemma ConnectResponse_read_iff:
  "ConnectResponse_deserialize B bs = Inr (x, rest) \<longleftrightarrow>
     jute_ok (ConnectResponse_head x) \<and>
     (\<exists>tail. bs = jute_bytes (ConnectResponse_head x) @ tail \<and>
       (if 1 < length tail then tail = read_only x # rest else read_only x = 0 \<and> rest = tail))"
  unfolding read_only_flag_iff [symmetric]
  by (auto simp: codec ConnectResponse_deserialize_def ConnectResponse_head_def bind_def
      split: sum.split_asm prod.split_asm)

end


section \<open>SetWatches\<close>

record SetWatches =
  relative_zxid :: i64
  data_watches :: "rust_string list"
  exist_watches :: "rust_string list"
  child_watches :: "rust_string list"

definition SetWatches_jute :: "SetWatches \<Rightarrow> jute" where
  "SetWatches_jute x = JRecord [JLong (relative_zxid x), Vec_jute String_jute (data_watches x),
     Vec_jute String_jute (exist_watches x), Vec_jute String_jute (child_watches x)]"

definition SetWatches_serialize_into :: "bytes_crate \<Rightarrow> SetWatches \<Rightarrow> ZkError serializer" where
  "SetWatches_serialize_into B self =
     seq (put_i64 B (relative_zxid self))
    (seq (Vec_serialize_into B (String_serialize_into B) (data_watches self))
    (seq (Vec_serialize_into B (String_serialize_into B) (exist_watches self))
    (seq (Vec_serialize_into B (String_serialize_into B) (child_watches self))
     finish)))"

definition SetWatches_size :: "SetWatches \<Rightarrow> nat" where
  "SetWatches_size self = 8 + Vec_size String_size (data_watches self) +
     Vec_size String_size (exist_watches self) + Vec_size String_size (child_watches self)"

definition SetWatches_deserialize :: "bytes_crate \<Rightarrow> (SetWatches, ZkError) deserializer" where
  "SetWatches_deserialize B =
     bind (get_i64 B) (\<lambda>relative_zxid.
     bind (Vec_deserialize B (String_deserialize B)) (\<lambda>data_watches.
     bind (Vec_deserialize B (String_deserialize B)) (\<lambda>exist_watches.
     bind (Vec_deserialize B (String_deserialize B)) (\<lambda>child_watches.
     Ok \<lparr>relative_zxid = relative_zxid, data_watches = data_watches,
       exist_watches = exist_watches, child_watches = child_watches\<rparr>))))"

sublocale bytes_laws \<subseteq> SetWatches: jute_record
    "SetWatches_serialize_into B" SetWatches_size SetWatches_jute "SetWatches_deserialize B"
  by (rule jute_recordI)
    (auto simp: codec SetWatches_jute_def SetWatches_serialize_into_def SetWatches_size_def SetWatches_deserialize_def
      bind_def intro!: faults split: sum.split_asm prod.split_asm)

section \<open>SetWatches2\<close>

record SetWatches2 =
  relative_zxid :: i64
  data_watches :: "rust_string list"
  exist_watches :: "rust_string list"
  child_watches :: "rust_string list"
  persistent_watches :: "rust_string list"
  persistent_recursive_watches :: "rust_string list"

definition SetWatches2_jute :: "SetWatches2 \<Rightarrow> jute" where
  "SetWatches2_jute x = JRecord [JLong (relative_zxid x), Vec_jute String_jute (data_watches x),
     Vec_jute String_jute (exist_watches x), Vec_jute String_jute (child_watches x),
     Vec_jute String_jute (persistent_watches x),
     Vec_jute String_jute (persistent_recursive_watches x)]"

definition SetWatches2_serialize_into :: "bytes_crate \<Rightarrow> SetWatches2 \<Rightarrow> ZkError serializer" where
  "SetWatches2_serialize_into B self =
     seq (put_i64 B (relative_zxid self))
    (seq (Vec_serialize_into B (String_serialize_into B) (data_watches self))
    (seq (Vec_serialize_into B (String_serialize_into B) (exist_watches self))
    (seq (Vec_serialize_into B (String_serialize_into B) (child_watches self))
    (seq (Vec_serialize_into B (String_serialize_into B) (persistent_watches self))
    (seq (Vec_serialize_into B (String_serialize_into B) (persistent_recursive_watches self))
     finish)))))"

definition SetWatches2_size :: "SetWatches2 \<Rightarrow> nat" where
  "SetWatches2_size self = 8 + Vec_size String_size (data_watches self) +
     Vec_size String_size (exist_watches self) + Vec_size String_size (child_watches self) +
     Vec_size String_size (persistent_watches self) +
     Vec_size String_size (persistent_recursive_watches self)"

definition SetWatches2_deserialize :: "bytes_crate \<Rightarrow> (SetWatches2, ZkError) deserializer" where
  "SetWatches2_deserialize B =
     bind (get_i64 B) (\<lambda>relative_zxid.
     bind (Vec_deserialize B (String_deserialize B)) (\<lambda>data_watches.
     bind (Vec_deserialize B (String_deserialize B)) (\<lambda>exist_watches.
     bind (Vec_deserialize B (String_deserialize B)) (\<lambda>child_watches.
     bind (Vec_deserialize B (String_deserialize B)) (\<lambda>persistent_watches.
     bind (Vec_deserialize B (String_deserialize B)) (\<lambda>persistent_recursive_watches.
     Ok \<lparr>relative_zxid = relative_zxid, data_watches = data_watches,
       exist_watches = exist_watches, child_watches = child_watches,
       persistent_watches = persistent_watches,
       persistent_recursive_watches = persistent_recursive_watches\<rparr>))))))"

sublocale bytes_laws \<subseteq> SetWatches2: jute_record
    "SetWatches2_serialize_into B" SetWatches2_size SetWatches2_jute "SetWatches2_deserialize B"
  by (rule jute_recordI)
    (auto simp: codec SetWatches2_jute_def SetWatches2_serialize_into_def SetWatches2_size_def SetWatches2_deserialize_def
      bind_def intro!: faults split: sum.split_asm prod.split_asm)

section \<open>RequestHeader\<close>

record RequestHeader =
  xid :: i32
  r_type :: i32

definition RequestHeader_jute :: "RequestHeader \<Rightarrow> jute" where
  "RequestHeader_jute x = JRecord [JInt (xid x), JInt (r_type x)]"

definition RequestHeader_serialize_into :: "bytes_crate \<Rightarrow> RequestHeader \<Rightarrow> ZkError serializer" where
  "RequestHeader_serialize_into B self =
     seq (put_i32 B (xid self))
    (seq (put_i32 B (r_type self))
     finish)"

definition RequestHeader_size :: "RequestHeader \<Rightarrow> nat" where
  "RequestHeader_size self = 4 + 4"

definition RequestHeader_deserialize :: "bytes_crate \<Rightarrow> (RequestHeader, ZkError) deserializer" where
  "RequestHeader_deserialize B =
     bind (get_i32 B) (\<lambda>xid.
     bind (get_i32 B) (\<lambda>r_type.
     Ok \<lparr>xid = xid, r_type = r_type\<rparr>))"

sublocale bytes_laws \<subseteq> RequestHeader: jute_record
    "RequestHeader_serialize_into B" RequestHeader_size RequestHeader_jute "RequestHeader_deserialize B"
  by (rule jute_recordI)
    (auto simp: codec RequestHeader_jute_def RequestHeader_serialize_into_def RequestHeader_size_def RequestHeader_deserialize_def
      bind_def intro!: faults split: sum.split_asm prod.split_asm)

section \<open>MultiHeader\<close>

record MultiHeader =
  r_type :: i32
  done_f :: u8
  err :: i32

definition MultiHeader_jute :: "MultiHeader \<Rightarrow> jute" where
  "MultiHeader_jute x = JRecord [JInt (r_type x), JByte (done_f x), JInt (err x)]"

definition MultiHeader_serialize_into :: "bytes_crate \<Rightarrow> MultiHeader \<Rightarrow> ZkError serializer" where
  "MultiHeader_serialize_into B self =
     seq (put_i32 B (r_type self))
    (seq (put_u8 B (done_f self))
    (seq (put_i32 B (err self))
     finish))"

definition MultiHeader_size :: "MultiHeader \<Rightarrow> nat" where
  "MultiHeader_size self = 4 + 1 + 4"

definition MultiHeader_deserialize :: "bytes_crate \<Rightarrow> (MultiHeader, ZkError) deserializer" where
  "MultiHeader_deserialize B =
     bind (get_i32 B) (\<lambda>r_type.
     bind (get_u8 B) (\<lambda>done_f.
     bind (get_i32 B) (\<lambda>err.
     Ok \<lparr>r_type = r_type, done_f = done_f, err = err\<rparr>)))"

sublocale bytes_laws \<subseteq> MultiHeader: jute_record
    "MultiHeader_serialize_into B" MultiHeader_size MultiHeader_jute "MultiHeader_deserialize B"
  by (rule jute_recordI)
    (auto simp: codec MultiHeader_jute_def MultiHeader_serialize_into_def MultiHeader_size_def MultiHeader_deserialize_def
      bind_def intro!: faults split: sum.split_asm prod.split_asm)

lemma MultiHeader_size_9: "jute_size (MultiHeader_jute h) = 9"
  by (simp add: MultiHeader_jute_def)

lemma MultiHeader_always_ok [simp]: "jute_ok (MultiHeader_jute h)"
  by (simp add: MultiHeader_jute_def)

section \<open>AuthPacket\<close>

record AuthPacket =
  r_type :: i32
  scheme :: rust_string
  auth :: bytes

definition AuthPacket_jute :: "AuthPacket \<Rightarrow> jute" where
  "AuthPacket_jute x = JRecord [JInt (r_type x), String_jute (scheme x), Bytes_jute (auth x)]"

definition AuthPacket_serialize_into :: "bytes_crate \<Rightarrow> AuthPacket \<Rightarrow> ZkError serializer" where
  "AuthPacket_serialize_into B self =
     seq (put_i32 B (r_type self))
    (seq (String_serialize_into B (scheme self))
    (seq (Bytes_serialize_into B (auth self))
     finish))"

definition AuthPacket_size :: "AuthPacket \<Rightarrow> nat" where
  "AuthPacket_size self = 4 + String_size (scheme self) + Bytes_size (auth self)"

definition AuthPacket_deserialize :: "bytes_crate \<Rightarrow> (AuthPacket, ZkError) deserializer" where
  "AuthPacket_deserialize B =
     bind (get_i32 B) (\<lambda>r_type.
     bind (String_deserialize B) (\<lambda>scheme.
     bind (Bytes_deserialize B) (\<lambda>auth.
     Ok \<lparr>r_type = r_type, scheme = scheme, auth = auth\<rparr>)))"

sublocale bytes_laws \<subseteq> AuthPacket: jute_record
    "AuthPacket_serialize_into B" AuthPacket_size AuthPacket_jute "AuthPacket_deserialize B"
  by (rule jute_recordI)
    (auto simp: codec AuthPacket_jute_def AuthPacket_serialize_into_def AuthPacket_size_def AuthPacket_deserialize_def
      bind_def intro!: faults split: sum.split_asm prod.split_asm)

section \<open>ReplyHeader\<close>

record ReplyHeader =
  xid :: i32
  zxid :: i64
  err :: i32

definition ReplyHeader_jute :: "ReplyHeader \<Rightarrow> jute" where
  "ReplyHeader_jute x = JRecord [JInt (xid x), JLong (zxid x), JInt (err x)]"

definition ReplyHeader_serialize_into :: "bytes_crate \<Rightarrow> ReplyHeader \<Rightarrow> ZkError serializer" where
  "ReplyHeader_serialize_into B self =
     seq (put_i32 B (xid self))
    (seq (put_i64 B (zxid self))
    (seq (put_i32 B (err self))
     finish))"

definition ReplyHeader_size :: "ReplyHeader \<Rightarrow> nat" where
  "ReplyHeader_size self = 4 + 8 + 4"

definition ReplyHeader_deserialize :: "bytes_crate \<Rightarrow> (ReplyHeader, ZkError) deserializer" where
  "ReplyHeader_deserialize B =
     bind (get_i32 B) (\<lambda>xid.
     bind (get_i64 B) (\<lambda>zxid.
     bind (get_i32 B) (\<lambda>err.
     Ok \<lparr>xid = xid, zxid = zxid, err = err\<rparr>)))"

sublocale bytes_laws \<subseteq> ReplyHeader: jute_record
    "ReplyHeader_serialize_into B" ReplyHeader_size ReplyHeader_jute "ReplyHeader_deserialize B"
  by (rule jute_recordI)
    (auto simp: codec ReplyHeader_jute_def ReplyHeader_serialize_into_def ReplyHeader_size_def ReplyHeader_deserialize_def
      bind_def intro!: faults split: sum.split_asm prod.split_asm)

section \<open>All of them\<close>

context bytes_laws
begin

lemmas ConnectRequest_written = ConnectRequest.ser_law
lemmas ConnectResponse_written = ConnectResponse.ser_law

lemma session_structs_hold:
  "jute_record (SetWatches_serialize_into B) SetWatches_size SetWatches_jute (SetWatches_deserialize B) \<and>
     jute_record (SetWatches2_serialize_into B) SetWatches2_size SetWatches2_jute (SetWatches2_deserialize B) \<and>
     jute_record (RequestHeader_serialize_into B) RequestHeader_size RequestHeader_jute (RequestHeader_deserialize B) \<and>
     jute_record (MultiHeader_serialize_into B) MultiHeader_size MultiHeader_jute (MultiHeader_deserialize B) \<and>
     jute_record (AuthPacket_serialize_into B) AuthPacket_size AuthPacket_jute (AuthPacket_deserialize B) \<and>
     jute_record (ReplyHeader_serialize_into B) ReplyHeader_size ReplyHeader_jute (ReplyHeader_deserialize B)"
  by (intro conjI)
    (rule
    SetWatches.jute_record_axioms SetWatches2.jute_record_axioms
    RequestHeader.jute_record_axioms MultiHeader.jute_record_axioms
    AuthPacket.jute_record_axioms ReplyHeader.jute_record_axioms)+

end

end
