(* ===== verification/Proto_Requests.thy ===== *)
theory Proto_Requests
  imports Proto_Base
begin

text \<open>
  The bodies of the client's requests in \<open>src/src/proto.rs\<close>, in the order of that file: for
  each the struct, its trait methods, its Jute view, and the proof of the contract.
\<close>

section \<open>GetDataRequest\<close>

record GetDataRequest =
  path :: rust_string
  watch :: u8

definition GetDataRequest_jute :: "GetDataRequest \<Rightarrow> jute" where
  "GetDataRequest_jute x = JRecord [String_jute (path x), JByte (watch x)]"

definition GetDataRequest_serialize_into :: "bytes_crate \<Rightarrow> GetDataRequest \<Rightarrow> ZkError serializer" where
  "GetDataRequest_serialize_into B self =
     seq (String_serialize_into B (path self))
    (seq (put_u8 B (watch self))
     finish)"

definition GetDataRequest_size :: "GetDataRequest \<Rightarrow> nat" where
  "GetDataRequest_size self = String_size (path self) + 1"

definition GetDataRequest_deserialize :: "bytes_crate \<Rightarrow> (GetDataRequest, ZkError) deserializer" where
  "GetDataRequest_deserialize B =
     bind (String_deserialize B) (\<lambda>path.
     bind (get_u8 B) (\<lambda>watch.
     Ok \<lparr>path = path, watch = watch\<rparr>))"

sublocale bytes_laws \<subseteq> GetDataRequest: jute_record
    "GetDataRequest_serialize_into B" GetDataRequest_size GetDataRequest_jute "GetDataRequest_deserialize B"
  by (rule jute_recordI)
    (auto simp: codec GetDataRequest_jute_def GetDataRequest_serialize_into_def GetDataRequest_size_def GetDataRequest_deserialize_def
      bind_def intro!: faults split: sum.split_asm prod.split_asm)

section \<open>SetDataRequest\<close>

record SetDataRequest =
  path :: rust_string
  data :: bytes
  version :: i32

definition SetDataRequest_jute :: "SetDataRequest \<Rightarrow> jute" where
  "SetDataRequest_jute x = JRecord [String_jute (path x), Bytes_jute (data x), JInt (version x)]"

definition SetDataRequest_serialize_into :: "bytes_crate \<Rightarrow> SetDataRequest \<Rightarrow> ZkError serializer" where
  "SetDataRequest_serialize_into B self =
     seq (String_serialize_into B (path self))
    (seq (Bytes_serialize_into B (data self))
    (seq (put_i32 B (version self))
     finish))"

definition SetDataRequest_size :: "SetDataRequest \<Rightarrow> nat" where
  "SetDataRequest_size self = String_size (path self) + Bytes_size (data self) + 4"

definition SetDataRequest_deserialize :: "bytes_crate \<Rightarrow> (SetDataRequest, ZkError) deserializer" where
  "SetDataRequest_deserialize B =
     bind (String_deserialize B) (\<lambda>path.
     bind (Bytes_deserialize B) (\<lambda>data.
     bind (get_i32 B) (\<lambda>version.
     Ok \<lparr>path = path, data = data, version = version\<rparr>)))"

sublocale bytes_laws \<subseteq> SetDataRequest: jute_record
    "SetDataRequest_serialize_into B" SetDataRequest_size SetDataRequest_jute "SetDataRequest_deserialize B"
  by (rule jute_recordI)
    (auto simp: codec SetDataRequest_jute_def SetDataRequest_serialize_into_def SetDataRequest_size_def SetDataRequest_deserialize_def
      bind_def intro!: faults split: sum.split_asm prod.split_asm)

section \<open>ReconfigRequest\<close>

record ReconfigRequest =
  joining_servers :: rust_string
  leaving_servers :: rust_string
  new_members :: rust_string
  cur_config_id :: i64

definition ReconfigRequest_jute :: "ReconfigRequest \<Rightarrow> jute" where
  "ReconfigRequest_jute x = JRecord [String_jute (joining_servers x),
     String_jute (leaving_servers x), String_jute (new_members x), JLong (cur_config_id x)]"

definition ReconfigRequest_serialize_into :: "bytes_crate \<Rightarrow> ReconfigRequest \<Rightarrow> ZkError serializer" where
  "ReconfigRequest_serialize_into B self =
     seq (String_serialize_into B (joining_servers self))
    (seq (String_serialize_into B (leaving_servers self))
    (seq (String_serialize_into B (new_members self))
    (seq (put_i64 B (cur_config_id self))
     finish)))"

definition ReconfigRequest_size :: "ReconfigRequest \<Rightarrow> nat" where
  "ReconfigRequest_size self = String_size (joining_servers self) +
     String_size (leaving_servers self) + String_size (new_members self) + 8"

definition ReconfigRequest_deserialize :: "bytes_crate \<Rightarrow> (ReconfigRequest, ZkError) deserializer" where
  "ReconfigRequest_deserialize B =
     bind (String_deserialize B) (\<lambda>joining_servers.
     bind (String_deserialize B) (\<lambda>leaving_servers.
     bind (String_deserialize B) (\<lambda>new_members.
     bind (get_i64 B) (\<lambda>cur_config_id.
     Ok \<lparr>joining_servers = joining_servers, leaving_servers = leaving_servers,
       new_members = new_members, cur_config_id = cur_config_id\<rparr>))))"

sublocale bytes_laws \<subseteq> ReconfigRequest: jute_record
    "ReconfigRequest_serialize_into B" ReconfigRequest_size ReconfigRequest_jute "ReconfigRequest_deserialize B"
  by (rule jute_recordI)
    (auto simp: codec ReconfigRequest_jute_def ReconfigRequest_serialize_into_def ReconfigRequest_size_def ReconfigRequest_deserialize_def
      bind_def intro!: faults split: sum.split_asm prod.split_asm)

section \<open>GetSASLRequest\<close>

record GetSASLRequest =
  token :: bytes

definition GetSASLRequest_jute :: "GetSASLRequest \<Rightarrow> jute" where
  "GetSASLRequest_jute x = JRecord [Bytes_jute (token x)]"

definition GetSASLRequest_serialize_into :: "bytes_crate \<Rightarrow> GetSASLRequest \<Rightarrow> ZkError serializer" where
  "GetSASLRequest_serialize_into B self =
     seq (Bytes_serialize_into B (token self))
     finish"

definition GetSASLRequest_size :: "GetSASLRequest \<Rightarrow> nat" where
  "GetSASLRequest_size self = Bytes_size (token self)"

definition GetSASLRequest_deserialize :: "bytes_crate \<Rightarrow> (GetSASLRequest, ZkError) deserializer" where
  "GetSASLRequest_deserialize B =
     bind (Bytes_deserialize B) (\<lambda>token.
     Ok \<lparr>token = token\<rparr>)"

sublocale bytes_laws \<subseteq> GetSASLRequest: jute_record
    "GetSASLRequest_serialize_into B" GetSASLRequest_size GetSASLRequest_jute "GetSASLRequest_deserialize B"
  by (rule jute_recordI)
    (auto simp: codec GetSASLRequest_jute_def GetSASLRequest_serialize_into_def GetSASLRequest_size_def GetSASLRequest_deserialize_def
      bind_def intro!: faults split: sum.split_asm prod.split_asm)

section \<open>SetSASLRequest\<close>

record SetSASLRequest =
  token :: bytes

definition SetSASLRequest_jute :: "SetSASLRequest \<Rightarrow> jute" where
  "SetSASLRequest_jute x = JRecord [Bytes_jute (token x)]"

definition SetSASLRequest_serialize_into :: "bytes_crate \<Rightarrow> SetSASLRequest \<Rightarrow> ZkError serializer" where
  "SetSASLRequest_serialize_into B self =
     seq (Bytes_serialize_into B (token self))
     finish"

definition SetSASLRequest_size :: "SetSASLRequest \<Rightarrow> nat" where
  "SetSASLRequest_size self = Bytes_size (token self)"

definition SetSASLRequest_deserialize :: "bytes_crate \<Rightarrow> (SetSASLRequest, ZkError) deserializer" where
  "SetSASLRequest_deserialize B =
     bind (Bytes_deserialize B) (\<lambda>token.
     Ok \<lparr>token = token\<rparr>)"

sublocale bytes_laws \<subseteq> SetSASLRequest: jute_record
    "SetSASLRequest_serialize_into B" SetSASLRequest_size SetSASLRequest_jute "SetSASLRequest_deserialize B"
  by (rule jute_recordI)
    (auto simp: codec SetSASLRequest_jute_def SetSASLRequest_serialize_into_def SetSASLRequest_size_def SetSASLRequest_deserialize_def
      bind_def intro!: faults split: sum.split_asm prod.split_asm)

section \<open>CreateRequest\<close>

record CreateRequest =
  path :: rust_string
  data :: bytes
  acl :: "ACL list"
  flags :: i32

definition CreateRequest_jute :: "CreateRequest \<Rightarrow> jute" where
  "CreateRequest_jute x = JRecord [String_jute (path x), Bytes_jute (data x),
     Vec_jute ACL_jute (acl x), JInt (flags x)]"

definition CreateRequest_serialize_into :: "bytes_crate \<Rightarrow> CreateRequest \<Rightarrow> ZkError serializer" where
  "CreateRequest_serialize_into B self =
     seq (String_serialize_into B (path self))
    (seq (Bytes_serialize_into B (data self))
    (seq (put_i32 B (usize_as_i32 (length (acl self))))
    (seq (for_each (ACL_serialize_into B) (acl self))
    (seq (put_i32 B (flags self))
     finish))))"

definition CreateRequest_size :: "CreateRequest \<Rightarrow> nat" where
  "CreateRequest_size self = String_size (path self) + Bytes_size (data self) +
     Vec_size ACL_size (acl self) + 4"

definition CreateRequest_deserialize :: "bytes_crate \<Rightarrow> (CreateRequest, ZkError) deserializer" where
  "CreateRequest_deserialize B =
     bind (String_deserialize B) (\<lambda>path.
     bind (Bytes_deserialize B) (\<lambda>data.
     bind (Vec_deserialize B (ACL_deserialize B)) (\<lambda>acl.
     bind (get_i32 B) (\<lambda>flags.
     Ok \<lparr>path = path, data = data, acl = acl, flags = flags\<rparr>))))"

sublocale bytes_laws \<subseteq> CreateRequest: jute_record
    "CreateRequest_serialize_into B" CreateRequest_size CreateRequest_jute "CreateRequest_deserialize B"
  by (rule jute_recordI)
    (auto simp: codec CreateRequest_jute_def CreateRequest_serialize_into_def CreateRequest_size_def CreateRequest_deserialize_def
      bind_def intro!: faults split: sum.split_asm prod.split_asm)

section \<open>CreateTTLRequest\<close>

record CreateTTLRequest =
  path :: rust_string
  data :: bytes
  acl :: "ACL list"
  flags :: i32
  ttl :: i64

definition CreateTTLRequest_jute :: "CreateTTLRequest \<Rightarrow> jute" where
  "CreateTTLRequest_jute x = JRecord [String_jute (path x), Bytes_jute (data x),
     Vec_jute ACL_jute (acl x), JInt (flags x), JLong (ttl x)]"

definition CreateTTLRequest_serialize_into :: "bytes_crate \<Rightarrow> CreateTTLRequest \<Rightarrow> ZkError serializer" where
  "CreateTTLRequest_serialize_into B self =
     seq (String_serialize_into B (path self))
    (seq (Bytes_serialize_into B (data self))
    (seq (put_i32 B (usize_as_i32 (length (acl self))))
    (seq (for_each (ACL_serialize_into B) (acl self))
    (seq (put_i32 B (flags self))
    (seq (put_i64 B (ttl self))
     finish)))))"

definition CreateTTLRequest_size :: "CreateTTLRequest \<Rightarrow> nat" where
  "CreateTTLRequest_size self = String_size (path self) + Bytes_size (data self) +
     Vec_size ACL_size (acl self) + 4 + 8"

definition CreateTTLRequest_deserialize :: "bytes_crate \<Rightarrow> (CreateTTLRequest, ZkError) deserializer" where
  "CreateTTLRequest_deserialize B =
     bind (String_deserialize B) (\<lambda>path.
     bind (Bytes_deserialize B) (\<lambda>data.
     bind (Vec_deserialize B (ACL_deserialize B)) (\<lambda>acl.
     bind (get_i32 B) (\<lambda>flags.
     bind (get_i64 B) (\<lambda>ttl.
     Ok \<lparr>path = path, data = data, acl = acl, flags = flags, ttl = ttl\<rparr>)))))"

sublocale bytes_laws \<subseteq> CreateTTLRequest: jute_record
    "CreateTTLRequest_serialize_into B" CreateTTLRequest_size CreateTTLRequest_jute "CreateTTLRequest_deserialize B"
  by (rule jute_recordI)
    (auto simp: codec CreateTTLRequest_jute_def CreateTTLRequest_serialize_into_def CreateTTLRequest_size_def CreateTTLRequest_deserialize_def
      bind_def intro!: faults split: sum.split_asm prod.split_asm)

section \<open>DeleteRequest\<close>

record DeleteRequest =
  path :: rust_string
  version :: i32

definition DeleteRequest_jute :: "DeleteRequest \<Rightarrow> jute" where
  "DeleteRequest_jute x = JRecord [String_jute (path x), JInt (version x)]"

definition DeleteRequest_serialize_into :: "bytes_crate \<Rightarrow> DeleteRequest \<Rightarrow> ZkError serializer" where
  "DeleteRequest_serialize_into B self =
     seq (String_serialize_into B (path self))
    (seq (put_i32 B (version self))
     finish)"

definition DeleteRequest_size :: "DeleteRequest \<Rightarrow> nat" where
  "DeleteRequest_size self = String_size (path self) + 4"

definition DeleteRequest_deserialize :: "bytes_crate \<Rightarrow> (DeleteRequest, ZkError) deserializer" where
  "DeleteRequest_deserialize B =
     bind (String_deserialize B) (\<lambda>path.
     bind (get_i32 B) (\<lambda>version.
     Ok \<lparr>path = path, version = version\<rparr>))"

sublocale bytes_laws \<subseteq> DeleteRequest: jute_record
    "DeleteRequest_serialize_into B" DeleteRequest_size DeleteRequest_jute "DeleteRequest_deserialize B"
  by (rule jute_recordI)
    (auto simp: codec DeleteRequest_jute_def DeleteRequest_serialize_into_def DeleteRequest_size_def DeleteRequest_deserialize_def
      bind_def intro!: faults split: sum.split_asm prod.split_asm)

section \<open>GetChildrenRequest\<close>

record GetChildrenRequest =
  path :: rust_string
  watch :: u8

definition GetChildrenRequest_jute :: "GetChildrenRequest \<Rightarrow> jute" where
  "GetChildrenRequest_jute x = JRecord [String_jute (path x), JByte (watch x)]"

definition GetChildrenRequest_serialize_into :: "bytes_crate \<Rightarrow> GetChildrenRequest \<Rightarrow> ZkError serializer" where
  "GetChildrenRequest_serialize_into B self =
     seq (String_serialize_into B (path self))
    (seq (put_u8 B (watch self))
     finish)"

definition GetChildrenRequest_size :: "GetChildrenRequest \<Rightarrow> nat" where
  "GetChildrenRequest_size self = String_size (path self) + 1"

definition GetChildrenRequest_deserialize :: "bytes_crate \<Rightarrow> (GetChildrenRequest, ZkError) deserializer" where
  "GetChildrenRequest_deserialize B =
     bind (String_deserialize B) (\<lambda>path.
     bind (get_u8 B) (\<lambda>watch.
     Ok \<lparr>path = path, watch = watch\<rparr>))"

sublocale bytes_laws \<subseteq> GetChildrenRequest: jute_record
    "GetChildrenRequest_serialize_into B" GetChildrenRequest_size GetChildrenRequest_jute "GetChildrenRequest_deserialize B"
  by (rule jute_recordI)
    (auto simp: codec GetChildrenRequest_jute_def GetChildrenRequest_serialize_into_def GetChildrenRequest_size_def GetChildrenRequest_deserialize_def
      bind_def intro!: faults split: sum.split_asm prod.split_asm)

section \<open>GetAllChildrenNumberRequest\<close>

record GetAllChildrenNumberRequest =
  path :: rust_string

definition GetAllChildrenNumberRequest_jute :: "GetAllChildrenNumberRequest \<Rightarrow> jute" where
  "GetAllChildrenNumberRequest_jute x = JRecord [String_jute (path x)]"

definition GetAllChildrenNumberRequest_serialize_into :: "bytes_crate \<Rightarrow> GetAllChildrenNumberRequest \<Rightarrow> ZkError serializer" where
  "GetAllChildrenNumberRequest_serialize_into B self =
     seq (String_serialize_into B (path self))
     finish"

definition GetAllChildrenNumberRequest_size :: "GetAllChildrenNumberRequest \<Rightarrow> nat" where
  "GetAllChildrenNumberRequest_size self = String_size (path self)"

definition GetAllChildrenNumberRequest_deserialize :: "bytes_crate \<Rightarrow> (GetAllChildrenNumberRequest, ZkError) deserializer" where
  "GetAllChildrenNumberRequest_deserialize B =
     bind (String_deserialize B) (\<lambda>path.
     Ok \<lparr>path = path\<rparr>)"

sublocale bytes_laws \<subseteq> GetAllChildrenNumberRequest: jute_record
    "GetAllChildrenNumberRequest_serialize_into B" GetAllChildrenNumberRequest_size GetAllChildrenNumberRequest_jute "GetAllChildrenNumberRequest_deserialize B"
  by (rule jute_recordI)
    (auto simp: codec GetAllChildrenNumberRequest_jute_def GetAllChildrenNumberRequest_serialize_into_def GetAllChildrenNumberRequest_size_def GetAllChildrenNumberRequest_deserialize_def
      bind_def intro!: faults split: sum.split_asm prod.split_asm)

section \<open>GetChildren2Request\<close>

record GetChildren2Request =
  path :: rust_string
  watch :: u8

definition GetChildren2Request_jute :: "GetChildren2Request \<Rightarrow> jute" where
  "GetChildren2Request_jute x = JRecord [String_jute (path x), JByte (watch x)]"

definition GetChildren2Request_serialize_into :: "bytes_crate \<Rightarrow> GetChildren2Request \<Rightarrow> ZkError serializer" where
  "GetChildren2Request_serialize_into B self =
     seq (String_serialize_into B (path self))
    (seq (put_u8 B (watch self))
     finish)"

definition GetChildren2Request_size :: "GetChildren2Request \<Rightarrow> nat" where
  "GetChildren2Request_size self = String_size (path self) + 1"

definition GetChildren2Request_deserialize :: "bytes_crate \<Rightarrow> (GetChildren2Request, ZkError) deserializer" where
  "GetChildren2Request_deserialize B =
     bind (String_deserialize B) (\<lambda>path.
     bind (get_u8 B) (\<lambda>watch.
     Ok \<lparr>path = path, watch = watch\<rparr>))"

sublocale bytes_laws \<subseteq> GetChildren2Request: jute_record
    "GetChildren2Request_serialize_into B" GetChildren2Request_size GetChildren2Request_jute "GetChildren2Request_deserialize B"
  by (rule jute_recordI)
    (auto simp: codec GetChildren2Request_jute_def GetChildren2Request_serialize_into_def GetChildren2Request_size_def GetChildren2Request_deserialize_def
      bind_def intro!: faults split: sum.split_asm prod.split_asm)

section \<open>CheckVersionRequest\<close>

record CheckVersionRequest =
  path :: rust_string
  version :: i32

definition CheckVersionRequest_jute :: "CheckVersionRequest \<Rightarrow> jute" where
  "CheckVersionRequest_jute x = JRecord [String_jute (path x), JInt (version x)]"

definition CheckVersionRequest_serialize_into :: "bytes_crate \<Rightarrow> CheckVersionRequest \<Rightarrow> ZkError serializer" where
  "CheckVersionRequest_serialize_into B self =
     seq (String_serialize_into B (path self))
    (seq (put_i32 B (version self))
     finish)"

definition CheckVersionRequest_size :: "CheckVersionRequest \<Rightarrow> nat" where
  "CheckVersionRequest_size self = String_size (path self) + 4"

definition CheckVersionRequest_deserialize :: "bytes_crate \<Rightarrow> (CheckVersionRequest, ZkError) deserializer" where
  "CheckVersionRequest_deserialize B =
     bind (String_deserialize B) (\<lambda>path.
     bind (get_i32 B) (\<lambda>version.
     Ok \<lparr>path = path, version = version\<rparr>))"

sublocale bytes_laws \<subseteq> CheckVersionRequest: jute_record
    "CheckVersionRequest_serialize_into B" CheckVersionRequest_size CheckVersionRequest_jute "CheckVersionRequest_deserialize B"
  by (rule jute_recordI)
    (auto simp: codec CheckVersionRequest_jute_def CheckVersionRequest_serialize_into_def CheckVersionRequest_size_def CheckVersionRequest_deserialize_def
      bind_def intro!: faults split: sum.split_asm prod.split_asm)

section \<open>GetMaxChildrenRequest\<close>

record GetMaxChildrenRequest =
  path :: rust_string

definition GetMaxChildrenRequest_jute :: "GetMaxChildrenRequest \<Rightarrow> jute" where
  "GetMaxChildrenRequest_jute x = JRecord [String_jute (path x)]"

definition GetMaxChildrenRequest_serialize_into :: "bytes_crate \<Rightarrow> GetMaxChildrenRequest \<Rightarrow> ZkError serializer" where
  "GetMaxChildrenRequest_serialize_into B self =
     seq (String_serialize_into B (path self))
     finish"

definition GetMaxChildrenRequest_size :: "GetMaxChildrenRequest \<Rightarrow> nat" where
  "GetMaxChildrenRequest_size self = String_size (path self)"

definition GetMaxChildrenRequest_deserialize :: "bytes_crate \<Rightarrow> (GetMaxChildrenRequest, ZkError) deserializer" where
  "GetMaxChildrenRequest_deserialize B =
     bind (String_deserialize B) (\<lambda>path.
     Ok \<lparr>path = path\<rparr>)"

sublocale bytes_laws \<subseteq> GetMaxChildrenRequest: jute_record
    "GetMaxChildrenRequest_serialize_into B" GetMaxChildrenRequest_size GetMaxChildrenRequest_jute "GetMaxChildrenRequest_deserialize B"
  by (rule jute_recordI)
    (auto simp: codec GetMaxChildrenRequest_jute_def GetMaxChildrenRequest_serialize_into_def GetMaxChildrenRequest_size_def GetMaxChildrenRequest_deserialize_def
      bind_def intro!: faults split: sum.split_asm prod.split_asm)

section \<open>SetMaxChildrenRequest\<close>

record SetMaxChildrenRequest =
  path :: rust_string
  max_f :: i32

definition SetMaxChildrenRequest_jute :: "SetMaxChildrenRequest \<Rightarrow> jute" where
  "SetMaxChildrenRequest_jute x = JRecord [String_jute (path x), JInt (max_f x)]"

definition SetMaxChildrenRequest_serialize_into :: "bytes_crate \<Rightarrow> SetMaxChildrenRequest \<Rightarrow> ZkError serializer" where
  "SetMaxChildrenRequest_serialize_into B self =
     seq (String_serialize_into B (path self))
    (seq (put_i32 B (max_f self))
     finish)"

definition SetMaxChildrenRequest_size :: "SetMaxChildrenRequest \<Rightarrow> nat" where
  "SetMaxChildrenRequest_size self = String_size (path self) + 4"

definition SetMaxChildrenRequest_deserialize :: "bytes_crate \<Rightarrow> (SetMaxChildrenRequest, ZkError) deserializer" where
  "SetMaxChildrenRequest_deserialize B =
     bind (String_deserialize B) (\<lambda>path.
     bind (get_i32 B) (\<lambda>max_f.
     Ok \<lparr>path = path, max_f = max_f\<rparr>))"

sublocale bytes_laws \<subseteq> SetMaxChildrenRequest: jute_record
    "SetMaxChildrenRequest_serialize_into B" SetMaxChildrenRequest_size SetMaxChildrenRequest_jute "SetMaxChildrenRequest_deserialize B"
  by (rule jute_recordI)
    (auto simp: codec SetMaxChildrenRequest_jute_def SetMaxChildrenRequest_serialize_into_def SetMaxChildrenRequest_size_def SetMaxChildrenRequest_deserialize_def
      bind_def intro!: faults split: sum.split_asm prod.split_asm)

section \<open>SyncRequest\<close>

record SyncRequest =
  path :: rust_string

definition SyncRequest_jute :: "SyncRequest \<Rightarrow> jute" where
  "SyncRequest_jute x = JRecord [String_jute (path x)]"

definition SyncRequest_serialize_into :: "bytes_crate \<Rightarrow> SyncRequest \<Rightarrow> ZkError serializer" where
  "SyncRequest_serialize_into B self =
     seq (String_serialize_into B (path self))
     finish"

definition SyncRequest_size :: "SyncRequest \<Rightarrow> nat" where
  "SyncRequest_size self = String_size (path self)"

definition SyncRequest_deserialize :: "bytes_crate \<Rightarrow> (SyncRequest, ZkError) deserializer" where
  "SyncRequest_deserialize B =
     bind (String_deserialize B) (\<lambda>path.
     Ok \<lparr>path = path\<rparr>)"

sublocale bytes_laws \<subseteq> SyncRequest: jute_record
    "SyncRequest_serialize_into B" SyncRequest_size SyncRequest_jute "SyncRequest_deserialize B"
  by (rule jute_recordI)
    (auto simp: codec SyncRequest_jute_def SyncRequest_serialize_into_def SyncRequest_size_def SyncRequest_deserialize_def
      bind_def intro!: faults split: sum.split_asm prod.split_asm)

section \<open>GetACLRequest\<close>

record GetACLRequest =
  path :: rust_string

definition GetACLRequest_jute :: "GetACLRequest \<Rightarrow> jute" where
  "GetACLRequest_jute x = JRecord [String_jute (path x)]"

definition GetACLRequest_serialize_into :: "bytes_crate \<Rightarrow> GetACLRequest \<Rightarrow> ZkError serializer" where
  "GetACLRequest_serialize_into B self =
     seq (String_serialize_into B (path self))
     finish"

definition GetACLRequest_size :: "GetACLRequest \<Rightarrow> nat" where
  "GetACLRequest_size self = String_size (path self)"

definition GetACLRequest_deserialize :: "bytes_crate \<Rightarrow> (GetACLRequest, ZkError) deserializer" where
  "GetACLRequest_deserialize B =
     bind (String_deserialize B) (\<lambda>path.
     Ok \<lparr>path = path\<rparr>)"

sublocale bytes_laws \<subseteq> GetACLRequest: jute_record
    "GetACLRequest_serialize_into B" GetACLRequest_size GetACLRequest_jute "GetACLRequest_deserialize B"
  by (rule jute_recordI)
    (auto simp: codec GetACLRequest_jute_def GetACLRequest_serialize_into_def GetACLRequest_size_def GetACLRequest_deserialize_def
      bind_def intro!: faults split: sum.split_asm prod.split_asm)

section \<open>SetACLRequest\<close>

record SetACLRequest =
  path :: rust_string
  acl :: "ACL list"
  version :: i32

definition SetACLRequest_jute :: "SetACLRequest \<Rightarrow> jute" where
  "SetACLRequest_jute x = JRecord [String_jute (path x), Vec_jute ACL_jute (acl x),
     JInt (version x)]"

definition SetACLRequest_serialize_into :: "bytes_crate \<Rightarrow> SetACLRequest \<Rightarrow> ZkError serializer" where
  "SetACLRequest_serialize_into B self =
     seq (String_serialize_into B (path self))
    (seq (put_i32 B (usize_as_i32 (length (acl self))))
    (seq (for_each (ACL_serialize_into B) (acl self))
    (seq (put_i32 B (version self))
     finish)))"

definition SetACLRequest_size :: "SetACLRequest \<Rightarrow> nat" where
  "SetACLRequest_size self = String_size (path self) + Vec_size ACL_size (acl self) + 4"

definition SetACLRequest_deserialize :: "bytes_crate \<Rightarrow> (SetACLRequest, ZkError) deserializer" where
  "SetACLRequest_deserialize B =
     bind (String_deserialize B) (\<lambda>path.
     bind (Vec_deserialize B (ACL_deserialize B)) (\<lambda>acl.
     bind (get_i32 B) (\<lambda>version.
     Ok \<lparr>path = path, acl = acl, version = version\<rparr>)))"

sublocale bytes_laws \<subseteq> SetACLRequest: jute_record
    "SetACLRequest_serialize_into B" SetACLRequest_size SetACLRequest_jute "SetACLRequest_deserialize B"
  by (rule jute_recordI)
    (auto simp: codec SetACLRequest_jute_def SetACLRequest_serialize_into_def SetACLRequest_size_def SetACLRequest_deserialize_def
      bind_def intro!: faults split: sum.split_asm prod.split_asm)

section \<open>AddWatchRequest\<close>

record AddWatchRequest =
  path :: rust_string
  mode :: i32

definition AddWatchRequest_jute :: "AddWatchRequest \<Rightarrow> jute" where
  "AddWatchRequest_jute x = JRecord [String_jute (path x), JInt (mode x)]"

definition AddWatchRequest_serialize_into :: "bytes_crate \<Rightarrow> AddWatchRequest \<Rightarrow> ZkError serializer" where
  "AddWatchRequest_serialize_into B self =
     seq (String_serialize_into B (path self))
    (seq (put_i32 B (mode self))
     finish)"

definition AddWatchRequest_size :: "AddWatchRequest \<Rightarrow> nat" where
  "AddWatchRequest_size self = String_size (path self) + 4"

definition AddWatchRequest_deserialize :: "bytes_crate \<Rightarrow> (AddWatchRequest, ZkError) deserializer" where
  "AddWatchRequest_deserialize B =
     bind (String_deserialize B) (\<lambda>path.
     bind (get_i32 B) (\<lambda>mode.
     Ok \<lparr>path = path, mode = mode\<rparr>))"

sublocale bytes_laws \<subseteq> AddWatchRequest: jute_record
    "AddWatchRequest_serialize_into B" AddWatchRequest_size AddWatchRequest_jute "AddWatchRequest_deserialize B"
  by (rule jute_recordI)
    (auto simp: codec AddWatchRequest_jute_def AddWatchRequest_serialize_into_def AddWatchRequest_size_def AddWatchRequest_deserialize_def
      bind_def intro!: faults split: sum.split_asm prod.split_asm)

section \<open>ExistsRequest\<close>

record ExistsRequest =
  path :: rust_string
  watch :: u8

definition ExistsRequest_jute :: "ExistsRequest \<Rightarrow> jute" where
  "ExistsRequest_jute x = JRecord [String_jute (path x), JByte (watch x)]"

definition ExistsRequest_serialize_into :: "bytes_crate \<Rightarrow> ExistsRequest \<Rightarrow> ZkError serializer" where
  "ExistsRequest_serialize_into B self =
     seq (String_serialize_into B (path self))
    (seq (put_u8 B (watch self))
     finish)"

definition ExistsRequest_size :: "ExistsRequest \<Rightarrow> nat" where
  "ExistsRequest_size self = String_size (path self) + 1"

definition ExistsRequest_deserialize :: "bytes_crate \<Rightarrow> (ExistsRequest, ZkError) deserializer" where
  "ExistsRequest_deserialize B =
     bind (String_deserialize B) (\<lambda>path.
     bind (get_u8 B) (\<lambda>watch.
     Ok \<lparr>path = path, watch = watch\<rparr>))"

sublocale bytes_laws \<subseteq> ExistsRequest: jute_record
    "ExistsRequest_serialize_into B" ExistsRequest_size ExistsRequest_jute "ExistsRequest_deserialize B"
  by (rule jute_recordI)
    (auto simp: codec ExistsRequest_jute_def ExistsRequest_serialize_into_def ExistsRequest_size_def ExistsRequest_deserialize_def
      bind_def intro!: faults split: sum.split_asm prod.split_asm)

section \<open>CheckWatchesRequest\<close>

record CheckWatchesRequest =
  path :: rust_string
  r_type :: i32

definition CheckWatchesRequest_jute :: "CheckWatchesRequest \<Rightarrow> jute" where
  "CheckWatchesRequest_jute x = JRecord [String_jute (path x), JInt (r_type x)]"

definition CheckWatchesRequest_serialize_into :: "bytes_crate \<Rightarrow> CheckWatchesRequest \<Rightarrow> ZkError serializer" where
  "CheckWatchesRequest_serialize_into B self =
     seq (String_serialize_into B (path self))
    (seq (put_i32 B (r_type self))
     finish)"

definition CheckWatchesRequest_size :: "CheckWatchesRequest \<Rightarrow> nat" where
  "CheckWatchesRequest_size self = String_size (path self) + 4"

definition CheckWatchesRequest_deserialize :: "bytes_crate \<Rightarrow> (CheckWatchesRequest, ZkError) deserializer" where
  "CheckWatchesRequest_deserialize B =
     bind (String_deserialize B) (\<lambda>path.
     bind (get_i32 B) (\<lambda>r_type.
     Ok \<lparr>path = path, r_type = r_type\<rparr>))"

sublocale bytes_laws \<subseteq> CheckWatchesRequest: jute_record
    "CheckWatchesRequest_serialize_into B" CheckWatchesRequest_size CheckWatchesRequest_jute "CheckWatchesRequest_deserialize B"
  by (rule jute_recordI)
    (auto simp: codec CheckWatchesRequest_jute_def CheckWatchesRequest_serialize_into_def CheckWatchesRequest_size_def CheckWatchesRequest_deserialize_def
      bind_def intro!: faults split: sum.split_asm prod.split_asm)

section \<open>RemoveWatchesRequest\<close>

record RemoveWatchesRequest =
  path :: rust_string
  r_type :: i32

definition RemoveWatchesRequest_jute :: "RemoveWatchesRequest \<Rightarrow> jute" where
  "RemoveWatchesRequest_jute x = JRecord [String_jute (path x), JInt (r_type x)]"

definition RemoveWatchesRequest_serialize_into :: "bytes_crate \<Rightarrow> RemoveWatchesRequest \<Rightarrow> ZkError serializer" where
  "RemoveWatchesRequest_serialize_into B self =
     seq (String_serialize_into B (path self))
    (seq (put_i32 B (r_type self))
     finish)"

definition RemoveWatchesRequest_size :: "RemoveWatchesRequest \<Rightarrow> nat" where
  "RemoveWatchesRequest_size self = String_size (path self) + 4"

definition RemoveWatchesRequest_deserialize :: "bytes_crate \<Rightarrow> (RemoveWatchesRequest, ZkError) deserializer" where
  "RemoveWatchesRequest_deserialize B =
     bind (String_deserialize B) (\<lambda>path.
     bind (get_i32 B) (\<lambda>r_type.
     Ok \<lparr>path = path, r_type = r_type\<rparr>))"

sublocale bytes_laws \<subseteq> RemoveWatchesRequest: jute_record
    "RemoveWatchesRequest_serialize_into B" RemoveWatchesRequest_size RemoveWatchesRequest_jute "RemoveWatchesRequest_deserialize B"
  by (rule jute_recordI)
    (auto simp: codec RemoveWatchesRequest_jute_def RemoveWatchesRequest_serialize_into_def RemoveWatchesRequest_size_def RemoveWatchesRequest_deserialize_def
      bind_def intro!: faults split: sum.split_asm prod.split_asm)

section \<open>GetEphemeralsRequest\<close>

record GetEphemeralsRequest =
  prefix_path :: rust_string

definition GetEphemeralsRequest_jute :: "GetEphemeralsRequest \<Rightarrow> jute" where
  "GetEphemeralsRequest_jute x = JRecord [String_jute (prefix_path x)]"

definition GetEphemeralsRequest_serialize_into :: "bytes_crate \<Rightarrow> GetEphemeralsRequest \<Rightarrow> ZkError serializer" where
  "GetEphemeralsRequest_serialize_into B self =
     seq (String_serialize_into B (prefix_path self))
     finish"

definition GetEphemeralsRequest_size :: "GetEphemeralsRequest \<Rightarrow> nat" where
  "GetEphemeralsRequest_size self = String_size (prefix_path self)"

definition GetEphemeralsRequest_deserialize :: "bytes_crate \<Rightarrow> (GetEphemeralsRequest, ZkError) deserializer" where
  "GetEphemeralsRequest_deserialize B =
     bind (String_deserialize B) (\<lambda>prefix_path.
     Ok \<lparr>prefix_path = prefix_path\<rparr>)"

sublocale bytes_laws \<subseteq> GetEphemeralsRequest: jute_record
    "GetEphemeralsRequest_serialize_into B" GetEphemeralsRequest_size GetEphemeralsRequest_jute "GetEphemeralsRequest_deserialize B"
  by (rule jute_recordI)
    (auto simp: codec GetEphemeralsRequest_jute_def GetEphemeralsRequest_serialize_into_def GetEphemeralsRequest_size_def GetEphemeralsRequest_deserialize_def
      bind_def intro!: faults split: sum.split_asm prod.split_asm)

section \<open>All of them\<close>

context bytes_laws
begin

lemma request_structs_hold:
  "jute_record (GetDataRequest_serialize_into B) GetDataRequest_size GetDataRequest_jute (GetDataRequest_deserialize B) \<and>
     jute_record (SetDataRequest_serialize_into B) SetDataRequest_size SetDataRequest_jute (SetDataRequest_deserialize B) \<and>
     jute_record (ReconfigRequest_serialize_into B) ReconfigRequest_size ReconfigRequest_jute (ReconfigRequest_deserialize B) \<and>
     jute_record (GetSASLRequest_serialize_into B) GetSASLRequest_size GetSASLRequest_jute (GetSASLRequest_deserialize B) \<and>
     jute_record (SetSASLRequest_serialize_into B) SetSASLRequest_size SetSASLRequest_jute (SetSASLRequest_deserialize B) \<and>
     jute_record (CreateRequest_serialize_into B) CreateRequest_size CreateRequest_jute (CreateRequest_deserialize B) \<and>
     jute_record (CreateTTLRequest_serialize_into B) CreateTTLRequest_size CreateTTLRequest_jute (CreateTTLRequest_deserialize B) \<and>
     jute_record (DeleteRequest_serialize_into B) DeleteRequest_size DeleteRequest_jute (DeleteRequest_deserialize B) \<and>
     jute_record (GetChildrenRequest_serialize_into B) GetChildrenRequest_size GetChildrenRequest_jute (GetChildrenRequest_deserialize B) \<and>
     jute_record (GetAllChildrenNumberRequest_serialize_into B) GetAllChildrenNumberRequest_size GetAllChildrenNumberRequest_jute (GetAllChildrenNumberRequest_deserialize B) \<and>
     jute_record (GetChildren2Request_serialize_into B) GetChildren2Request_size GetChildren2Request_jute (GetChildren2Request_deserialize B) \<and>
     jute_record (CheckVersionRequest_serialize_into B) CheckVersionRequest_size CheckVersionRequest_jute (CheckVersionRequest_deserialize B) \<and>
     jute_record (GetMaxChildrenRequest_serialize_into B) GetMaxChildrenRequest_size GetMaxChildrenRequest_jute (GetMaxChildrenRequest_deserialize B) \<and>
     jute_record (SetMaxChildrenRequest_serialize_into B) SetMaxChildrenRequest_size SetMaxChildrenRequest_jute (SetMaxChildrenRequest_deserialize B) \<and>
     jute_record (SyncRequest_serialize_into B) SyncRequest_size SyncRequest_jute (SyncRequest_deserialize B) \<and>
     jute_record (GetACLRequest_serialize_into B) GetACLRequest_size GetACLRequest_jute (GetACLRequest_deserialize B) \<and>
     jute_record (SetACLRequest_serialize_into B) SetACLRequest_size SetACLRequest_jute (SetACLRequest_deserialize B) \<and>
     jute_record (AddWatchRequest_serialize_into B) AddWatchRequest_size AddWatchRequest_jute (AddWatchRequest_deserialize B) \<and>
     jute_record (ExistsRequest_serialize_into B) ExistsRequest_size ExistsRequest_jute (ExistsRequest_deserialize B) \<and>
     jute_record (CheckWatchesRequest_serialize_into B) CheckWatchesRequest_size CheckWatchesRequest_jute (CheckWatchesRequest_deserialize B) \<and>
     jute_record (RemoveWatchesRequest_serialize_into B) RemoveWatchesRequest_size RemoveWatchesRequest_jute (RemoveWatchesRequest_deserialize B) \<and>
     jute_record (GetEphemeralsRequest_serialize_into B) GetEphemeralsRequest_size GetEphemeralsRequest_jute (GetEphemeralsRequest_deserialize B)"
  by (intro conjI)
    (rule
    GetDataRequest.jute_record_axioms SetDataRequest.jute_record_axioms
    ReconfigRequest.jute_record_axioms GetSASLRequest.jute_record_axioms
    SetSASLRequest.jute_record_axioms CreateRequest.jute_record_axioms
    CreateTTLRequest.jute_record_axioms DeleteRequest.jute_record_axioms
    GetChildrenRequest.jute_record_axioms GetAllChildrenNumberRequest.jute_record_axioms
    GetChildren2Request.jute_record_axioms CheckVersionRequest.jute_record_axioms
    GetMaxChildrenRequest.jute_record_axioms SetMaxChildrenRequest.jute_record_axioms
    SyncRequest.jute_record_axioms GetACLRequest.jute_record_axioms
    SetACLRequest.jute_record_axioms AddWatchRequest.jute_record_axioms
    ExistsRequest.jute_record_axioms CheckWatchesRequest.jute_record_axioms
    RemoveWatchesRequest.jute_record_axioms GetEphemeralsRequest.jute_record_axioms)+

end

end
