(* ===== verification/Constants.thy ===== *)
theory Constants
  imports Prelude
begin

text \<open>
  The numeric codes of the protocol: the opcodes and length constants of
  \<open>src/src/constants.rs\<close>, the reserved transaction ids of \<open>src/src/codec.rs\<close> and the error
  codes of \<open>src/src/zk_errcode.rs\<close>. The derived \<open>ToPrimitive\<close> of an enum is the table of its
  discriminants, the derived \<open>FromPrimitive\<close> the search in that table. The enums are
  instances of the class \<open>enum\<close>, so that a statement about all codes can be decided.
\<close>

section \<open>Tables of codes\<close>

text \<open>What the instances of \<open>enum\<close> and the searches in the tables share.\<close>

lemma listed:
  assumes "UNIV = set xs"
  shows "list_all P xs \<longleftrightarrow> Ball UNIV P" and "list_ex P xs \<longleftrightarrow> Bex UNIV P"
  by (simp_all add: assms list_all_iff list_ex_iff)

lemma found:
  assumes "\<And>c. find (\<lambda>d. f d = f c) xs = Some c"
  shows "find (\<lambda>d. f d = w) xs = Some c \<longleftrightarrow> f c = w"
    and "find (\<lambda>d. f d = w) xs = None \<longleftrightarrow> w \<notin> range f"
    and "inj f"
proof -
  show iff: "find (\<lambda>d. f d = w) xs = Some c \<longleftrightarrow> f c = w" for c
    using assms [of c] by (auto simp: find_Some_iff)
  show "find (\<lambda>d. f d = w) xs = None \<longleftrightarrow> w \<notin> range f"
    using iff by (metis not_Some_eq rangeE rangeI)
  show "inj f" using assms by (intro injI) (metis option.inject)
qed

section \<open>Lengths\<close>

definition BOOL_LENGTH :: i32 where
  "BOOL_LENGTH = 1"

definition INT_LENGTH :: i32 where
  "INT_LENGTH = 4"

definition LONG_LENGTH :: i32 where
  "LONG_LENGTH = 8"

definition XID_LENGTH :: i32 where
  "XID_LENGTH = 4"

definition OPCODE_LENGTH :: i32 where
  "OPCODE_LENGTH = 4"

definition ZXID_LENGTH :: i32 where
  "ZXID_LENGTH = 8"

definition TIMEOUT_LENGTH :: i32 where
  "TIMEOUT_LENGTH = 4"

definition SESSION_LENGTH :: i32 where
  "SESSION_LENGTH = 8"

definition MULTI_HEADER_LENGTH :: i32 where
  "MULTI_HEADER_LENGTH = 9"

definition PROTOCOL_VERSION_LENGTH :: i32 where
  "PROTOCOL_VERSION_LENGTH = 4"

definition SERVER_HEADER_LENGTH :: i32 where
  "SERVER_HEADER_LENGTH = 16"

section \<open>Opcodes\<close>

datatype OpCodes =
    Connect | Create | Delete | Exists | GetData | SetData | GetAcl | SetAcl | GetChildren |
    Sync | Ping | GetChildren2 | Check | Multi | Create2 | Reconfig | CheckWatches |
    RemoveWatches | CreateContainer | CreateTtl | MultiRead | SetAuth | SetWatches | Sasl |
    GetEphemerals | GetAllChildrenNumber | SetWatches2 | AddWatch | WhoAmI | CreateSession |
    Close | Error

fun OpCodes_to_i32 :: "OpCodes \<Rightarrow> i32" where
  "OpCodes_to_i32 Connect = 0"
| "OpCodes_to_i32 Create = 1"
| "OpCodes_to_i32 Delete = 2"
| "OpCodes_to_i32 Exists = 3"
| "OpCodes_to_i32 GetData = 4"
| "OpCodes_to_i32 SetData = 5"
| "OpCodes_to_i32 GetAcl = 6"
| "OpCodes_to_i32 SetAcl = 7"
| "OpCodes_to_i32 GetChildren = 8"
| "OpCodes_to_i32 Sync = 9"
| "OpCodes_to_i32 Ping = 11"
| "OpCodes_to_i32 GetChildren2 = 12"
| "OpCodes_to_i32 Check = 13"
| "OpCodes_to_i32 Multi = 14"
| "OpCodes_to_i32 Create2 = 15"
| "OpCodes_to_i32 Reconfig = 16"
| "OpCodes_to_i32 CheckWatches = 17"
| "OpCodes_to_i32 RemoveWatches = 18"
| "OpCodes_to_i32 CreateContainer = 19"
| "OpCodes_to_i32 CreateTtl = 21"
| "OpCodes_to_i32 MultiRead = 22"
| "OpCodes_to_i32 SetAuth = 100"
| "OpCodes_to_i32 SetWatches = 101"
| "OpCodes_to_i32 Sasl = 102"
| "OpCodes_to_i32 GetEphemerals = 103"
| "OpCodes_to_i32 GetAllChildrenNumber = 104"
| "OpCodes_to_i32 SetWatches2 = 105"
| "OpCodes_to_i32 AddWatch = 106"
| "OpCodes_to_i32 WhoAmI = 107"
| "OpCodes_to_i32 CreateSession = - 10"
| "OpCodes_to_i32 Close = - 11"
| "OpCodes_to_i32 Error = - 1"

instantiation OpCodes :: enum
begin

definition enum_OpCodes :: "OpCodes list" where
  "enum_OpCodes =
    [Connect, Create, Delete, Exists, GetData, SetData, GetAcl, SetAcl, GetChildren, Sync,
     Ping, GetChildren2, Check, Multi, Create2, Reconfig, CheckWatches, RemoveWatches,
     CreateContainer, CreateTtl, MultiRead, SetAuth, SetWatches, Sasl, GetEphemerals,
     GetAllChildrenNumber, SetWatches2, AddWatch, WhoAmI, CreateSession, Close, Error]"

definition enum_all_OpCodes :: "(OpCodes \<Rightarrow> bool) \<Rightarrow> bool" where
  "enum_all_OpCodes P \<longleftrightarrow> list_all P enum_class.enum"

definition enum_ex_OpCodes :: "(OpCodes \<Rightarrow> bool) \<Rightarrow> bool" where
  "enum_ex_OpCodes P \<longleftrightarrow> list_ex P enum_class.enum"

lemma all_OpCodes: "UNIV = set (enum_class.enum :: OpCodes list)"
  unfolding enum_OpCodes_def by (auto intro: OpCodes.exhaust)

instance
proof
  show "UNIV = set (enum_class.enum :: OpCodes list)" by (rule all_OpCodes)
  show "distinct (enum_class.enum :: OpCodes list)"
    unfolding enum_OpCodes_def by simp
qed (simp_all only: enum_all_OpCodes_def enum_ex_OpCodes_def listed [OF all_OpCodes])

end

definition OpCodes_from_i32 :: "i32 \<Rightarrow> OpCodes option" where
  "OpCodes_from_i32 w = find (\<lambda>c. OpCodes_to_i32 c = w) enum_class.enum"

lemma OpCodes_from_to: "OpCodes_from_i32 (OpCodes_to_i32 c) = Some c"
  unfolding OpCodes_from_i32_def enum_OpCodes_def by (cases c) simp_all

lemmas OpCodes_from_i32_iff = found(1) [where f = OpCodes_to_i32 and xs = enum_class.enum,
  OF OpCodes_from_to [unfolded OpCodes_from_i32_def], folded OpCodes_from_i32_def]

lemmas OpCodes_from_i32_None = found(2) [where f = OpCodes_to_i32 and xs = enum_class.enum,
  OF OpCodes_from_to [unfolded OpCodes_from_i32_def], folded OpCodes_from_i32_def]

lemmas OpCodes_inj = found(3) [where f = OpCodes_to_i32, OF OpCodes_from_to [unfolded OpCodes_from_i32_def]]

section \<open>Reserved transaction ids\<close>

datatype XidCodes =
    ConnectXid | WatchXid | PingXid | AuthXid | SetWatchesXid

fun XidCodes_to_i32 :: "XidCodes \<Rightarrow> i32" where
  "XidCodes_to_i32 ConnectXid = 0"
| "XidCodes_to_i32 WatchXid = - 1"
| "XidCodes_to_i32 PingXid = - 2"
| "XidCodes_to_i32 AuthXid = - 4"
| "XidCodes_to_i32 SetWatchesXid = - 8"

instantiation XidCodes :: enum
begin

definition enum_XidCodes :: "XidCodes list" where
  "enum_XidCodes =
    [ConnectXid, WatchXid, PingXid, AuthXid, SetWatchesXid]"

definition enum_all_XidCodes :: "(XidCodes \<Rightarrow> bool) \<Rightarrow> bool" where
  "enum_all_XidCodes P \<longleftrightarrow> list_all P enum_class.enum"

definition enum_ex_XidCodes :: "(XidCodes \<Rightarrow> bool) \<Rightarrow> bool" where
  "enum_ex_XidCodes P \<longleftrightarrow> list_ex P enum_class.enum"

lemma all_XidCodes: "UNIV = set (enum_class.enum :: XidCodes list)"
  unfolding enum_XidCodes_def by (auto intro: XidCodes.exhaust)

instance
proof
  show "UNIV = set (enum_class.enum :: XidCodes list)" by (rule all_XidCodes)
  show "distinct (enum_class.enum :: XidCodes list)"
    unfolding enum_XidCodes_def by simp
qed (simp_all only: enum_all_XidCodes_def enum_ex_XidCodes_def listed [OF all_XidCodes])

end

definition XidCodes_from_i32 :: "i32 \<Rightarrow> XidCodes option" where
  "XidCodes_from_i32 w = find (\<lambda>c. XidCodes_to_i32 c = w) enum_class.enum"

lemma XidCodes_from_to: "XidCodes_from_i32 (XidCodes_to_i32 c) = Some c"
  unfolding XidCodes_from_i32_def enum_XidCodes_def by (cases c) simp_all

lemmas XidCodes_from_i32_iff = found(1) [where f = XidCodes_to_i32 and xs = enum_class.enum,
  OF XidCodes_from_to [unfolded XidCodes_from_i32_def], folded XidCodes_from_i32_def]

lemmas XidCodes_from_i32_None = found(2) [where f = XidCodes_to_i32 and xs = enum_class.enum,
  OF XidCodes_from_to [unfolded XidCodes_from_i32_def], folded XidCodes_from_i32_def]

lemmas XidCodes_inj = found(3) [where f = XidCodes_to_i32, OF XidCodes_from_to [unfolded XidCodes_from_i32_def]]

section \<open>Error codes\<close>

datatype ZooErrors =
    ZOK | ZSYSTEMERROR | ZRUNTIMEINCONSISTENCY | ZDATAINCONSISTENCY | ZCONNECTIONLOSS |
    ZMARSHALLINGERROR | ZUNIMPLEMENTED | ZOPERATIONTIMEOUT | ZBADARGUMENTS | ZINVALIDSTATE |
    ZNEWCONFIGNOQUORUM | ZRECONFIGINPROGRESS | ZSSLCONNECTIONERROR | ZAPIERROR | ZNONODE |
    ZNOAUTH | ZBADVERSION | ZNOCHILDRENFOREPHEMERALS | ZNODEEXISTS | ZNOTEMPTY |
    ZSESSIONEXPIRED | ZINVALIDCALLBACK | ZINVALIDACL | ZAUTHFAILED | ZCLOSING | ZNOTHING |
    ZSESSIONMOVED | ZNOTREADONLY | ZEPHEMERALONLOCALSESSION | ZNOWATCHER | ZRECONFIGDISABLED |
    ZSESSIONCLOSEDREQUIRESASLAUTH | ZTHROTTLEDOP

fun ZooErrors_to_i32 :: "ZooErrors \<Rightarrow> i32" where
  "ZooErrors_to_i32 ZOK = 0"
| "ZooErrors_to_i32 ZSYSTEMERROR = - 1"
| "ZooErrors_to_i32 ZRUNTIMEINCONSISTENCY = - 2"
| "ZooErrors_to_i32 ZDATAINCONSISTENCY = - 3"
| "ZooErrors_to_i32 ZCONNECTIONLOSS = - 4"
| "ZooErrors_to_i32 ZMARSHALLINGERROR = - 5"
| "ZooErrors_to_i32 ZUNIMPLEMENTED = - 6"
| "ZooErrors_to_i32 ZOPERATIONTIMEOUT = - 7"
| "ZooErrors_to_i32 ZBADARGUMENTS = - 8"
| "ZooErrors_to_i32 ZINVALIDSTATE = - 9"
| "ZooErrors_to_i32 ZNEWCONFIGNOQUORUM = - 13"
| "ZooErrors_to_i32 ZRECONFIGINPROGRESS = - 14"
| "ZooErrors_to_i32 ZSSLCONNECTIONERROR = - 15"
| "ZooErrors_to_i32 ZAPIERROR = - 100"
| "ZooErrors_to_i32 ZNONODE = - 101"
| "ZooErrors_to_i32 ZNOAUTH = - 102"
| "ZooErrors_to_i32 ZBADVERSION = - 103"
| "ZooErrors_to_i32 ZNOCHILDRENFOREPHEMERALS = - 108"
| "ZooErrors_to_i32 ZNODEEXISTS = - 110"
| "ZooErrors_to_i32 ZNOTEMPTY = - 111"
| "ZooErrors_to_i32 ZSESSIONEXPIRED = - 112"
| "ZooErrors_to_i32 ZINVALIDCALLBACK = - 113"
| "ZooErrors_to_i32 ZINVALIDACL = - 114"
| "ZooErrors_to_i32 ZAUTHFAILED = - 115"
| "ZooErrors_to_i32 ZCLOSING = - 116"
| "ZooErrors_to_i32 ZNOTHING = - 117"
| "ZooErrors_to_i32 ZSESSIONMOVED = - 118"
| "ZooErrors_to_i32 ZNOTREADONLY = - 119"
| "ZooErrors_to_i32 ZEPHEMERALONLOCALSESSION = - 120"
| "ZooErrors_to_i32 ZNOWATCHER = - 121"
| "ZooErrors_to_i32 ZRECONFIGDISABLED = - 123"
| "ZooErrors_to_i32 ZSESSIONCLOSEDREQUIRESASLAUTH = - 124"
| "ZooErrors_to_i32 ZTHROTTLEDOP = - 127"

instantiation ZooErrors :: enum
begin

definition enum_ZooErrors :: "ZooErrors list" where
  "enum_ZooErrors =
    [ZOK, ZSYSTEMERROR, ZRUNTIMEINCONSISTENCY, ZDATAINCONSISTENCY, ZCONNECTIONLOSS,
     ZMARSHALLINGERROR, ZUNIMPLEMENTED, ZOPERATIONTIMEOUT, ZBADARGUMENTS, ZINVALIDSTATE,
     ZNEWCONFIGNOQUORUM, ZRECONFIGINPROGRESS, ZSSLCONNECTIONERROR, ZAPIERROR, ZNONODE, ZNOAUTH,
     ZBADVERSION, ZNOCHILDRENFOREPHEMERALS, ZNODEEXISTS, ZNOTEMPTY, ZSESSIONEXPIRED,
     ZINVALIDCALLBACK, ZINVALIDACL, ZAUTHFAILED, ZCLOSING, ZNOTHING, ZSESSIONMOVED,
     ZNOTREADONLY, ZEPHEMERALONLOCALSESSION, ZNOWATCHER, ZRECONFIGDISABLED,
     ZSESSIONCLOSEDREQUIRESASLAUTH, ZTHROTTLEDOP]"

definition enum_all_ZooErrors :: "(ZooErrors \<Rightarrow> bool) \<Rightarrow> bool" where
  "enum_all_ZooErrors P \<longleftrightarrow> list_all P enum_class.enum"

definition enum_ex_ZooErrors :: "(ZooErrors \<Rightarrow> bool) \<Rightarrow> bool" where
  "enum_ex_ZooErrors P \<longleftrightarrow> list_ex P enum_class.enum"

lemma all_ZooErrors: "UNIV = set (enum_class.enum :: ZooErrors list)"
  unfolding enum_ZooErrors_def by (auto intro: ZooErrors.exhaust)

instance
proof
  show "UNIV = set (enum_class.enum :: ZooErrors list)" by (rule all_ZooErrors)
  show "distinct (enum_class.enum :: ZooErrors list)"
    unfolding enum_ZooErrors_def by simp
qed (simp_all only: enum_all_ZooErrors_def enum_ex_ZooErrors_def listed [OF all_ZooErrors])

end

definition ZooErrors_from_i32 :: "i32 \<Rightarrow> ZooErrors option" where
  "ZooErrors_from_i32 w = find (\<lambda>c. ZooErrors_to_i32 c = w) enum_class.enum"

lemma ZooErrors_from_to: "ZooErrors_from_i32 (ZooErrors_to_i32 c) = Some c"
  unfolding ZooErrors_from_i32_def enum_ZooErrors_def by (cases c) simp_all

lemmas ZooErrors_from_i32_iff = found(1) [where f = ZooErrors_to_i32 and xs = enum_class.enum,
  OF ZooErrors_from_to [unfolded ZooErrors_from_i32_def], folded ZooErrors_from_i32_def]

lemmas ZooErrors_inj = found(3) [where f = ZooErrors_to_i32, OF ZooErrors_from_to [unfolded ZooErrors_from_i32_def]]

end
