(* ===== verification/Request_Codec.thy ===== *)
theory Request_Codec
  imports Proto_Session Proto_Requests Constants
begin

text \<open>
  Requests (\<open>src/src/codec.rs\<close>): the enum \<open>Request\<close>, the transaction \<open>MultiRequest\<close> that
  nests requests, and \<open>RequestPacket\<close>, a request with its header. For each the methods of
  \<open>Serialize\<close>, the reading of a sub-request by its opcode and the reading loop of a
  transaction, their Jute views and the contracts.
\<close>

section \<open>Data\<close>

datatype Request =
    Connect ConnectRequest
  | Auth AuthPacket
  | Create CreateRequest
  | CreateTTL CreateTTLRequest
  | Delete DeleteRequest
  | Exists ExistsRequest
  | GetData GetDataRequest
  | SetData SetDataRequest
  | GetAcl GetACLRequest
  | SetAcl SetACLRequest
  | GetChildren GetChildrenRequest
  | GetChildren2 GetChildren2Request
  | Ping
  | Whoami
  | GetChildren3 GetChildrenRequest
  | Multi MultiRequest
  | Close
  | SetWatches SetWatches
  | CheckWatches CheckWatchesRequest
  | Sync SyncRequest
and MultiRequest =
  MultiRequest (ops: "(MultiHeader \<times> Request) list") (done_header: MultiHeader)

record RequestPacket =
  request_header :: "RequestHeader option"
  request :: Request

text \<open>The recursion through the list of a transaction goes down in size.\<close>

lemma for_each_cong [fundef_cong]:
  "xs = ys \<Longrightarrow> (\<And>x. x \<in> set ys \<Longrightarrow> f x = g x) \<Longrightarrow> for_each f xs = for_each g ys"
  by (induction xs arbitrary: ys) auto

lemma size_sub_request [termination_simp]:
  "(header, req) \<in> set rs \<Longrightarrow> size req < Suc (size_list (size_prod (\<lambda>_. 0) size) rs)"
  by (induction rs) auto

section \<open>Serialize\<close>

fun Request_serialize_into :: "bytes_crate \<Rightarrow> Request \<Rightarrow> ZkError serializer"
  and MultiRequest_serialize_into :: "bytes_crate \<Rightarrow> MultiRequest \<Rightarrow> ZkError serializer"
where
  "Request_serialize_into B (Request.Create req) = CreateRequest_serialize_into B req"
| "Request_serialize_into B (Request.Delete req) = DeleteRequest_serialize_into B req"
| "Request_serialize_into B (Request.Exists req) = ExistsRequest_serialize_into B req"
| "Request_serialize_into B (Request.GetData req) = GetDataRequest_serialize_into B req"
| "Request_serialize_into B (Request.SetData req) = SetDataRequest_serialize_into B req"
| "Request_serialize_into B (Request.GetAcl req) = GetACLRequest_serialize_into B req"
| "Request_serialize_into B (Request.SetAcl req) = SetACLRequest_serialize_into B req"
| "Request_serialize_into B (Request.GetChildren req) = GetChildrenRequest_serialize_into B req"
| "Request_serialize_into B (Request.GetChildren2 req) = GetChildren2Request_serialize_into B req"
| "Request_serialize_into B Request.Ping = finish"
| "Request_serialize_into B (Request.GetChildren3 req) = GetChildrenRequest_serialize_into B req"
| "Request_serialize_into B Request.Close = finish"
| "Request_serialize_into B (Request.SetWatches req) = SetWatches_serialize_into B req"
| "Request_serialize_into B (Request.Connect req) = ConnectRequest_serialize_into B req"
| "Request_serialize_into B (Request.Auth req) = AuthPacket_serialize_into B req"
| "Request_serialize_into B (Request.CreateTTL req) = CreateTTLRequest_serialize_into B req"
| "Request_serialize_into B (Request.CheckWatches req) = CheckWatchesRequest_serialize_into B req"
| "Request_serialize_into B Request.Whoami = finish"
| "Request_serialize_into B (Request.Multi req) = MultiRequest_serialize_into B req"
| "Request_serialize_into B (Request.Sync req) = SyncRequest_serialize_into B req"
| "MultiRequest_serialize_into B (MultiRequest rs final) =
     seq (for_each (\<lambda>(header, req).
            seq (MultiHeader_serialize_into B header)
                (Request_serialize_into B req)) rs)
    (seq (MultiHeader_serialize_into B final)
     finish)"

fun Request_size :: "Request \<Rightarrow> nat" and MultiRequest_size :: "MultiRequest \<Rightarrow> nat" where
  "Request_size (Request.Create req) = CreateRequest_size req"
| "Request_size (Request.Delete req) = DeleteRequest_size req"
| "Request_size (Request.Exists req) = ExistsRequest_size req"
| "Request_size (Request.GetData req) = GetDataRequest_size req"
| "Request_size (Request.SetData req) = SetDataRequest_size req"
| "Request_size (Request.GetAcl req) = GetACLRequest_size req"
| "Request_size (Request.SetAcl req) = SetACLRequest_size req"
| "Request_size (Request.GetChildren req) = GetChildrenRequest_size req"
| "Request_size (Request.GetChildren2 req) = GetChildren2Request_size req"
| "Request_size Request.Ping = 0"
| "Request_size (Request.GetChildren3 req) = GetChildrenRequest_size req"
| "Request_size Request.Close = 0"
| "Request_size (Request.SetWatches req) = SetWatches_size req"
| "Request_size (Request.Connect req) = ConnectRequest_size req"
| "Request_size (Request.Auth req) = AuthPacket_size req"
| "Request_size (Request.CreateTTL req) = CreateTTLRequest_size req"
| "Request_size (Request.CheckWatches req) = CheckWatchesRequest_size req"
| "Request_size Request.Whoami = 0"
| "Request_size (Request.Multi req) = MultiRequest_size req"
| "Request_size (Request.Sync req) = SyncRequest_size req"
| "MultiRequest_size (MultiRequest rs final) =
     sum_list (map (\<lambda>(header, req). MultiHeader_size header + Request_size req) rs) +
     MultiHeader_size final"

definition RequestPacket_serialize_into :: "bytes_crate \<Rightarrow> RequestPacket \<Rightarrow> ZkError serializer" where
  "RequestPacket_serialize_into B self =
     seq (case request_header self of
            Some header \<Rightarrow> RequestHeader_serialize_into B header
          | None \<Rightarrow> finish)
    (seq (Request_serialize_into B (request self))
     finish)"

definition RequestPacket_size :: "RequestPacket \<Rightarrow> nat" where
  "RequestPacket_size self =
     (case request_header self of None \<Rightarrow> 0 | Some h \<Rightarrow> RequestHeader_size h) +
     Request_size (request self)"

section \<open>Deserialize\<close>

text \<open>The sub-request of a transaction, by the opcode of its header.\<close>

definition Request_deserialize :: "bytes_crate \<Rightarrow> OpCodes \<Rightarrow> (Request, ZkError) deserializer" where
  "Request_deserialize B op_type =
     (case op_type of
        OpCodes.Create \<Rightarrow> bind (CreateRequest_deserialize B) (\<lambda>req. Ok (Request.Create req))
      | OpCodes.Create2 \<Rightarrow> bind (CreateRequest_deserialize B) (\<lambda>req. Ok (Request.Create req))
      | OpCodes.CreateTtl \<Rightarrow> bind (CreateTTLRequest_deserialize B) (\<lambda>req. Ok (Request.CreateTTL req))
      | OpCodes.CreateContainer \<Rightarrow> bind (CreateRequest_deserialize B) (\<lambda>req. Ok (Request.Create req))
      | OpCodes.Delete \<Rightarrow> bind (DeleteRequest_deserialize B) (\<lambda>req. Ok (Request.Delete req))
      | OpCodes.SetData \<Rightarrow> bind (SetDataRequest_deserialize B) (\<lambda>req. Ok (Request.SetData req))
      | OpCodes.Check \<Rightarrow> bind (CheckWatchesRequest_deserialize B) (\<lambda>req. Ok (Request.CheckWatches req))
      | OpCodes.GetChildren \<Rightarrow> bind (GetChildrenRequest_deserialize B) (\<lambda>req. Ok (Request.GetChildren req))
      | OpCodes.Exists \<Rightarrow> bind (ExistsRequest_deserialize B) (\<lambda>req. Ok (Request.Exists req))
      | OpCodes.GetData \<Rightarrow> bind (GetDataRequest_deserialize B) (\<lambda>req. Ok (Request.GetData req))
      | _ \<Rightarrow> fail (Panic Unreachable))"

text \<open>
  The \<open>loop\<close> of \<open>MultiRequest::deserialize\<close>, which has no bound of its own: each turn reads a
  header of nine bytes and panics when there is none, so it makes at most \<open>length bs div 9 + 1\<close>
  turns and \<open>length bs + 1\<close> turns of fuel are enough.
\<close>

primrec MultiRequest_loop ::
  "bytes_crate \<Rightarrow> nat \<Rightarrow> (MultiHeader \<times> Request) list \<Rightarrow> (MultiRequest, ZkError) deserializer" where
  "MultiRequest_loop B 0 rs = fail Diverge"
| "MultiRequest_loop B (Suc fuel) rs =
     bind (MultiHeader_deserialize B) (\<lambda>header.
       if done_f header = 1 then Ok (MultiRequest rs header)
       else case OpCodes_from_i32 (MultiHeader.r_type header) of
         None \<Rightarrow> fail (Err (InvalidOpCode (MultiHeader.r_type header)))
       | Some opcode \<Rightarrow>
           bind (Request_deserialize B opcode) (\<lambda>req.
             MultiRequest_loop B fuel (rs @ [(header, req)])))"

definition MultiRequest_deserialize :: "bytes_crate \<Rightarrow> (MultiRequest, ZkError) deserializer" where
  "MultiRequest_deserialize B buffer = MultiRequest_loop B (Suc (length buffer)) [] buffer"

section \<open>Views\<close>

fun Request_jute :: "Request \<Rightarrow> jute" and MultiRequest_jute :: "MultiRequest \<Rightarrow> jute" where
  "Request_jute (Request.Create req) = CreateRequest_jute req"
| "Request_jute (Request.Delete req) = DeleteRequest_jute req"
| "Request_jute (Request.Exists req) = ExistsRequest_jute req"
| "Request_jute (Request.GetData req) = GetDataRequest_jute req"
| "Request_jute (Request.SetData req) = SetDataRequest_jute req"
| "Request_jute (Request.GetAcl req) = GetACLRequest_jute req"
| "Request_jute (Request.SetAcl req) = SetACLRequest_jute req"
| "Request_jute (Request.GetChildren req) = GetChildrenRequest_jute req"
| "Request_jute (Request.GetChildren2 req) = GetChildren2Request_jute req"
| "Request_jute Request.Ping = JRecord []"
| "Request_jute (Request.GetChildren3 req) = GetChildrenRequest_jute req"
| "Request_jute Request.Close = JRecord []"
| "Request_jute (Request.SetWatches req) = SetWatches_jute req"
| "Request_jute (Request.Connect req) = ConnectRequest_jute req"
| "Request_jute (Request.Auth req) = AuthPacket_jute req"
| "Request_jute (Request.CreateTTL req) = CreateTTLRequest_jute req"
| "Request_jute (Request.CheckWatches req) = CheckWatchesRequest_jute req"
| "Request_jute Request.Whoami = JRecord []"
| "Request_jute (Request.Multi req) = MultiRequest_jute req"
| "Request_jute (Request.Sync req) = SyncRequest_jute req"
| "MultiRequest_jute (MultiRequest rs final) =
     JRecord (map (\<lambda>(header, req). JRecord [MultiHeader_jute header, Request_jute req]) rs @
       [MultiHeader_jute final])"

definition RequestPacket_jute :: "RequestPacket \<Rightarrow> jute" where
  "RequestPacket_jute p =
     JRecord ((case request_header p of None \<Rightarrow> [] | Some h \<Rightarrow> [RequestHeader_jute h]) @
       [Request_jute (request p)])"

context bytes_laws
begin

text \<open>What every request appends, by induction over nested transactions.\<close>

lemma Request_serialize:
  "Request_serialize_into B r buf = Inr (buf @ jute_bytes (Request_jute r))"
  "MultiRequest_serialize_into B m buf = Inr (buf @ jute_bytes (MultiRequest_jute m))"
proof (induction r and m arbitrary: buf and buf rule: Request_jute_MultiRequest_jute.induct)
  case (21 rs final)
  have "for_each (\<lambda>(header, req). seq (MultiHeader_serialize_into B header)
      (Request_serialize_into B req)) rs buf =
    Inr (buf @ concat (map (\<lambda>(header, req). jute_bytes (MultiHeader_jute header) @
      jute_bytes (Request_jute req)) rs))"
    by (rule for_each_append) (auto simp: codec 21)
  then show ?case
    by (simp add: codec seq_Inr comp_def split_def)
qed (simp_all add: codec)

lemma Request_sizes:
  "Request_size r = jute_size (Request_jute r)"
  "MultiRequest_size m = jute_size (MultiRequest_jute m)"
proof (induction r and m rule: Request_jute_MultiRequest_jute.induct)
  case (21 rs final)
  have "sum_list (map (\<lambda>(header, req). MultiHeader_size header + Request_size req) rs) =
      sum_list (map (\<lambda>p. jute_size (case p of (header, req) \<Rightarrow>
        JRecord [MultiHeader_jute header, Request_jute req])) rs)"
    by (rule arg_cong [where f = sum_list], rule map_cong) (auto simp: codec 21)
  then show ?case
    by (simp add: MultiHeader.size_law comp_def)
qed (simp_all add: codec)

end

sublocale bytes_laws \<subseteq> Request: jute_serializer
    "Request_serialize_into B" Request_size Request_jute
  by unfold_locales (rule Request_serialize Request_sizes)+

section \<open>What a transaction is read as\<close>

text \<open>The requests that \<open>Request::deserialize\<close> makes for an opcode.\<close>

fun sub_request :: "OpCodes \<Rightarrow> Request \<Rightarrow> bool" where
  "sub_request op (Request.Create _) = (op \<in> {OpCodes.Create, OpCodes.Create2, OpCodes.CreateContainer})"
| "sub_request op (Request.CreateTTL _) = (op = OpCodes.CreateTtl)"
| "sub_request op (Request.Delete _) = (op = OpCodes.Delete)"
| "sub_request op (Request.SetData _) = (op = OpCodes.SetData)"
| "sub_request op (Request.CheckWatches _) = (op = OpCodes.Check)"
| "sub_request op (Request.GetChildren _) = (op = OpCodes.GetChildren)"
| "sub_request op (Request.Exists _) = (op = OpCodes.Exists)"
| "sub_request op (Request.GetData _) = (op = OpCodes.GetData)"
| "sub_request op _ = False"

definition sub_ok :: "MultiHeader \<times> Request \<Rightarrow> bool" where
  "sub_ok p = (case p of (header, req) \<Rightarrow> done_f header \<noteq> 1 \<and> jute_ok (Request_jute req) \<and>
     (\<exists>op. OpCodes_from_i32 (MultiHeader.r_type header) = Some op \<and> sub_request op req))"

definition multi_ok :: "MultiRequest \<Rightarrow> bool" where
  "multi_ok m \<longleftrightarrow> (\<forall>p \<in> set (ops m). sub_ok p) \<and> done_f (done_header m) = 1"

definition sub_bytes :: "MultiHeader \<times> Request \<Rightarrow> bytes" where
  "sub_bytes p = jute_bytes (MultiHeader_jute (fst p)) @ jute_bytes (Request_jute (snd p))"

lemma sub_bytes_pair:
  "sub_bytes (header, req) = jute_bytes (MultiHeader_jute header) @ jute_bytes (Request_jute req)"
  by (simp add: sub_bytes_def)

lemma length_sub_bytes: "9 \<le> length (sub_bytes p)"
  by (simp add: sub_bytes_def length_jute_bytes MultiHeader_size_9)

lemma length_sub_bytes_list: "length rs \<le> length (concat (map sub_bytes rs))"
proof (induction rs)
  case (Cons p rs)
  then show ?case using length_sub_bytes [of p] by simp
qed simp

lemma MultiRequest_bytes:
  "jute_bytes (MultiRequest_jute (MultiRequest rs final)) =
    concat (map sub_bytes rs) @ jute_bytes (MultiHeader_jute final)"
  by (simp add: sub_bytes_def [abs_def] comp_def split_def)

definition request_fault :: "ZkError fault \<Rightarrow> bool" where
  "request_fault f \<longleftrightarrow> wire_fault f \<or> (\<exists>w. f = Err (InvalidOpCode w) \<and> OpCodes_from_i32 w = None) \<or>
     f = Panic Unreachable"

lemma request_faultI [simp]:
  "wire_fault f \<Longrightarrow> request_fault f"
  "OpCodes_from_i32 w = None \<Longrightarrow> request_fault (Err (InvalidOpCode w))"
  "request_fault (Panic Unreachable)" "\<not> request_fault Diverge"
  by (simp_all add: request_fault_def)

lemma wire_request_faults: "faults_in wire_fault m \<Longrightarrow> faults_in request_fault m"
  by (auto simp: faults_in_def request_fault_def)

context bytes_laws
begin

lemma Request_deserialize_iff:
  "Request_deserialize B op bs = Inr (r, rest) \<longleftrightarrow>
    sub_request op r \<and> jute_ok (Request_jute r) \<and> bs = jute_bytes (Request_jute r) @ rest"
  by (cases op; cases r; simp add: Request_deserialize_def bind_eq_Inr codec; blast?)

lemma Request_deserialize_faults: "faults_in request_fault (Request_deserialize B op)"
  unfolding Request_deserialize_def
  by (cases op; simp; intro faults wire_request_faults; simp add: request_fault_def)

text \<open>The loop, with the requests it has read so far.\<close>

lemma MultiRequest_loop_step:
  "MultiRequest_loop B (Suc fuel) rs bs = Inr q \<longleftrightarrow>
    (\<exists>header rest'. bs = jute_bytes (MultiHeader_jute header) @ rest' \<and>
      (if done_f header = 1 then q = (MultiRequest rs header, rest')
       else \<exists>op req rest''. OpCodes_from_i32 (MultiHeader.r_type header) = Some op \<and>
         sub_request op req \<and> jute_ok (Request_jute req) \<and>
         rest' = jute_bytes (Request_jute req) @ rest'' \<and>
         MultiRequest_loop B fuel (rs @ [(header, req)]) rest'' = Inr q))"
proof -
  have "(if done_f header = 1 then Ok (MultiRequest rs header)
       else case OpCodes_from_i32 (MultiHeader.r_type header) of
         None \<Rightarrow> fail (Err (InvalidOpCode (MultiHeader.r_type header)))
       | Some opcode \<Rightarrow> bind (Request_deserialize B opcode) (\<lambda>req.
             MultiRequest_loop B fuel (rs @ [(header, req)]))) rest' = Inr q \<longleftrightarrow>
      (if done_f header = 1 then q = (MultiRequest rs header, rest')
       else \<exists>op req rest''. OpCodes_from_i32 (MultiHeader.r_type header) = Some op \<and>
         sub_request op req \<and> jute_ok (Request_jute req) \<and>
         rest' = jute_bytes (Request_jute req) @ rest'' \<and>
         MultiRequest_loop B fuel (rs @ [(header, req)]) rest'' = Inr q)" for header rest'
    by (auto simp: bind_eq_Inr Request_deserialize_iff split: option.splits)
  then show ?thesis
    by (simp add: bind_eq_Inr MultiHeader.de_law)
qed

lemma MultiRequest_loop_sound:
  "MultiRequest_loop B fuel rs bs = Inr (m, rest) \<Longrightarrow>
    \<exists>new final. m = MultiRequest (rs @ new) final \<and> (\<forall>p \<in> set new. sub_ok p) \<and> done_f final = 1 \<and>
       bs = concat (map sub_bytes new) @ jute_bytes (MultiHeader_jute final) @ rest"
proof (induction fuel arbitrary: rs bs)
  case (Suc fuel)
  then obtain header rest' where bs: "bs = jute_bytes (MultiHeader_jute header) @ rest'" and
    "done_f header = 1 \<and> (m, rest) = (MultiRequest rs header, rest') \<or> done_f header \<noteq> 1 \<and>
      (\<exists>op req rest''. OpCodes_from_i32 (MultiHeader.r_type header) = Some op \<and>
         sub_request op req \<and> jute_ok (Request_jute req) \<and>
         rest' = jute_bytes (Request_jute req) @ rest'' \<and>
         MultiRequest_loop B fuel (rs @ [(header, req)]) rest'' = Inr (m, rest))"
    unfolding MultiRequest_loop_step by (metis (no_types, lifting))
  then consider "done_f header = 1" "m = MultiRequest rs header" "rest = rest'"
    | req rest'' where "sub_ok (header, req)" "rest' = jute_bytes (Request_jute req) @ rest''"
      "MultiRequest_loop B fuel (rs @ [(header, req)]) rest'' = Inr (m, rest)"
    by (auto simp: sub_ok_def)
  then show ?case
  proof cases
    case 1
    then show ?thesis using bs by (intro exI [of _ "[]"]) simp
  next
    case 2
    from Suc.IH [OF 2(3)] obtain new final where "m = MultiRequest ((rs @ [(header, req)]) @ new) final"
      "\<forall>p \<in> set new. sub_ok p" "done_f final = 1"
      "rest'' = concat (map sub_bytes new) @ jute_bytes (MultiHeader_jute final) @ rest"
      by blast
    then show ?thesis
      using 2(1,2) bs by (intro exI [of _ "(header, req) # new"]) (auto simp: sub_bytes_pair)
  qed
qed simp

lemma MultiRequest_loop_complete:
  "length new < fuel \<Longrightarrow> \<forall>p \<in> set new. sub_ok p \<Longrightarrow> done_f final = 1 \<Longrightarrow>
    MultiRequest_loop B fuel rs
      (concat (map sub_bytes new) @ jute_bytes (MultiHeader_jute final) @ rest) =
    Inr (MultiRequest (rs @ new) final, rest)"
proof (induction fuel arbitrary: rs new)
  case (Suc fuel)
  show ?case
  proof (cases new)
    case Nil
    then show ?thesis
      using Suc.prems(3) by (auto simp: MultiRequest_loop_step simp del: MultiRequest_loop.simps)
  next
    case (Cons p new')
    obtain header req where p: "p = (header, req)" by (cases p)
    then obtain op where "done_f header \<noteq> 1" "OpCodes_from_i32 (MultiHeader.r_type header) = Some op"
      "sub_request op req" "jute_ok (Request_jute req)"
      using Suc.prems(2) Cons by (auto simp: sub_ok_def)
    then show ?thesis
      using Suc.IH [of new' "rs @ [(header, req)]"] Suc.prems unfolding MultiRequest_loop_step
      by (intro exI [of _ header] exI conjI) (auto simp: Cons p sub_bytes_pair)
  qed
qed simp

lemma MultiRequest_loop_ends:
  "length bs < fuel \<Longrightarrow> MultiRequest_loop B fuel rs bs = Inl f \<Longrightarrow> request_fault f"
proof (induction fuel arbitrary: rs bs)
  case (Suc fuel)
  have wire: "wire_fault g" if "MultiHeader_deserialize B bs = Inl g" for g
    using MultiHeader.fault_law that by (rule faults_inD)
  have sub: "request_fault g" if "Request_deserialize B op bs' = Inl g" for g op bs'
    using Request_deserialize_faults that by (rule faults_inD)
  have shorter: "length bs' < fuel"
    if "MultiHeader_deserialize B bs = Inr (header, rest)"
      "Request_deserialize B op rest = Inr (req, bs')" for header rest op req bs'
    using that Suc.prems(1)
    by (auto simp: MultiHeader.de_law Request_deserialize_iff length_jute_bytes MultiHeader_size_9)
  have "request_fault f"
    if "MultiHeader_deserialize B bs = Inr (header, rest)"
      "Request_deserialize B op rest = Inr (req, bs')"
      "MultiRequest_loop B fuel (rs @ [(header, req)]) bs' = Inl f" for header rest op req bs'
    using Suc.IH shorter that by blast
  then show ?case
    using Suc.prems(2) wire sub
    by (simp add: bind_eq_Inl split: if_splits option.splits) (meson request_faultI(1,2) | blast)+
qed simp

end

text \<open>
  \<open>MultiRequest\<close> meets the contract, with \<open>multi_ok\<close> for the headers: every sub-request has
  the opcode its header says, and exactly the last header is marked as done.
\<close>

sublocale bytes_laws \<subseteq> MultiRequest: jute_message
    "MultiRequest_serialize_into B" MultiRequest_size MultiRequest_jute multi_ok
    "MultiRequest_deserialize B"
proof unfold_locales
  fix bs m rest
  show "MultiRequest_deserialize B bs = Inr (m, rest) \<longleftrightarrow>
      multi_ok m \<and> bs = jute_bytes (MultiRequest_jute m) @ rest" (is "?L \<longleftrightarrow> ?R")
  proof
    assume ?L
    then obtain new final where "m = MultiRequest new final" "\<forall>p \<in> set new. sub_ok p" "done_f final = 1"
       "bs = concat (map sub_bytes new) @ jute_bytes (MultiHeader_jute final) @ rest"
      using MultiRequest_loop_sound [of "Suc (length bs)" "[]" bs m rest]
      by (auto simp: MultiRequest_deserialize_def simp del: MultiRequest_loop.simps)
    then show ?R by (simp add: multi_ok_def MultiRequest_bytes del: MultiRequest_jute.simps)
  next
    assume R: ?R
    obtain new final where m: "m = MultiRequest new final" by (cases m)
    have "length new < Suc (length bs)"
      using R length_sub_bytes_list [of new] by (simp add: m MultiRequest_bytes del: MultiRequest_jute.simps)
    then show ?L
      using MultiRequest_loop_complete [of new "Suc (length bs)" final "[]" rest] R
      by (simp add: MultiRequest_deserialize_def m multi_ok_def MultiRequest_bytes
          del: MultiRequest_loop.simps MultiRequest_jute.simps)
  qed
qed (rule Request_serialize Request_sizes)+

context bytes_laws
begin

text \<open>More fuel makes no difference: the loop is the one of the code, which has none.\<close>

lemma MultiRequest_loop_fuel:
  "length bs < fuel \<Longrightarrow> length bs < fuel' \<Longrightarrow> MultiRequest_loop B fuel rs bs = MultiRequest_loop B fuel' rs bs"
proof (induction fuel arbitrary: fuel' rs bs)
  case (Suc fuel)
  then obtain k where k: "fuel' = Suc k" by (cases fuel') auto
  have shorter: "length bs' < fuel" "length bs' < k"
    if "MultiHeader_deserialize B bs = Inr (header, rest)"
      "Request_deserialize B op rest = Inr (req, bs')" for header rest op req bs'
    using that Suc.prems k
    by (auto simp: MultiHeader.de_law Request_deserialize_iff length_jute_bytes MultiHeader_size_9)
  show ?case
    unfolding k MultiRequest_loop.simps
    by (rule bind_same) (auto split: option.split intro!: bind_same Suc.IH dest: shorter)
qed simp

lemma MultiRequest_faults: "faults_in request_fault (MultiRequest_deserialize B)"
  unfolding faults_in_def MultiRequest_deserialize_def
  using MultiRequest_loop_ends by blast

end

sublocale bytes_laws \<subseteq> RequestPacket: jute_serializer
    "RequestPacket_serialize_into B" RequestPacket_size RequestPacket_jute
  by unfold_locales
    (auto simp: RequestPacket_serialize_into_def RequestPacket_size_def RequestPacket_jute_def
      codec seq_Inr split: option.split)

context bytes_laws
begin

lemmas MultiRequest_iff = MultiRequest.de_law

lemma RequestPacket_written:
  "RequestPacket_serialize_into B p buf = Inr (buf @ jute_bytes (RequestPacket_jute p)) \<and>
    RequestPacket_size p = length (jute_bytes (RequestPacket_jute p))"
  by (simp add: RequestPacket.ser_law RequestPacket.size_law length_jute_bytes)

end

end
