(* ===== verification/Proto_Responses.thy ===== *)
theory Proto_Responses
  imports Proto_Base
begin

text \<open>
  The bodies of the server's responses in \<open>src/src/proto.rs\<close>, in the order of that file.
\<close>

section \<open>SetDataResponse\<close>

record SetDataResponse =
  stat :: Stat

definition SetDataResponse_jute :: "SetDataResponse \<Rightarrow> jute" where
  "SetDataResponse_jute x = JRecord [Stat_jute (stat x)]"

definition SetDataResponse_serialize_into :: "bytes_crate \<Rightarrow> SetDataResponse \<Rightarrow> ZkError serializer" where
  "SetDataResponse_serialize_into B self =
     seq (Stat_serialize_into B (stat self))
     finish"

definition SetDataResponse_size :: "SetDataResponse \<Rightarrow> nat" where
  "SetDataResponse_size self = Stat_size (stat self)"

definition SetDataResponse_deserialize :: "bytes_crate \<Rightarrow> (SetDataResponse, ZkError) deserializer" where
  "SetDataResponse_deserialize B =
     bind (Stat_deserialize B) (\<lambda>stat.
     Ok \<lparr>stat = stat\<rparr>)"

sublocale bytes_laws \<subseteq> SetDataResponse: jute_record
    "SetDataResponse_serialize_into B" SetDataResponse_size SetDataResponse_jute "SetDataResponse_deserialize B"
  by (rule jute_recordI)
    (auto simp: codec SetDataResponse_jute_def SetDataResponse_serialize_into_def SetDataResponse_size_def SetDataResponse_deserialize_def
      bind_def intro!: faults split: sum.split_asm prod.split_asm)

section \<open>SetSASLResponse\<close>

record SetSASLResponse =
  token :: bytes

definition SetSASLResponse_jute :: "SetSASLResponse \<Rightarrow> jute" where
  "SetSASLResponse_jute x = JRecord [Bytes_jute (token x)]"

definition SetSASLResponse_serialize_into :: "bytes_crate \<Rightarrow> SetSASLResponse \<Rightarrow> ZkError serializer" where
  "SetSASLResponse_serialize_into B self =
     seq (Bytes_serialize_into B (token self))
     finish"

definition SetSASLResponse_size :: "SetSASLResponse \<Rightarrow> nat" where
  "SetSASLResponse_size self = Bytes_size (token self)"

definition SetSASLResponse_deserialize :: "bytes_crate \<Rightarrow> (SetSASLResponse, ZkError) deserializer" where
  "SetSASLResponse_deserialize B =
     bind (Bytes_deserialize B) (\<lambda>token.
     Ok \<lparr>token = token\<rparr>)"

sublocale bytes_laws \<subseteq> SetSASLResponse: jute_record
    "SetSASLResponse_serialize_into B" SetSASLResponse_size SetSASLResponse_jute "SetSASLResponse_deserialize B"
  by (rule jute_recordI)
    (auto simp: codec SetSASLResponse_jute_def SetSASLResponse_serialize_into_def SetSASLResponse_size_def SetSASLResponse_deserialize_def
      bind_def intro!: faults split: sum.split_asm prod.split_asm)

section \<open>GetMaxChildrenResponse\<close>

record GetMaxChildrenResponse =
  max_f :: i32

definition GetMaxChildrenResponse_jute :: "GetMaxChildrenResponse \<Rightarrow> jute" where
  "GetMaxChildrenResponse_jute x = JRecord [JInt (max_f x)]"

definition GetMaxChildrenResponse_serialize_into :: "bytes_crate \<Rightarrow> GetMaxChildrenResponse \<Rightarrow> ZkError serializer" where
  "GetMaxChildrenResponse_serialize_into B self =
     seq (put_i32 B (max_f self))
     finish"

definition GetMaxChildrenResponse_size :: "GetMaxChildrenResponse \<Rightarrow> nat" where
  "GetMaxChildrenResponse_size self = 4"

definition GetMaxChildrenResponse_deserialize :: "bytes_crate \<Rightarrow> (GetMaxChildrenResponse, ZkError) deserializer" where
  "GetMaxChildrenResponse_deserialize B =
     bind (get_i32 B) (\<lambda>max_f.
     Ok \<lparr>max_f = max_f\<rparr>)"

sublocale bytes_laws \<subseteq> GetMaxChildrenResponse: jute_record
    "GetMaxChildrenResponse_serialize_into B" GetMaxChildrenResponse_size GetMaxChildrenResponse_jute "GetMaxChildrenResponse_deserialize B"
  by (rule jute_recordI)
    (auto simp: codec GetMaxChildrenResponse_jute_def GetMaxChildrenResponse_serialize_into_def GetMaxChildrenResponse_size_def GetMaxChildrenResponse_deserialize_def
      bind_def intro!: faults split: sum.split_asm prod.split_asm)

section \<open>SyncResponse\<close>

record SyncResponse =
  path :: rust_string

definition SyncResponse_jute :: "SyncResponse \<Rightarrow> jute" where
  "SyncResponse_jute x = JRecord [String_jute (path x)]"

definition SyncResponse_serialize_into :: "bytes_crate \<Rightarrow> SyncResponse \<Rightarrow> ZkError serializer" where
  "SyncResponse_serialize_into B self =
     seq (String_serialize_into B (path self))
     finish"

definition SyncResponse_size :: "SyncResponse \<Rightarrow> nat" where
  "SyncResponse_size self = String_size (path self)"

definition SyncResponse_deserialize :: "bytes_crate \<Rightarrow> (SyncResponse, ZkError) deserializer" where
  "SyncResponse_deserialize B =
     bind (String_deserialize B) (\<lambda>path.
     Ok \<lparr>path = path\<rparr>)"

sublocale bytes_laws \<subseteq> SyncResponse: jute_record
    "SyncResponse_serialize_into B" SyncResponse_size SyncResponse_jute "SyncResponse_deserialize B"
  by (rule jute_recordI)
    (auto simp: codec SyncResponse_jute_def SyncResponse_serialize_into_def SyncResponse_size_def SyncResponse_deserialize_def
      bind_def intro!: faults split: sum.split_asm prod.split_asm)

section \<open>SetACLResponse\<close>

record SetACLResponse =
  stat :: Stat

definition SetACLResponse_jute :: "SetACLResponse \<Rightarrow> jute" where
  "SetACLResponse_jute x = JRecord [Stat_jute (stat x)]"

definition SetACLResponse_serialize_into :: "bytes_crate \<Rightarrow> SetACLResponse \<Rightarrow> ZkError serializer" where
  "SetACLResponse_serialize_into B self =
     seq (Stat_serialize_into B (stat self))
     finish"

definition SetACLResponse_size :: "SetACLResponse \<Rightarrow> nat" where
  "SetACLResponse_size self = Stat_size (stat self)"

definition SetACLResponse_deserialize :: "bytes_crate \<Rightarrow> (SetACLResponse, ZkError) deserializer" where
  "SetACLResponse_deserialize B =
     bind (Stat_deserialize B) (\<lambda>stat.
     Ok \<lparr>stat = stat\<rparr>)"

sublocale bytes_laws \<subseteq> SetACLResponse: jute_record
    "SetACLResponse_serialize_into B" SetACLResponse_size SetACLResponse_jute "SetACLResponse_deserialize B"
  by (rule jute_recordI)
    (auto simp: codec SetACLResponse_jute_def SetACLResponse_serialize_into_def SetACLResponse_size_def SetACLResponse_deserialize_def
      bind_def intro!: faults split: sum.split_asm prod.split_asm)

section \<open>WatcherEvent\<close>

record WatcherEvent =
  r_type :: i32
  state :: i32
  path :: rust_string

definition WatcherEvent_jute :: "WatcherEvent \<Rightarrow> jute" where
  "WatcherEvent_jute x = JRecord [JInt (r_type x), JInt (state x), String_jute (path x)]"

definition WatcherEvent_serialize_into :: "bytes_crate \<Rightarrow> WatcherEvent \<Rightarrow> ZkError serializer" where
  "WatcherEvent_serialize_into B self =
     seq (put_i32 B (r_type self))
    (seq (put_i32 B (state self))
    (seq (String_serialize_into B (path self))
     finish))"

definition WatcherEvent_size :: "WatcherEvent \<Rightarrow> nat" where
  "WatcherEvent_size self = 4 + 4 + String_size (path self)"

definition WatcherEvent_deserialize :: "bytes_crate \<Rightarrow> (WatcherEvent, ZkError) deserializer" where
  "WatcherEvent_deserialize B =
     bind (get_i32 B) (\<lambda>r_type.
     bind (get_i32 B) (\<lambda>state.
     bind (String_deserialize B) (\<lambda>path.
     Ok \<lparr>r_type = r_type, state = state, path = path\<rparr>)))"

sublocale bytes_laws \<subseteq> WatcherEvent: jute_record
    "WatcherEvent_serialize_into B" WatcherEvent_size WatcherEvent_jute "WatcherEvent_deserialize B"
  by (rule jute_recordI)
    (auto simp: codec WatcherEvent_jute_def WatcherEvent_serialize_into_def WatcherEvent_size_def WatcherEvent_deserialize_def
      bind_def intro!: faults split: sum.split_asm prod.split_asm)

section \<open>ErrorResponse\<close>

record ErrorResponse =
  err :: i32

definition ErrorResponse_jute :: "ErrorResponse \<Rightarrow> jute" where
  "ErrorResponse_jute x = JRecord [JInt (err x)]"

definition ErrorResponse_serialize_into :: "bytes_crate \<Rightarrow> ErrorResponse \<Rightarrow> ZkError serializer" where
  "ErrorResponse_serialize_into B self =
     seq (put_i32 B (err self))
     finish"

definition ErrorResponse_size :: "ErrorResponse \<Rightarrow> nat" where
  "ErrorResponse_size self = 4"

definition ErrorResponse_deserialize :: "bytes_crate \<Rightarrow> (ErrorResponse, ZkError) deserializer" where
  "ErrorResponse_deserialize B =
     bind (get_i32 B) (\<lambda>err.
     Ok \<lparr>err = err\<rparr>)"

sublocale bytes_laws \<subseteq> ErrorResponse: jute_record
    "ErrorResponse_serialize_into B" ErrorResponse_size ErrorResponse_jute "ErrorResponse_deserialize B"
  by (rule jute_recordI)
    (auto simp: codec ErrorResponse_jute_def ErrorResponse_serialize_into_def ErrorResponse_size_def ErrorResponse_deserialize_def
      bind_def intro!: faults split: sum.split_asm prod.split_asm)

section \<open>CreateResponse\<close>

record CreateResponse =
  path :: rust_string

definition CreateResponse_jute :: "CreateResponse \<Rightarrow> jute" where
  "CreateResponse_jute x = JRecord [String_jute (path x)]"

definition CreateResponse_serialize_into :: "bytes_crate \<Rightarrow> CreateResponse \<Rightarrow> ZkError serializer" where
  "CreateResponse_serialize_into B self =
     seq (String_serialize_into B (path self))
     finish"

definition CreateResponse_size :: "CreateResponse \<Rightarrow> nat" where
  "CreateResponse_size self = String_size (path self)"

definition CreateResponse_deserialize :: "bytes_crate \<Rightarrow> (CreateResponse, ZkError) deserializer" where
  "CreateResponse_deserialize B =
     bind (String_deserialize B) (\<lambda>path.
     Ok \<lparr>path = path\<rparr>)"

sublocale bytes_laws \<subseteq> CreateResponse: jute_record
    "CreateResponse_serialize_into B" CreateResponse_size CreateResponse_jute "CreateResponse_deserialize B"
  by (rule jute_recordI)
    (auto simp: codec CreateResponse_jute_def CreateResponse_serialize_into_def CreateResponse_size_def CreateResponse_deserialize_def
      bind_def intro!: faults split: sum.split_asm prod.split_asm)

section \<open>Create2Response\<close>

record Create2Response =
  path :: rust_string
  stat :: Stat

definition Create2Response_jute :: "Create2Response \<Rightarrow> jute" where
  "Create2Response_jute x = JRecord [String_jute (path x), Stat_jute (stat x)]"

definition Create2Response_serialize_into :: "bytes_crate \<Rightarrow> Create2Response \<Rightarrow> ZkError serializer" where
  "Create2Response_serialize_into B self =
     seq (String_serialize_into B (path self))
    (seq (Stat_serialize_into B (stat self))
     finish)"

definition Create2Response_size :: "Create2Response \<Rightarrow> nat" where
  "Create2Response_size self = String_size (path self) + Stat_size (stat self)"

definition Create2Response_deserialize :: "bytes_crate \<Rightarrow> (Create2Response, ZkError) deserializer" where
  "Create2Response_deserialize B =
     bind (String_deserialize B) (\<lambda>path.
     bind (Stat_deserialize B) (\<lambda>stat.
     Ok \<lparr>path = path, stat = stat\<rparr>))"

sublocale bytes_laws \<subseteq> Create2Response: jute_record
    "Create2Response_serialize_into B" Create2Response_size Create2Response_jute "Create2Response_deserialize B"
  by (rule jute_recordI)
    (auto simp: codec Create2Response_jute_def Create2Response_serialize_into_def Create2Response_size_def Create2Response_deserialize_def
      bind_def intro!: faults split: sum.split_asm prod.split_asm)

section \<open>ExistsResponse\<close>

record ExistsResponse =
  stat :: Stat

definition ExistsResponse_jute :: "ExistsResponse \<Rightarrow> jute" where
  "ExistsResponse_jute x = JRecord [Stat_jute (stat x)]"

definition ExistsResponse_serialize_into :: "bytes_crate \<Rightarrow> ExistsResponse \<Rightarrow> ZkError serializer" where
  "ExistsResponse_serialize_into B self =
     seq (Stat_serialize_into B (stat self))
     finish"

definition ExistsResponse_size :: "ExistsResponse \<Rightarrow> nat" where
  "ExistsResponse_size self = Stat_size (stat self)"

definition ExistsResponse_deserialize :: "bytes_crate \<Rightarrow> (ExistsResponse, ZkError) deserializer" where
  "ExistsResponse_deserialize B =
     bind (Stat_deserialize B) (\<lambda>stat.
     Ok \<lparr>stat = stat\<rparr>)"

sublocale bytes_laws \<subseteq> ExistsResponse: jute_record
    "ExistsResponse_serialize_into B" ExistsResponse_size ExistsResponse_jute "ExistsResponse_deserialize B"
  by (rule jute_recordI)
    (auto simp: codec ExistsResponse_jute_def ExistsResponse_serialize_into_def ExistsResponse_size_def ExistsResponse_deserialize_def
      bind_def intro!: faults split: sum.split_asm prod.split_asm)

section \<open>GetDataResponse\<close>

record GetDataResponse =
  data :: bytes
  stat :: Stat

definition GetDataResponse_jute :: "GetDataResponse \<Rightarrow> jute" where
  "GetDataResponse_jute x = JRecord [Bytes_jute (data x), Stat_jute (stat x)]"

definition GetDataResponse_serialize_into :: "bytes_crate \<Rightarrow> GetDataResponse \<Rightarrow> ZkError serializer" where
  "GetDataResponse_serialize_into B self =
     seq (Bytes_serialize_into B (data self))
    (seq (Stat_serialize_into B (stat self))
     finish)"

definition GetDataResponse_size :: "GetDataResponse \<Rightarrow> nat" where
  "GetDataResponse_size self = Bytes_size (data self) + Stat_size (stat self)"

definition GetDataResponse_deserialize :: "bytes_crate \<Rightarrow> (GetDataResponse, ZkError) deserializer" where
  "GetDataResponse_deserialize B =
     bind (Bytes_deserialize B) (\<lambda>data.
     bind (Stat_deserialize B) (\<lambda>stat.
     Ok \<lparr>data = data, stat = stat\<rparr>))"

sublocale bytes_laws \<subseteq> GetDataResponse: jute_record
    "GetDataResponse_serialize_into B" GetDataResponse_size GetDataResponse_jute "GetDataResponse_deserialize B"
  by (rule jute_recordI)
    (auto simp: codec GetDataResponse_jute_def GetDataResponse_serialize_into_def GetDataResponse_size_def GetDataResponse_deserialize_def
      bind_def intro!: faults split: sum.split_asm prod.split_asm)

section \<open>GetChildrenResponse\<close>

record GetChildrenResponse =
  children :: "rust_string list"

definition GetChildrenResponse_jute :: "GetChildrenResponse \<Rightarrow> jute" where
  "GetChildrenResponse_jute x = JRecord [Vec_jute String_jute (children x)]"

definition GetChildrenResponse_serialize_into :: "bytes_crate \<Rightarrow> GetChildrenResponse \<Rightarrow> ZkError serializer" where
  "GetChildrenResponse_serialize_into B self =
     seq (Vec_serialize_into B (String_serialize_into B) (children self))
     finish"

definition GetChildrenResponse_size :: "GetChildrenResponse \<Rightarrow> nat" where
  "GetChildrenResponse_size self = Vec_size String_size (children self)"

definition GetChildrenResponse_deserialize :: "bytes_crate \<Rightarrow> (GetChildrenResponse, ZkError) deserializer" where
  "GetChildrenResponse_deserialize B =
     bind (Vec_deserialize B (String_deserialize B)) (\<lambda>children.
     Ok \<lparr>children = children\<rparr>)"

sublocale bytes_laws \<subseteq> GetChildrenResponse: jute_record
    "GetChildrenResponse_serialize_into B" GetChildrenResponse_size GetChildrenResponse_jute "GetChildrenResponse_deserialize B"
  by (rule jute_recordI)
    (auto simp: codec GetChildrenResponse_jute_def GetChildrenResponse_serialize_into_def GetChildrenResponse_size_def GetChildrenResponse_deserialize_def
      bind_def intro!: faults split: sum.split_asm prod.split_asm)

section \<open>GetAllChildrenNumberResponse\<close>

record GetAllChildrenNumberResponse =
  total_number :: i32

definition GetAllChildrenNumberResponse_jute :: "GetAllChildrenNumberResponse \<Rightarrow> jute" where
  "GetAllChildrenNumberResponse_jute x = JRecord [JInt (total_number x)]"

definition GetAllChildrenNumberResponse_serialize_into :: "bytes_crate \<Rightarrow> GetAllChildrenNumberResponse \<Rightarrow> ZkError serializer" where
  "GetAllChildrenNumberResponse_serialize_into B self =
     seq (put_i32 B (total_number self))
     finish"

definition GetAllChildrenNumberResponse_size :: "GetAllChildrenNumberResponse \<Rightarrow> nat" where
  "GetAllChildrenNumberResponse_size self = 4"

definition GetAllChildrenNumberResponse_deserialize :: "bytes_crate \<Rightarrow> (GetAllChildrenNumberResponse, ZkError) deserializer" where
  "GetAllChildrenNumberResponse_deserialize B =
     bind (get_i32 B) (\<lambda>total_number.
     Ok \<lparr>total_number = total_number\<rparr>)"

sublocale bytes_laws \<subseteq> GetAllChildrenNumberResponse: jute_record
    "GetAllChildrenNumberResponse_serialize_into B" GetAllChildrenNumberResponse_size GetAllChildrenNumberResponse_jute "GetAllChildrenNumberResponse_deserialize B"
  by (rule jute_recordI)
    (auto simp: codec GetAllChildrenNumberResponse_jute_def GetAllChildrenNumberResponse_serialize_into_def GetAllChildrenNumberResponse_size_def GetAllChildrenNumberResponse_deserialize_def
      bind_def intro!: faults split: sum.split_asm prod.split_asm)

section \<open>GetChildren2Response\<close>

record GetChildren2Response =
  children :: "rust_string list"
  stat :: Stat

definition GetChildren2Response_jute :: "GetChildren2Response \<Rightarrow> jute" where
  "GetChildren2Response_jute x = JRecord [Vec_jute String_jute (children x), Stat_jute (stat x)]"

definition GetChildren2Response_serialize_into :: "bytes_crate \<Rightarrow> GetChildren2Response \<Rightarrow> ZkError serializer" where
  "GetChildren2Response_serialize_into B self =
     seq (Vec_serialize_into B (String_serialize_into B) (children self))
    (seq (Stat_serialize_into B (stat self))
     finish)"

definition GetChildren2Response_size :: "GetChildren2Response \<Rightarrow> nat" where
  "GetChildren2Response_size self = Vec_size String_size (children self) + Stat_size (stat self)"

definition GetChildren2Response_deserialize :: "bytes_crate \<Rightarrow> (GetChildren2Response, ZkError) deserializer" where
  "GetChildren2Response_deserialize B =
     bind (Vec_deserialize B (String_deserialize B)) (\<lambda>children.
     bind (Stat_deserialize B) (\<lambda>stat.
     Ok \<lparr>children = children, stat = stat\<rparr>))"

sublocale bytes_laws \<subseteq> GetChildren2Response: jute_record
    "GetChildren2Response_serialize_into B" GetChildren2Response_size GetChildren2Response_jute "GetChildren2Response_deserialize B"
  by (rule jute_recordI)
    (auto simp: codec GetChildren2Response_jute_def GetChildren2Response_serialize_into_def GetChildren2Response_size_def GetChildren2Response_deserialize_def
      bind_def intro!: faults split: sum.split_asm prod.split_asm)

section \<open>GetACLResponse\<close>

record GetACLResponse =
  acl :: "ACL list"
  stat :: Stat

definition GetACLResponse_jute :: "GetACLResponse \<Rightarrow> jute" where
  "GetACLResponse_jute x = JRecord [Vec_jute ACL_jute (acl x), Stat_jute (stat x)]"

definition GetACLResponse_serialize_into :: "bytes_crate \<Rightarrow> GetACLResponse \<Rightarrow> ZkError serializer" where
  "GetACLResponse_serialize_into B self =
     seq (put_i32 B (usize_as_i32 (length (acl self))))
    (seq (for_each (ACL_serialize_into B) (acl self))
    (seq (Stat_serialize_into B (stat self))
     finish))"

definition GetACLResponse_size :: "GetACLResponse \<Rightarrow> nat" where
  "GetACLResponse_size self = Vec_size ACL_size (acl self) + Stat_size (stat self)"

definition GetACLResponse_deserialize :: "bytes_crate \<Rightarrow> (GetACLResponse, ZkError) deserializer" where
  "GetACLResponse_deserialize B =
     bind (Vec_deserialize B (ACL_deserialize B)) (\<lambda>acl.
     bind (Stat_deserialize B) (\<lambda>stat.
     Ok \<lparr>acl = acl, stat = stat\<rparr>))"

sublocale bytes_laws \<subseteq> GetACLResponse: jute_record
    "GetACLResponse_serialize_into B" GetACLResponse_size GetACLResponse_jute "GetACLResponse_deserialize B"
  by (rule jute_recordI)
    (auto simp: codec GetACLResponse_jute_def GetACLResponse_serialize_into_def GetACLResponse_size_def GetACLResponse_deserialize_def
      bind_def intro!: faults split: sum.split_asm prod.split_asm)

section \<open>GetEphemeralsResponse\<close>

record GetEphemeralsResponse =
  ephemerals :: "rust_string list"

definition GetEphemeralsResponse_jute :: "GetEphemeralsResponse \<Rightarrow> jute" where
  "GetEphemeralsResponse_jute x = JRecord [Vec_jute String_jute (ephemerals x)]"

definition GetEphemeralsResponse_serialize_into :: "bytes_crate \<Rightarrow> GetEphemeralsResponse \<Rightarrow> ZkError serializer" where
  "GetEphemeralsResponse_serialize_into B self =
     seq (Vec_serialize_into B (String_serialize_into B) (ephemerals self))
     finish"

definition GetEphemeralsResponse_size :: "GetEphemeralsResponse \<Rightarrow> nat" where
  "GetEphemeralsResponse_size self = Vec_size String_size (ephemerals self)"

definition GetEphemeralsResponse_deserialize :: "bytes_crate \<Rightarrow> (GetEphemeralsResponse, ZkError) deserializer" where
  "GetEphemeralsResponse_deserialize B =
     bind (Vec_deserialize B (String_deserialize B)) (\<lambda>ephemerals.
     Ok \<lparr>ephemerals = ephemerals\<rparr>)"

sublocale bytes_laws \<subseteq> GetEphemeralsResponse: jute_record
    "GetEphemeralsResponse_serialize_into B" GetEphemeralsResponse_size GetEphemeralsResponse_jute "GetEphemeralsResponse_deserialize B"
  by (rule jute_recordI)
    (auto simp: codec GetEphemeralsResponse_jute_def GetEphemeralsResponse_serialize_into_def GetEphemeralsResponse_size_def GetEphemeralsResponse_deserialize_def
      bind_def intro!: faults split: sum.split_asm prod.split_asm)

section \<open>WhoAmIResponse\<close>

record WhoAmIResponse =
  client_info :: "ClientInfo list"

definition WhoAmIResponse_jute :: "WhoAmIResponse \<Rightarrow> jute" where
  "WhoAmIResponse_jute x = JRecord [Vec_jute ClientInfo_jute (client_info x)]"

definition WhoAmIResponse_serialize_into :: "bytes_crate \<Rightarrow> WhoAmIResponse \<Rightarrow> ZkError serializer" where
  "WhoAmIResponse_serialize_into B self =
     seq (put_i32 B (usize_as_i32 (length (client_info self))))
    (seq (for_each (ClientInfo_serialize_into B) (client_info self))
     finish)"

definition WhoAmIResponse_size :: "WhoAmIResponse \<Rightarrow> nat" where
  "WhoAmIResponse_size self = Vec_size ClientInfo_size (client_info self)"

definition WhoAmIResponse_deserialize :: "bytes_crate \<Rightarrow> (WhoAmIResponse, ZkError) deserializer" where
  "WhoAmIResponse_deserialize B =
     bind (Vec_deserialize B (ClientInfo_deserialize B)) (\<lambda>client_info.
     Ok \<lparr>client_info = client_info\<rparr>)"

sublocale bytes_laws \<subseteq> WhoAmIResponse: jute_record
    "WhoAmIResponse_serialize_into B" WhoAmIResponse_size WhoAmIResponse_jute "WhoAmIResponse_deserialize B"
  by (rule jute_recordI)
    (auto simp: codec WhoAmIResponse_jute_def WhoAmIResponse_serialize_into_def WhoAmIResponse_size_def WhoAmIResponse_deserialize_def
      bind_def intro!: faults split: sum.split_asm prod.split_asm)

section \<open>All of them\<close>

context bytes_laws
begin

lemma response_structs_hold:
  "jute_record (SetDataResponse_serialize_into B) SetDataResponse_size SetDataResponse_jute (SetDataResponse_deserialize B) \<and>
     jute_record (SetSASLResponse_serialize_into B) SetSASLResponse_size SetSASLResponse_jute (SetSASLResponse_deserialize B) \<and>
     jute_record (GetMaxChildrenResponse_serialize_into B) GetMaxChildrenResponse_size GetMaxChildrenResponse_jute (GetMaxChildrenResponse_deserialize B) \<and>
     jute_record (SyncResponse_serialize_into B) SyncResponse_size SyncResponse_jute (SyncResponse_deserialize B) \<and>
     jute_record (SetACLResponse_serialize_into B) SetACLResponse_size SetACLResponse_jute (SetACLResponse_deserialize B) \<and>
     jute_record (WatcherEvent_serialize_into B) WatcherEvent_size WatcherEvent_jute (WatcherEvent_deserialize B) \<and>
     jute_record (ErrorResponse_serialize_into B) ErrorResponse_size ErrorResponse_jute (ErrorResponse_deserialize B) \<and>
     jute_record (CreateResponse_serialize_into B) CreateResponse_size CreateResponse_jute (CreateResponse_deserialize B) \<and>
     jute_record (Create2Response_serialize_into B) Create2Response_size Create2Response_jute (Create2Response_deserialize B) \<and>
     jute_record (ExistsResponse_serialize_into B) ExistsResponse_size ExistsResponse_jute (ExistsResponse_deserialize B) \<and>
     jute_record (GetDataResponse_serialize_into B) GetDataResponse_size GetDataResponse_jute (GetDataResponse_deserialize B) \<and>
     jute_record (GetChildrenResponse_serialize_into B) GetChildrenResponse_size GetChildrenResponse_jute (GetChildrenResponse_deserialize B) \<and>
     jute_record (GetAllChildrenNumberResponse_serialize_into B) GetAllChildrenNumberResponse_size GetAllChildrenNumberResponse_jute (GetAllChildrenNumberResponse_deserialize B) \<and>
     jute_record (GetChildren2Response_serialize_into B) GetChildren2Response_size GetChildren2Response_jute (GetChildren2Response_deserialize B) \<and>
     jute_record (GetACLResponse_serialize_into B) GetACLResponse_size GetACLResponse_jute (GetACLResponse_deserialize B) \<and>
     jute_record (GetEphemeralsResponse_serialize_into B) GetEphemeralsResponse_size GetEphemeralsResponse_jute (GetEphemeralsResponse_deserialize B) \<and>
     jute_record (WhoAmIResponse_serialize_into B) WhoAmIResponse_size WhoAmIResponse_jute (WhoAmIResponse_deserialize B)"
  by (intro conjI)
    (rule
    SetDataResponse.jute_record_axioms SetSASLResponse.jute_record_axioms
    GetMaxChildrenResponse.jute_record_axioms SyncResponse.jute_record_axioms
    SetACLResponse.jute_record_axioms WatcherEvent.jute_record_axioms
    ErrorResponse.jute_record_axioms CreateResponse.jute_record_axioms
    Create2Response.jute_record_axioms ExistsResponse.jute_record_axioms
    GetDataResponse.jute_record_axioms GetChildrenResponse.jute_record_axioms
    GetAllChildrenNumberResponse.jute_record_axioms GetChildren2Response.jute_record_axioms
    GetACLResponse.jute_record_axioms GetEphemeralsResponse.jute_record_axioms
    WhoAmIResponse.jute_record_axioms)+

end

end
