(* ===== verification/Response_Codec.thy ===== *)
theory Response_Codec
  imports Proto_Session Proto_Responses Constants
begin

text \<open>
  Replies (\<open>src/src/codec.rs\<close>): the enum \<open>ZkResponse\<close>, the reply \<open>MultiResponse\<close> to a
  transaction, and \<open>ResponsePacket\<close>, a reply with its header; their \<open>Serialize\<close> methods and
  the reading of a reply by the opcode of its request.
\<close>

section \<open>Data\<close>

datatype ZkResponse =
    Connect ConnectResponse
  | GetData GetDataResponse
  | SetData SetDataResponse
  | Create CreateResponse
  | Create2 Create2Response
  | WatchEvent WatcherEvent
  | WhoAmI WhoAmIResponse
  | GetChildren2 "rust_string list" Stat
  | GetAcl "ACL list" Stat
  | Ping
  | Stat Stat
  | Empty
  | Strings "rust_string list"
  | String rust_string
  | Multi MultiResponse
  | Err i32
and MultiResponse =
  MultiResponse (results: "(ZooErrors + ZkResponse \<times> MultiHeader) list") (done_header: MultiHeader)

record ResponsePacket =
  response_header :: "ReplyHeader option"
  response :: ZkResponse

section \<open>Serialize\<close>

text \<open>The replies inside a transaction are not written: that call is commented out.\<close>

definition MultiResponse_serialize_into :: "bytes_crate \<Rightarrow> MultiResponse \<Rightarrow> ZkError serializer" where
  "MultiResponse_serialize_into B self =
     seq (for_each (\<lambda>result. case result of
            Inr (resp, header) \<Rightarrow> MultiHeader_serialize_into B header
          | Inl e \<Rightarrow>
              MultiHeader_serialize_into B 
                \<lparr>MultiHeader.r_type = - 1, done_f = 0, err = ZooErrors_to_i32 e\<rparr>)
          (results self))
    (seq (MultiHeader_serialize_into B (done_header self))
     finish)"

definition todo :: "ZkError serializer" where
  "todo buf = Inl (Panic Todo)"

fun ZkResponse_serialize_into :: "bytes_crate \<Rightarrow> ZkResponse \<Rightarrow> ZkError serializer" where
  "ZkResponse_serialize_into B (ZkResponse.Connect resp) = seq (ConnectResponse_serialize_into B resp) finish"
| "ZkResponse_serialize_into B (ZkResponse.GetData r) = seq (GetDataResponse_serialize_into B r) finish"
| "ZkResponse_serialize_into B ZkResponse.Ping = finish"
| "ZkResponse_serialize_into B (ZkResponse.GetAcl a st) =
     seq (put_i32 B (usize_as_i32 (length a)))
    (seq (for_each (ACL_serialize_into B) a)
    (seq (Stat_serialize_into B st)
     finish))"
| "ZkResponse_serialize_into B (ZkResponse.Stat st) = seq (Stat_serialize_into B st) finish"
| "ZkResponse_serialize_into B ZkResponse.Empty = finish"
| "ZkResponse_serialize_into B (ZkResponse.Strings strs) =
     seq (put_i32 B (usize_as_i32 (length strs)))
    (seq (for_each (\<lambda>s. seq (put_i32 B (usize_as_i32 (length s))) (put_slice B s)) strs)
     finish)"
| "ZkResponse_serialize_into B (ZkResponse.String str) =
     seq (put_i32 B (usize_as_i32 (length str)))
    (seq (put_slice B str)
     finish)"
| "ZkResponse_serialize_into B (ZkResponse.Multi _) = todo"
| "ZkResponse_serialize_into B (ZkResponse.GetChildren2 cs st) =
     seq (Vec_serialize_into B (String_serialize_into B) cs)
    (seq (Stat_serialize_into B st)
     finish)"
| "ZkResponse_serialize_into B (ZkResponse.WatchEvent req) = seq (WatcherEvent_serialize_into B req) finish"
| "ZkResponse_serialize_into B (ZkResponse.Create2 req) = seq (Create2Response_serialize_into B req) finish"
| "ZkResponse_serialize_into B (ZkResponse.WhoAmI res) = seq (WhoAmIResponse_serialize_into B res) finish"
| "ZkResponse_serialize_into B (ZkResponse.SetData res) = seq (SetDataResponse_serialize_into B res) finish"
| "ZkResponse_serialize_into B (ZkResponse.Create res) = seq (CreateResponse_serialize_into B res) finish"
| "ZkResponse_serialize_into B (ZkResponse.Err e) = seq (put_i32 B e) finish"

text \<open>\<open>size\<close> panics on a transaction, so it is a result here.\<close>

fun ZkResponse_size :: "ZkResponse \<Rightarrow> (nat, ZkError) result" where
  "ZkResponse_size (ZkResponse.Connect r) = Inr (4 + 4 + 8 + 4 + length (ConnectResponse.passwd r) + 1)"
| "ZkResponse_size (ZkResponse.GetData r) = Inr (4 + length (GetDataResponse.data r) + 6 * 8 + 4 * 5)"
| "ZkResponse_size ZkResponse.Ping = Inr 0"
| "ZkResponse_size (ZkResponse.GetAcl a st) = Inr (4 + length a * 8 + Stat_size st)"
| "ZkResponse_size (ZkResponse.Stat st) = Inr (Stat_size st)"
| "ZkResponse_size ZkResponse.Empty = Inr 0"
| "ZkResponse_size (ZkResponse.Strings strs) = Inr (4 + sum_list (map (\<lambda>s. 4 + length s) strs))"
| "ZkResponse_size (ZkResponse.String str) = Inr (4 + length str)"
| "ZkResponse_size (ZkResponse.Multi _) = Inl (Panic Todo)"
| "ZkResponse_size (ZkResponse.GetChildren2 cs st) =
     Inr (Vec_size String_size cs + Stat_size st)"
| "ZkResponse_size (ZkResponse.WatchEvent req) = Inr (WatcherEvent_size req)"
| "ZkResponse_size (ZkResponse.Create2 req) = Inr (Create2Response_size req)"
| "ZkResponse_size (ZkResponse.WhoAmI req) = Inr (WhoAmIResponse_size req)"
| "ZkResponse_size (ZkResponse.SetData req) = Inr (SetDataResponse_size req)"
| "ZkResponse_size (ZkResponse.Create req) = Inr (CreateResponse_size req)"
| "ZkResponse_size (ZkResponse.Err _) = Inr 4"

definition add_size :: "(nat, ZkError) result \<Rightarrow> (nat, ZkError) result \<Rightarrow> (nat, ZkError) result" where
  "add_size a b = (case a of Inl f \<Rightarrow> Inl f | Inr m \<Rightarrow> (case b of Inl f \<Rightarrow> Inl f | Inr n \<Rightarrow> Inr (m + n)))"

primrec results_size :: "(ZooErrors + ZkResponse \<times> MultiHeader) list \<Rightarrow> nat \<Rightarrow> (nat, ZkError) result" where
  "results_size [] acc = Inr acc"
| "results_size (result # rs) acc =
     (case result of
        Inr (resp, header) \<Rightarrow>
          (case add_size (Inr (MultiHeader_size header)) (ZkResponse_size resp) of
             Inl f \<Rightarrow> Inl f | Inr n \<Rightarrow> results_size rs (acc + n))
      | Inl _ \<Rightarrow> results_size rs (acc + (4 + 1 + 4)))"

definition MultiResponse_size :: "MultiResponse \<Rightarrow> (nat, ZkError) result" where
  "MultiResponse_size self =
     add_size (results_size (results self) 0) (Inr (MultiHeader_size (done_header self)))"

definition ResponsePacket_serialize_into :: "bytes_crate \<Rightarrow> ResponsePacket \<Rightarrow> ZkError serializer" where
  "ResponsePacket_serialize_into B self =
     seq (case response_header self of
            Some header \<Rightarrow> ReplyHeader_serialize_into B header
          | None \<Rightarrow> finish)
    (seq (ZkResponse_serialize_into B (response self))
     finish)"

definition ResponsePacket_size :: "ResponsePacket \<Rightarrow> (nat, ZkError) result" where
  "ResponsePacket_size self =
     add_size (Inr (case response_header self of None \<Rightarrow> 0 | Some h \<Rightarrow> ReplyHeader_size h))
       (ZkResponse_size (response self))"

section \<open>Deserialize\<close>

text \<open>
  \<open>let x = m(src)?; assert!(src.is_empty()); return Ok(f(x))\<close>, the shape of most branches.
\<close>

definition last_of :: "('a, ZkError) deserializer \<Rightarrow> ('a \<Rightarrow> ZkResponse) \<Rightarrow> (ZkResponse, ZkError) deserializer" where
  "last_of m f = bind m (\<lambda>x. bind assert_empty (\<lambda>_. Ok (f x)))"

text \<open>
  \<open>ZkResponse::deserialize\<close>. It and \<open>MultiResponse::deserialize\<close> call each other; the latter is
  an argument here, and is put in below.
\<close>

definition ZkResponse_read ::
  "bytes_crate \<Rightarrow> (MultiResponse, ZkError) deserializer \<Rightarrow> OpCodes option \<Rightarrow> (ZkResponse, ZkError) deserializer" where
  "ZkResponse_read B multi opcode =
     (case opcode of None \<Rightarrow> fail (fault.Err (InvalidOpCode (- 1))) | Some opcode \<Rightarrow>
       (case opcode of
          OpCodes.Connect \<Rightarrow> fail (Panic Unreachable)
        | OpCodes.Exists \<Rightarrow> last_of (Stat_deserialize B) ZkResponse.Stat
        | OpCodes.SetData \<Rightarrow> last_of (Stat_deserialize B) ZkResponse.Stat
        | OpCodes.SetAcl \<Rightarrow> last_of (Stat_deserialize B) ZkResponse.Stat
        | OpCodes.GetData \<Rightarrow>
            bind (Bytes_deserialize B) (\<lambda>data.
              last_of (Stat_deserialize B) (\<lambda>stat. ZkResponse.GetData \<lparr>GetDataResponse.data = data, stat = stat\<rparr>))
        | OpCodes.Delete \<Rightarrow> last_of (Ok ()) (\<lambda>_. ZkResponse.Empty)
        | OpCodes.Close \<Rightarrow> last_of (Ok ()) (\<lambda>_. ZkResponse.Empty)
        | OpCodes.GetChildren \<Rightarrow>
            last_of (Vec_deserialize B (String_deserialize B)) ZkResponse.Strings
        | OpCodes.GetChildren2 \<Rightarrow>
            bind (Vec_deserialize B (String_deserialize B)) (\<lambda>children.
              last_of (Stat_deserialize B) (ZkResponse.GetChildren2 children))
        | OpCodes.Create \<Rightarrow> last_of (CreateResponse_deserialize B) ZkResponse.Create
        | OpCodes.CreateTtl \<Rightarrow> last_of (String_deserialize B) ZkResponse.String
        | OpCodes.GetAcl \<Rightarrow>
            bind (Vec_deserialize B (ACL_deserialize B)) (\<lambda>acl.
              last_of (Stat_deserialize B) (ZkResponse.GetAcl acl))
        | OpCodes.Check \<Rightarrow> last_of (Ok ()) (\<lambda>_. ZkResponse.Empty)
        | OpCodes.CreateContainer \<Rightarrow> last_of (String_deserialize B) ZkResponse.String
        | OpCodes.SetAuth \<Rightarrow> last_of (Ok ()) (\<lambda>_. ZkResponse.Empty)
        | OpCodes.SetWatches \<Rightarrow> last_of (Ok ()) (\<lambda>_. ZkResponse.Empty)
        | OpCodes.Create2 \<Rightarrow> last_of (Create2Response_deserialize B) ZkResponse.Create2
        | OpCodes.CheckWatches \<Rightarrow> last_of (Ok ()) (\<lambda>_. ZkResponse.Empty)
        | OpCodes.WhoAmI \<Rightarrow> last_of (WhoAmIResponse_deserialize B) ZkResponse.WhoAmI
        | OpCodes.Multi \<Rightarrow> last_of multi ZkResponse.Multi
        | OpCodes.Error \<Rightarrow> last_of (Ok ()) (\<lambda>_. ZkResponse.Empty)
        | _ \<Rightarrow> fail (Panic Todo)))"

text \<open>
  The \<open>loop\<close> of \<open>MultiResponse::deserialize\<close>. A turn reads a header of nine bytes, also
  before it reads a nested transaction, so \<open>length bytes + 1\<close> turns of fuel are enough.
\<close>

primrec MultiResponse_loop ::
  "bytes_crate \<Rightarrow> nat \<Rightarrow> (ZooErrors + ZkResponse \<times> MultiHeader) list \<Rightarrow>
    (MultiResponse, ZkError) deserializer" where
  "MultiResponse_loop B 0 rs = fail Diverge"
| "MultiResponse_loop B (Suc fuel) rs =
     bind (MultiHeader_deserialize B) (\<lambda>header.
       if done_f header = 1 then Ok (MultiResponse rs header)
       else if MultiHeader.r_type header = - 1 then
         MultiResponse_loop B fuel (rs @ [Inr (ZkResponse.Err (MultiHeader.err header), header)])
       else
         bind (ZkResponse_read B (MultiResponse_loop B fuel []) (OpCodes_from_i32 (MultiHeader.r_type header)))
           (\<lambda>resp. MultiResponse_loop B fuel (rs @ [Inr (resp, header)])))"

definition MultiResponse_deserialize :: "bytes_crate \<Rightarrow> (MultiResponse, ZkError) deserializer" where
  "MultiResponse_deserialize B bytes = MultiResponse_loop B (Suc (length bytes)) [] bytes"

definition ZkResponse_deserialize ::
  "bytes_crate \<Rightarrow> OpCodes option \<Rightarrow> (ZkResponse, ZkError) deserializer" where
  "ZkResponse_deserialize B = ZkResponse_read B (MultiResponse_deserialize B)"

section \<open>Views\<close>

text \<open>The header that is written for a result.\<close>

definition result_header :: "ZooErrors + ZkResponse \<times> MultiHeader \<Rightarrow> MultiHeader" where
  "result_header result = (case result of
       Inr (resp, header) \<Rightarrow> header
     | Inl e \<Rightarrow> \<lparr>MultiHeader.r_type = - 1, done_f = 0, err = ZooErrors_to_i32 e\<rparr>)"

definition MultiResponse_jute :: "MultiResponse \<Rightarrow> jute" where
  "MultiResponse_jute m =
     JRecord (map (\<lambda>result. MultiHeader_jute (result_header result)) (results m) @
       [MultiHeader_jute (done_header m)])"

fun ZkResponse_jute :: "ZkResponse \<Rightarrow> jute" where
  "ZkResponse_jute (ZkResponse.Connect r) = ConnectResponse_jute r"
| "ZkResponse_jute (ZkResponse.GetData r) = GetDataResponse_jute r"
| "ZkResponse_jute ZkResponse.Ping = JRecord []"
| "ZkResponse_jute (ZkResponse.GetAcl a st) = JRecord [Vec_jute ACL_jute a, Stat_jute st]"
| "ZkResponse_jute (ZkResponse.Stat st) = Stat_jute st"
| "ZkResponse_jute ZkResponse.Empty = JRecord []"
| "ZkResponse_jute (ZkResponse.Strings strs) = Vec_jute String_jute strs"
| "ZkResponse_jute (ZkResponse.String str) = String_jute str"
| "ZkResponse_jute (ZkResponse.Multi m) = MultiResponse_jute m"
| "ZkResponse_jute (ZkResponse.GetChildren2 cs st) = JRecord [Vec_jute String_jute cs, Stat_jute st]"
| "ZkResponse_jute (ZkResponse.WatchEvent r) = WatcherEvent_jute r"
| "ZkResponse_jute (ZkResponse.Create2 r) = Create2Response_jute r"
| "ZkResponse_jute (ZkResponse.WhoAmI r) = WhoAmIResponse_jute r"
| "ZkResponse_jute (ZkResponse.SetData r) = SetDataResponse_jute r"
| "ZkResponse_jute (ZkResponse.Create r) = CreateResponse_jute r"
| "ZkResponse_jute (ZkResponse.Err e) = JInt e"

definition ResponsePacket_jute :: "ResponsePacket \<Rightarrow> jute" where
  "ResponsePacket_jute p =
     JRecord ((case response_header p of None \<Rightarrow> [] | Some h \<Rightarrow> [ReplyHeader_jute h]) @
       [ZkResponse_jute (response p)])"

fun is_multi :: "ZkResponse \<Rightarrow> bool" where
  "is_multi (ZkResponse.Multi _) = True"
| "is_multi _ = False"

fun is_acl :: "ZkResponse \<Rightarrow> bool" where
  "is_acl (ZkResponse.GetAcl _ _) = True"
| "is_acl _ = False"

context bytes_laws
begin

lemma MultiResponse_serialize:
  "MultiResponse_serialize_into B m buf = Inr (buf @ jute_bytes (MultiResponse_jute m))"
proof -
  note loop = for_each_eq [where enc = "\<lambda>result. jute_bytes (MultiHeader_jute (result_header result))"]
  show ?thesis
    unfolding MultiResponse_serialize_into_def
    by (subst seq_Inr [OF loop])
      (auto simp: MultiHeader.ser_law seq_Inr MultiResponse_jute_def result_header_def comp_def split: sum.split)
qed

lemma ZkResponse_serialize:
  "ZkResponse_serialize_into B r buf =
    (if is_multi r then Inl (Panic Todo) else Inr (buf @ jute_bytes (ZkResponse_jute r)))"
proof -
  have strs: "for_each (\<lambda>s. seq (put_i32 B (usize_as_i32 (length s))) (put_slice B s)) strs buf =
      Inr (buf @ concat (map (\<lambda>s. jute_bytes (String_jute s)) strs))" for strs buf
    by (rule for_each_eq) (simp add: codec String_jute_def)
  show ?thesis
    by (cases r) (simp_all add: codec strs todo_def String_jute_def [of "_ :: bytes"])
qed

lemma ZkResponse_size_exact:
  "\<not> is_multi r \<Longrightarrow> \<not> is_acl r \<Longrightarrow> ZkResponse_size r = Inr (jute_size (ZkResponse_jute r))"
  by (cases r) (simp_all add: codec ConnectResponse_jute_def GetDataResponse_jute_def
      Bytes_jute_def String_jute_def Stat_jute_def)

end

section \<open>What a reply is read as\<close>

text \<open>
  The only transactions that are read to the end are those in which every operation failed:
  behind the header of an operation that succeeded the reply is read by
  \<open>ZkResponse::deserialize\<close>, which asserts that nothing follows it, and then the next header
  does follow.
\<close>

definition failed :: "MultiHeader \<Rightarrow> ZooErrors + ZkResponse \<times> MultiHeader" where
  "failed h = Inr (ZkResponse.Err (MultiHeader.err h), h)"

definition failed_header :: "MultiHeader \<Rightarrow> bool" where
  "failed_header h \<longleftrightarrow> MultiHeader.r_type h = - 1 \<and> done_f h \<noteq> 1"

definition multi_reply_ok :: "MultiResponse \<Rightarrow> bool" where
  "multi_reply_ok m \<longleftrightarrow> done_f (done_header m) = 1 \<and>
     (\<forall>result \<in> set (results m). \<exists>h. result = failed h \<and> failed_header h)"

lemma failed_list:
  "(\<forall>result \<in> set rs. \<exists>h. result = failed h \<and> failed_header h) \<longleftrightarrow>
    (\<exists>hs. rs = map failed hs \<and> (\<forall>h \<in> set hs. failed_header h))"
proof (induction rs)
  case (Cons r rs)
  show ?case
    by (auto simp: Cons.IH Cons_eq_map_conv) (metis list.set_intros(1,2) set_ConsD list.simps(9))+
qed simp

text \<open>The replies that are made for an opcode.\<close>

fun reply_for :: "OpCodes \<Rightarrow> ZkResponse \<Rightarrow> bool" where
  "reply_for op (ZkResponse.Stat _) = (op \<in> {OpCodes.Exists, OpCodes.SetData, OpCodes.SetAcl})"
| "reply_for op (ZkResponse.GetData _) = (op = OpCodes.GetData)"
| "reply_for op ZkResponse.Empty = (op \<in> {OpCodes.Delete, OpCodes.Close, OpCodes.Check,
     OpCodes.SetAuth, OpCodes.SetWatches, OpCodes.CheckWatches, OpCodes.Error})"
| "reply_for op (ZkResponse.Strings _) = (op = OpCodes.GetChildren)"
| "reply_for op (ZkResponse.GetChildren2 _ _) = (op = OpCodes.GetChildren2)"
| "reply_for op (ZkResponse.Create _) = (op = OpCodes.Create)"
| "reply_for op (ZkResponse.String _) = (op \<in> {OpCodes.CreateTtl, OpCodes.CreateContainer})"
| "reply_for op (ZkResponse.GetAcl _ _) = (op = OpCodes.GetAcl)"
| "reply_for op (ZkResponse.Create2 _) = (op = OpCodes.Create2)"
| "reply_for op (ZkResponse.WhoAmI _) = (op = OpCodes.WhoAmI)"
| "reply_for op (ZkResponse.Multi m) = (op = OpCodes.Multi \<and> multi_reply_ok m)"
| "reply_for op _ = False"

definition response_fault :: "ZkError fault \<Rightarrow> bool" where
  "response_fault f \<longleftrightarrow> wire_fault f \<or> f = fault.Err (InvalidOpCode (- 1)) \<or>
     f = Panic Unreachable \<or> f = Panic Todo \<or> f = Panic AssertFailed"

lemma response_faultI [simp]:
  "wire_fault f \<Longrightarrow> response_fault f" "response_fault (fault.Err (InvalidOpCode (- 1)))"
  "response_fault (Panic Unreachable)" "response_fault (Panic Todo)"
  "response_fault (Panic AssertFailed)" "\<not> response_fault Diverge"
  by (simp_all add: response_fault_def)

lemma wire_response_faults: "faults_in wire_fault m \<Longrightarrow> faults_in response_fault m"
  by (auto simp: faults_in_def)

lemma last_of_iff:
  "last_of m f bs = Inr (r, rest) \<longleftrightarrow> (\<exists>x. m bs = Inr (x, []) \<and> r = f x \<and> rest = [])"
  by (auto simp: last_of_def bind_eq_Inr assert_empty_eq_Inr)

lemma last_of_faults: "faults_in response_fault m \<Longrightarrow> faults_in response_fault (last_of m f)"
  unfolding last_of_def by (intro faults) simp_all

context bytes_laws
begin

lemma MultiHeader_none: "MultiHeader_deserialize B [] \<noteq> Inr q"
  by (cases q) (simp add: MultiHeader.de_law MultiHeader_jute_def)

lemma ZkResponse_read_rest: "ZkResponse_read B multi op bs = Inr (r, rest) \<Longrightarrow> rest = []"
  by (auto simp: ZkResponse_read_def bind_eq_Inr last_of_iff
      split: option.splits OpCodes.splits)

lemma MultiResponse_loop_Nil: "MultiResponse_loop B fuel rs [] \<noteq> Inr q"
  using MultiHeader_none by (cases fuel) (auto simp: bind_eq_Inr)

lemma MultiResponse_loop_step:
  "MultiResponse_loop B (Suc fuel) rs bs = Inr q \<longleftrightarrow>
    (\<exists>header rest. bs = jute_bytes (MultiHeader_jute header) @ rest \<and>
      (if done_f header = 1 then q = (MultiResponse rs header, rest)
       else failed_header header \<and> MultiResponse_loop B fuel (rs @ [failed header]) rest = Inr q))"
proof -
  have never: "bind (ZkResponse_read B m op) (\<lambda>resp. MultiResponse_loop B fuel (f resp)) rest \<noteq> Inr q"
    for m op f rest
    by (metis MultiResponse_loop_Nil ZkResponse_read_rest bind_eq_Inr)
  have "(if done_f header = 1 then Ok (MultiResponse rs header)
       else if MultiHeader.r_type header = - 1 then
         MultiResponse_loop B fuel (rs @ [Inr (ZkResponse.Err (MultiHeader.err header), header)])
       else
         bind (ZkResponse_read B (MultiResponse_loop B fuel []) (OpCodes_from_i32 (MultiHeader.r_type header)))
           (\<lambda>resp. MultiResponse_loop B fuel (rs @ [Inr (resp, header)]))) rest = Inr q \<longleftrightarrow>
      (if done_f header = 1 then q = (MultiResponse rs header, rest)
       else failed_header header \<and> MultiResponse_loop B fuel (rs @ [failed header]) rest = Inr q)"
    for header rest
    using never by (auto simp: failed_header_def failed_def)
  then show ?thesis
    by (simp add: bind_eq_Inr MultiHeader.de_law)
qed

lemma MultiResponse_loop_sound:
  "MultiResponse_loop B fuel rs bs = Inr (m, rest) \<Longrightarrow>
    \<exists>hs final. m = MultiResponse (rs @ map failed hs) final \<and> (\<forall>h \<in> set hs. failed_header h) \<and>
      done_f final = 1 \<and>
      bs = concat (map (\<lambda>h. jute_bytes (MultiHeader_jute h)) hs) @ jute_bytes (MultiHeader_jute final) @ rest"
proof (induction fuel arbitrary: rs bs)
  case (Suc fuel)
  obtain header rest' where bs: "bs = jute_bytes (MultiHeader_jute header) @ rest'" and
    turn: "if done_f header = 1 then (m, rest) = (MultiResponse rs header, rest')
      else failed_header header \<and> MultiResponse_loop B fuel (rs @ [failed header]) rest' = Inr (m, rest)"
    using Suc.prems unfolding MultiResponse_loop_step by blast
  show ?case
  proof (cases "done_f header = 1")
    case True
    then show ?thesis using turn bs by (intro exI [of _ "[]"]) simp
  next
    case False
    then obtain hs final where "m = MultiResponse ((rs @ [failed header]) @ map failed hs) final"
      "\<forall>h \<in> set hs. failed_header h" "done_f final = 1"
      "rest' = concat (map (\<lambda>h. jute_bytes (MultiHeader_jute h)) hs) @
         jute_bytes (MultiHeader_jute final) @ rest"
      using Suc.IH [of "rs @ [failed header]" rest'] turn by auto
    then show ?thesis
      using False turn bs by (intro exI [of _ "header # hs"] exI [of _ final]) simp
  qed
qed simp

lemma MultiResponse_loop_complete:
  "length hs < fuel \<Longrightarrow> \<forall>h \<in> set hs. failed_header h \<Longrightarrow> done_f final = 1 \<Longrightarrow>
    MultiResponse_loop B fuel rs
      (concat (map (\<lambda>h. jute_bytes (MultiHeader_jute h)) hs) @ jute_bytes (MultiHeader_jute final) @ rest) =
    Inr (MultiResponse (rs @ map failed hs) final, rest)"
proof (induction hs arbitrary: fuel rs)
  case Nil
  then obtain k where "fuel = Suc k" by (cases fuel) auto
  with Nil show ?case
    by (simp only: MultiResponse_loop_step) (intro exI conjI, auto)
next
  case (Cons h hs)
  then obtain k where "fuel = Suc k" by (cases fuel) auto
  with Cons show ?case
    by (simp only: MultiResponse_loop_step) (intro exI [of _ h] exI conjI, auto simp: failed_header_def)
qed

lemma failed_view:
  "jute_bytes (MultiResponse_jute (MultiResponse (map failed hs) final)) =
    concat (map (\<lambda>h. jute_bytes (MultiHeader_jute h)) hs) @ jute_bytes (MultiHeader_jute final)"
  by (simp add: MultiResponse_jute_def result_header_def failed_def comp_def)

lemma length_headers:
  "length (concat (map (\<lambda>h. jute_bytes (MultiHeader_jute h)) hs)) = 9 * length hs"
  by (induction hs) (simp_all add: length_jute_bytes MultiHeader_jute_def)

lemma MultiResponse_deserialize_iff:
  "MultiResponse_deserialize B bs = Inr (m, rest) \<longleftrightarrow>
    multi_reply_ok m \<and> bs = jute_bytes (MultiResponse_jute m) @ rest"
proof
  assume "MultiResponse_deserialize B bs = Inr (m, rest)"
  then obtain hs final where "m = MultiResponse (map failed hs) final" "done_f final = 1"
    "\<forall>h \<in> set hs. failed_header h"
    "bs = concat (map (\<lambda>h. jute_bytes (MultiHeader_jute h)) hs) @ jute_bytes (MultiHeader_jute final) @ rest"
    unfolding MultiResponse_deserialize_def using MultiResponse_loop_sound by fastforce
  then show "multi_reply_ok m \<and> bs = jute_bytes (MultiResponse_jute m) @ rest"
    by (auto simp: multi_reply_ok_def failed_view)
next
  assume R: "multi_reply_ok m \<and> bs = jute_bytes (MultiResponse_jute m) @ rest"
  then obtain hs where hs: "results m = map failed hs" "\<forall>h \<in> set hs. failed_header h"
    unfolding multi_reply_ok_def failed_list by blast
  then have m: "m = MultiResponse (map failed hs) (done_header m)" by (cases m) simp
  with R have bs: "bs = concat (map (\<lambda>h. jute_bytes (MultiHeader_jute h)) hs) @
      jute_bytes (MultiHeader_jute (done_header m)) @ rest"
    using failed_view [of hs "done_header m"] by simp
  then have "length hs < Suc (length bs)" by (simp add: length_headers)
  from MultiResponse_loop_complete [OF this hs(2), of "done_header m" "[]" rest] R
  show "MultiResponse_deserialize B bs = Inr (m, rest)"
    by (simp only: MultiResponse_deserialize_def bs [symmetric] m [symmetric] append_Nil multi_reply_ok_def)
qed

lemma acl_sizes:
  "length acls * 8 + length acls * 4 \<le> sum_list (map (\<lambda>a. jute_size (ACL_jute a)) acls)"
  by (induction acls) (simp_all add: ACL_jute_def Id_jute_def String_jute_def)

lemma ZkResponse_size_cases:
  "case r of
      ZkResponse.Multi _ \<Rightarrow> ZkResponse_size r = Inl (Panic Todo)
    | ZkResponse.GetAcl acls _ \<Rightarrow>
        (\<exists>n. ZkResponse_size r = Inr n \<and>
          (if acls = [] then n = length (jute_bytes (ZkResponse_jute r))
           else n < length (jute_bytes (ZkResponse_jute r))))
    | _ \<Rightarrow> ZkResponse_size r = Inr (length (jute_bytes (ZkResponse_jute r)))"
proof (cases "is_multi r \<or> is_acl r")
  case True
  have "length acls * 8 < sum_list (map (\<lambda>a. jute_size (ACL_jute a)) acls)" if "acls \<noteq> []" for acls
    using acl_sizes [of acls] that by (cases acls) auto
  with True show ?thesis
    by (cases r) (simp_all add: Stat.size_law length_jute_bytes del: jute_bytes.simps jute_bytes_Vec)
next
  case False
  then have "ZkResponse_size r = Inr (length (jute_bytes (ZkResponse_jute r)))"
    by (simp add: ZkResponse_size_exact length_jute_bytes del: jute_bytes.simps)
  with False show ?thesis by (cases r) (simp_all del: jute_bytes.simps)
qed

text \<open>What a reply is read as, by the opcode of the request.\<close>

lemma ZkResponse_deserialize_iff:
  "ZkResponse_deserialize B (Some op) bs = Inr (r, rest) \<longleftrightarrow>
    rest = [] \<and> reply_for op r \<and> jute_ok (ZkResponse_jute r) \<and> bs = jute_bytes (ZkResponse_jute r)"
proof -
  have multi: "jute_ok (MultiResponse_jute m)" for m
    by (auto simp: MultiResponse_jute_def)
  have data: "bind (Bytes_deserialize B) (\<lambda>data.
      last_of (Stat_deserialize B) (\<lambda>stat. ZkResponse.GetData \<lparr>GetDataResponse.data = data, stat = stat\<rparr>)) =
    last_of (GetDataResponse_deserialize B) ZkResponse.GetData"
    by (rule ext) (simp add: last_of_def GetDataResponse_deserialize_def bind_def split: sum.split)
  note read = ZkResponse_deserialize_def ZkResponse_read_def data last_of_iff bind_eq_Inr
    MultiResponse_deserialize_iff codec
  show ?thesis
    by (cases op; cases r) (auto simp: read multi)
qed

text \<open>With enough fuel the loop ends, so reading a reply ends.\<close>

lemmas reply_faults =
  Stat.fault_law [THEN wire_response_faults] Bytes.fault_law [THEN wire_response_faults]
  String.fault_law [THEN wire_response_faults] Strings.fault_law [THEN wire_response_faults]
  ACLs.fault_law [THEN wire_response_faults] CreateResponse.fault_law [THEN wire_response_faults]
  Create2Response.fault_law [THEN wire_response_faults]
  WhoAmIResponse.fault_law [THEN wire_response_faults]

lemma ZkResponse_read_faults:
  assumes "\<And>f. multi bs = Inl f \<Longrightarrow> response_fault f" and "ZkResponse_read B multi op bs = Inl f"
  shows "response_fault f"
proof (cases "op = Some OpCodes.Multi")
  case True
  then show ?thesis
    using assms by (auto simp: ZkResponse_read_def last_of_def bind_eq_Inl assert_empty_def split: if_splits)
next
  case False
  then have "faults_in response_fault (ZkResponse_read B multi op)"
    unfolding ZkResponse_read_def
    by (auto split: option.split OpCodes.split intro!: last_of_faults faults_in_bind faults_in_fail
        faults_in_Ok reply_faults)
  then show ?thesis using assms(2) by (rule faults_inD)
qed

lemma MultiResponse_loop_ends:
  "length bs < fuel \<Longrightarrow> MultiResponse_loop B fuel rs bs = Inl f \<Longrightarrow> response_fault f"
proof (induction fuel arbitrary: rs bs f)
  case (Suc fuel)
  show ?case
  proof (cases "MultiHeader_deserialize B bs")
    case (Inl g)
    then show ?thesis
      using Suc.prems(2) MultiHeader.fault_law by (auto simp: bind_eq_Inl dest: faults_inD)
  next
    case (Inr q)
    obtain header rest where q: "q = (header, rest)" by (cases q)
    then have short: "length rest < fuel"
      using Suc.prems(1) Inr by (auto simp: MultiHeader.de_law length_jute_bytes MultiHeader_size_9)
    let ?read = "ZkResponse_read B (MultiResponse_loop B fuel []) (OpCodes_from_i32 (MultiHeader.r_type header))"
    have "response_fault g" if "?read rest = Inl g" for g
      using ZkResponse_read_faults [OF _ that] Suc.IH [OF short] by blast
    moreover have "length rest' < fuel" if "?read rest = Inr (resp, rest')" for resp rest'
      using ZkResponse_read_rest [OF that] short by simp
    ultimately show ?thesis
      using Suc.prems(2) Inr Suc.IH short
      by (auto simp: q bind_def split: if_splits sum.splits)
  qed
qed simp

lemma ZkResponse_read_same:
  assumes "multi bs = multi' bs"
  shows "ZkResponse_read B multi op bs = ZkResponse_read B multi' op bs"
proof (cases "op = Some OpCodes.Multi")
  case True
  then show ?thesis using assms by (simp add: ZkResponse_read_def last_of_def bind_def)
next
  case False
  then show ?thesis by (auto simp: ZkResponse_read_def split: option.split OpCodes.split)
qed

lemma MultiResponse_loop_fuel:
  "length bs < fuel \<Longrightarrow> length bs < fuel' \<Longrightarrow> MultiResponse_loop B fuel rs bs = MultiResponse_loop B fuel' rs bs"
proof (induction fuel arbitrary: fuel' rs bs)
  case (Suc fuel)
  then obtain k where k: "fuel' = Suc k" by (cases fuel') auto
  have short: "length rest < fuel" "length rest < k" if "MultiHeader_deserialize B bs = Inr (header, rest)"
    for header rest
    using that Suc.prems k by (auto simp: MultiHeader.de_law length_jute_bytes MultiHeader_size_9)
  have read: "ZkResponse_read B (MultiResponse_loop B fuel []) op rest = ZkResponse_read B (MultiResponse_loop B k []) op rest"
    if "MultiHeader_deserialize B bs = Inr (header, rest)" for header rest op
    using Suc.IH short [OF that] by (blast intro: ZkResponse_read_same)
  show ?case
    unfolding k MultiResponse_loop.simps
  proof (rule bind_same, goal_cases)
    case (1 header rest)
    have loop: "MultiResponse_loop B fuel rs' bs' = MultiResponse_loop B k rs' bs'"
      if "length bs' \<le> length rest" for rs' bs'
      using Suc.IH [of bs' k rs'] that short [OF 1] by simp
    show ?case
      by (auto simp: bind_def read [OF 1] loop dest!: ZkResponse_read_rest split: sum.split)
  qed
qed simp

lemma MultiResponse_faults: "faults_in response_fault (MultiResponse_deserialize B)"
  unfolding faults_in_def MultiResponse_deserialize_def
  using MultiResponse_loop_ends by blast

lemma ZkResponse_faults: "faults_in response_fault (ZkResponse_deserialize B op)"
  unfolding faults_in_def ZkResponse_deserialize_def
  using ZkResponse_read_faults MultiResponse_faults by (meson faults_inD)

text \<open>A transaction with an operation that succeeded is never read.\<close>

lemma success_not_read:
  assumes "MultiHeader.r_type h \<noteq> - 1" and "done_f h \<noteq> 1"
  shows "\<exists>f. MultiResponse_deserialize B (jute_bytes (MultiHeader_jute h) @ tail) = Inl f \<and> response_fault f"
proof (cases "MultiResponse_deserialize B (jute_bytes (MultiHeader_jute h) @ tail)")
  case (Inl f)
  then show ?thesis using MultiResponse_faults by (auto dest: faults_inD)
next
  case (Inr q)
  then obtain header rest where "jute_bytes (MultiHeader_jute h) @ tail = jute_bytes (MultiHeader_jute header) @ rest"
    "done_f header = 1 \<or> failed_header header"
    unfolding MultiResponse_deserialize_def MultiResponse_loop_step by (metis (full_types))
  then show ?thesis
    using MultiHeader.prefix_free [of h header tail rest] assms by (auto simp: failed_header_def)
qed

lemma ResponsePacket_serialize:
  "ResponsePacket_serialize_into B p buf =
    (if is_multi (response p) then Inl (Panic Todo) else Inr (buf @ jute_bytes (ResponsePacket_jute p)))"
  by (cases "response_header p")
    (simp_all add: ResponsePacket_serialize_into_def ResponsePacket_jute_def ReplyHeader.ser_law
      ZkResponse_serialize seq_def)

lemma ResponsePacket_size_exact:
  "\<not> is_multi (response p) \<Longrightarrow> \<not> is_acl (response p) \<Longrightarrow>
    ResponsePacket_size p = Inr (jute_size (ResponsePacket_jute p))"
  by (cases "response_header p")
    (simp_all add: ResponsePacket_size_def ResponsePacket_jute_def add_size_def ZkResponse_size_exact
      ReplyHeader.size_law)

end

section \<open>The size of a reply to a transaction\<close>

text \<open>What \<open>size\<close> counts for the body of a result, of which \<open>serialize_into\<close> writes nothing.\<close>

definition unwritten_size :: "ZooErrors + ZkResponse \<times> MultiHeader \<Rightarrow> nat" where
  "unwritten_size result =
     (case result of
        Inr (resp, header) \<Rightarrow> (case ZkResponse_size resp of Inr n \<Rightarrow> n | Inl _ \<Rightarrow> 0)
      | Inl _ \<Rightarrow> 0)"

lemma results_size_eq:
  "results_size rs acc = Inr n \<Longrightarrow> n = acc + 9 * length rs + sum_list (map unwritten_size rs)"
proof (induction rs arbitrary: acc)
  case (Cons result rs)
  then have "results_size rs (acc + 9 + unwritten_size result) = Inr n"
    by (auto simp: unwritten_size_def add_size_def MultiHeader_size_def ac_simps split: sum.splits prod.splits)
  from Cons.IH [OF this] show ?case by simp
qed simp

lemma MultiResponse_jute_size: "jute_size (MultiResponse_jute m) = 9 * length (results m) + 9"
  by (simp add: MultiResponse_jute_def MultiHeader_size_9 comp_def sum_list_triv)

lemma MultiResponse_size_eq:
  "MultiResponse_size m = Inr n \<Longrightarrow>
    n = length (jute_bytes (MultiResponse_jute m)) + sum_list (map unwritten_size (results m))"
  by (auto simp: MultiResponse_size_def add_size_def MultiHeader_size_def length_jute_bytes
      MultiResponse_jute_size dest: results_size_eq split: sum.splits)

end
