(* ===== verification/Decoder_Contract.thy ===== *)
theory Decoder_Contract
  imports Prelude
begin

text \<open>
  The contract of a stream decoder, the trait \<open>Decoder\<close> that the three codecs of the proxy
  implement. \<open>decode\<close> is called again and again on a buffer to which the network appends in
  chunks of any size. The locale states what a decoder owes to its caller, and shows once
  that the items it delivers depend on the bytes received and not on the chunks, or on when
  \<open>decode\<close> is called.
\<close>

section \<open>Calls of decode on a growing buffer\<close>

text \<open>
  A call returns the outcome, the new state of the codec and what it left in the buffer;
  \<open>None\<close> asks for more bytes.
\<close>

type_synonym ('c, 'a, 'e) decoder = "'c \<Rightarrow> bytes \<Rightarrow> ('a option, 'e) result \<times> 'c \<times> bytes"

text \<open>The items of up to \<open>k\<close> calls on one buffer, until one asks for more or fails.\<close>

fun deliver :: "('c, 'a, 'e) decoder \<Rightarrow> nat \<Rightarrow> 'c \<Rightarrow> bytes \<Rightarrow> 'a list" where
  "deliver dec 0 c src = []"
| "deliver dec (Suc k) c src =
     (case dec c src of (Inr (Some x), c', src') \<Rightarrow> x # deliver dec k c' src' | _ \<Rightarrow> [])"

text \<open>
  A reader: the codec, its buffer, and, as ghost fields, all bytes received so far and all
  items delivered so far.
\<close>

record ('c, 'a) reader =
  codec_of :: 'c
  buffer :: bytes
  received :: bytes
  delivered :: "'a list"

definition new_reader :: "'c \<Rightarrow> ('c, 'a) reader" where
  "new_reader c = \<lparr>codec_of = c, buffer = [], received = [], delivered = []\<rparr>"

text \<open>
  A step is the arrival of a chunk or a call of \<open>decode\<close>, in any order: whatever policy the
  caller follows, its runs are among these.
\<close>

inductive read_step :: "('c, 'a, 'e) decoder \<Rightarrow> ('c, 'a) reader \<Rightarrow> ('c, 'a) reader \<Rightarrow> bool"
  for dec where
  arrive: "read_step dec r (r\<lparr>buffer := buffer r @ chunk, received := received r @ chunk\<rparr>)"
| item: "dec (codec_of r) (buffer r) = (Inr (Some x), c', src') \<Longrightarrow>
    read_step dec r (r\<lparr>codec_of := c', buffer := src', delivered := delivered r @ [x]\<rparr>)"
| pending: "dec (codec_of r) (buffer r) = (Inr None, c', src') \<Longrightarrow>
    read_step dec r (r\<lparr>codec_of := c', buffer := src'\<rparr>)"

inductive reads :: "('c, 'a, 'e) decoder \<Rightarrow> 'c \<Rightarrow> ('c, 'a) reader \<Rightarrow> bool"
  for dec c where
  start: "reads dec c (new_reader c)"
| step: "reads dec c r \<Longrightarrow> read_step dec r r' \<Longrightarrow> reads dec c r'"

inductive_cases read_stepE: "read_step dec r r'"

section \<open>The contract\<close>

text \<open>
  \<open>more_after\<close>: once a call has an outcome, bytes that arrive behind do not change it.
  \<open>resume\<close>: a call that asked for more has lost nothing; with more bytes the next call does
  what a single call on all bytes would have done.
\<close>

locale incremental_decoder =
  fixes dec :: "('c, 'a, 'e) decoder"
    and inv :: "'c \<Rightarrow> bool"
  assumes keeps_inv: "inv c \<Longrightarrow> dec c src = (r, c', src') \<Longrightarrow> inv c'"
    and more_after: "inv c \<Longrightarrow> dec c src = (r, c', src') \<Longrightarrow> r \<noteq> Inr None \<Longrightarrow>
      dec c (src @ extra) = (r, c', src' @ extra)"
    and resume: "inv c \<Longrightarrow> dec c src = (Inr None, c', src') \<Longrightarrow>
      dec c (src @ extra) = dec c' (src' @ extra)"
begin

lemma deliver_resume:
  assumes "inv c" and "dec c src = (Inr None, c', src')"
  shows "deliver dec k c (src @ extra) = deliver dec k c' (src' @ extra)"
  by (cases k) (simp_all add: resume [OF assms])

text \<open>
  The invariant of a run: what was delivered, followed by what the codec still delivers
  from its buffer, is what one uninterrupted reading of all bytes delivers.
\<close>

lemma reads_invariant:
  assumes "reads dec c r" and "inv c"
  shows "inv (codec_of r) \<and>
    (\<forall>k extra. deliver dec (length (delivered r) + k) c (received r @ extra) =
       delivered r @ deliver dec k (codec_of r) (buffer r @ extra))"
  using assms
proof (induction rule: reads.induct)
  case start
  then show ?case by (simp add: new_reader_def)
next
  case (step r r')
  then have inv: "inv (codec_of r)" and
    eq: "\<And>k extra. deliver dec (length (delivered r) + k) c (received r @ extra) =
       delivered r @ deliver dec k (codec_of r) (buffer r @ extra)" by blast+
  from step.hyps(2) show ?case
  proof (elim read_stepE)
    fix chunk
    assume "r' = r\<lparr>buffer := buffer r @ chunk, received := received r @ chunk\<rparr>"
    then show ?thesis using inv eq by simp
  next
    fix x c' src'
    assume r': "r' = r\<lparr>codec_of := c', buffer := src', delivered := delivered r @ [x]\<rparr>"
      and run: "dec (codec_of r) (buffer r) = (Inr (Some x), c', src')"
    have "deliver dec (Suc k) (codec_of r) (buffer r @ extra) = x # deliver dec k c' (src' @ extra)"
      for k extra using more_after [OF inv run] by simp
    then show ?thesis
      using r' keeps_inv [OF inv run] eq [of "Suc _"] by simp
  next
    fix c' src'
    assume r': "r' = r\<lparr>codec_of := c', buffer := src'\<rparr>"
      and run: "dec (codec_of r) (buffer r) = (Inr None, c', src')"
    then show ?thesis
      using keeps_inv [OF inv run] eq deliver_resume [OF inv run] by simp
  qed
qed

text \<open>More bytes only add items behind those there are.\<close>

lemma deliver_more:
  "inv c \<Longrightarrow> \<exists>items. deliver dec k c (src @ extra) = deliver dec k c src @ items"
proof (induction k arbitrary: c src)
  case (Suc k)
  obtain r c' src' where run: "dec c src = (r, c', src')" by (metis prod_cases3)
  show ?case
  proof (cases "\<exists>x. r = Inr (Some x)")
    case True
    then show ?thesis
      using run more_after [OF Suc.prems run, of extra] Suc.IH [OF keeps_inv [OF Suc.prems run], of src'] by auto
  next
    case False
    then show ?thesis using run by (auto split: sum.split option.split)
  qed
qed simp

theorem chunks_do_not_matter:
  assumes "reads dec c r" and "inv c"
  shows "deliver dec (length (delivered r)) c (received r) = delivered r"
  using reads_invariant [OF assms, THEN conjunct2, rule_format, of 0 "[]"] by simp

theorem nothing_lost:
  assumes "reads dec c r" and "inv c" and "dec (codec_of r) (buffer r) = (Inr None, c', src')"
  shows "deliver dec (length (delivered r) + k) c (received r) = delivered r"
proof -
  have "deliver dec k (codec_of r) (buffer r) = []"
    using assms(3) by (cases k) simp_all
  then show ?thesis
    using reads_invariant [OF assms(1,2), THEN conjunct2, rule_format, of k "[]"] by simp
qed

end

end
