(* ===== verification/Length_Codec.thy ===== *)
theory Length_Codec
  imports Bytes_Api Decoder_Contract
begin

text \<open>
  The length-delimited framing of \<open>src/src/length_codec.rs\<close>: the builder with its settings,
  the codec with its two-state reader, \<open>decode\<close> and \<open>encode\<close>. A \<open>usize\<close> setting is a natural
  number, the \<open>isize\<close> adjustment an integer; the sum of the field's offset and length is
  taken to fit a \<open>usize\<close>. \<open>src.reserve\<close> only grows the capacity and is left out.
\<close>

section \<open>Settings\<close>

record Builder =
  max_frame_len :: nat
  length_field_len :: nat
  length_field_offset :: nat
  length_adjustment :: int
  num_skip :: "nat option"
  length_field_is_big_endian :: bool

definition Builder_new :: Builder where
  "Builder_new = \<lparr>
     max_frame_len = 8 * 1024 * 1024,
     length_field_len = 4,
     length_field_offset = 0,
     length_adjustment = 0,
     num_skip = None,
     length_field_is_big_endian = True\<rparr>"

definition Builder_big_endian :: "Builder \<Rightarrow> Builder" where
  "Builder_big_endian self = self\<lparr>length_field_is_big_endian := True\<rparr>"

definition Builder_little_endian :: "Builder \<Rightarrow> Builder" where
  "Builder_little_endian self = self\<lparr>length_field_is_big_endian := False\<rparr>"

text \<open>\<open>cfg!(target_endian = "big")\<close> is a property of the target, an argument here.\<close>

definition Builder_native_endian :: "bool \<Rightarrow> Builder \<Rightarrow> Builder" where
  "Builder_native_endian target_big self =
     (if target_big then Builder_big_endian self else Builder_little_endian self)"

definition Builder_max_frame_length :: "nat \<Rightarrow> Builder \<Rightarrow> Builder" where
  "Builder_max_frame_length val self = self\<lparr>max_frame_len := val\<rparr>"

definition Builder_length_field_length :: "nat \<Rightarrow> Builder \<Rightarrow> (Builder, 'e) result" where
  "Builder_length_field_length val self =
     (if 0 < val \<and> val \<le> 8 then Inr (self\<lparr>length_field_len := val\<rparr>)
      else Inl (Panic AssertFailed))"

text \<open>The type of the field is one of \<open>u8\<close>, \<open>u16\<close>, \<open>u32\<close>, \<open>u64\<close> and \<open>usize\<close>; its size is what counts.\<close>

datatype LengthFieldType = Field_u8 | Field_u16 | Field_u32 | Field_u64 | Field_usize

fun mem_size_of :: "LengthFieldType \<Rightarrow> nat" where
  "mem_size_of Field_u8 = 1"
| "mem_size_of Field_u16 = 2"
| "mem_size_of Field_u32 = 4"
| "mem_size_of Field_u64 = 8"
| "mem_size_of Field_usize = 8"

definition Builder_length_field_type :: "LengthFieldType \<Rightarrow> Builder \<Rightarrow> (Builder, 'e) result" where
  "Builder_length_field_type T self = Builder_length_field_length (mem_size_of T) self"

definition Builder_length_field_offset :: "nat \<Rightarrow> Builder \<Rightarrow> Builder" where
  "Builder_length_field_offset val self = self\<lparr>length_field_offset := val\<rparr>"

definition Builder_length_adjustment :: "int \<Rightarrow> Builder \<Rightarrow> Builder" where
  "Builder_length_adjustment val self = self\<lparr>length_adjustment := val\<rparr>"

definition Builder_num_skip :: "nat \<Rightarrow> Builder \<Rightarrow> Builder" where
  "Builder_num_skip val self = self\<lparr>num_skip := Some val\<rparr>"

definition num_head_bytes :: "Builder \<Rightarrow> nat" where
  "num_head_bytes self =
     (let num = length_field_offset self + length_field_len self
      in max num (case num_skip self of None \<Rightarrow> 0 | Some k \<Rightarrow> k))"

definition get_num_skip :: "Builder \<Rightarrow> nat" where
  "get_num_skip self =
     (case num_skip self of None \<Rightarrow> length_field_offset self + length_field_len self | Some k \<Rightarrow> k)"

section \<open>The codec\<close>

datatype DecodeState = Head | Data nat

record LengthDelimitedCodec =
  builder :: Builder
  state :: DecodeState

definition Builder_new_codec :: "Builder \<Rightarrow> LengthDelimitedCodec" where
  "Builder_new_codec self = \<lparr>builder = self, state = Head\<rparr>"

text \<open>
  \<open>new_read\<close>, \<open>new_write\<close> and \<open>new_framed\<close> hand such a codec to the constructors of \<open>tokio_util\<close>,
  which are arguments here.
\<close>

definition Builder_new_read ::
  "('io \<Rightarrow> LengthDelimitedCodec \<Rightarrow> 'framed_read) \<Rightarrow> 'io \<Rightarrow> Builder \<Rightarrow> 'framed_read" where
  "Builder_new_read FramedRead_new upstream self = FramedRead_new upstream (Builder_new_codec self)"

definition Builder_new_write ::
  "('io \<Rightarrow> LengthDelimitedCodec \<Rightarrow> 'framed_write) \<Rightarrow> 'io \<Rightarrow> Builder \<Rightarrow> 'framed_write" where
  "Builder_new_write FramedWrite_new io self = FramedWrite_new io (Builder_new_codec self)"

definition Builder_new_framed ::
  "('io \<Rightarrow> LengthDelimitedCodec \<Rightarrow> 'framed) \<Rightarrow> 'io \<Rightarrow> Builder \<Rightarrow> 'framed" where
  "Builder_new_framed Framed_new io self = Framed_new io (Builder_new_codec self)"

definition LengthDelimitedCodec_new :: LengthDelimitedCodec where
  "LengthDelimitedCodec_new = \<lparr>builder = Builder_new, state = Head\<rparr>"

definition LengthDelimitedCodec_builder :: Builder where
  "LengthDelimitedCodec_builder = Builder_new"

definition LengthDelimitedCodec_default :: LengthDelimitedCodec where
  "LengthDelimitedCodec_default = LengthDelimitedCodec_new"

definition Builder_default :: Builder where
  "Builder_default = Builder_new"

definition max_frame_length :: "LengthDelimitedCodec \<Rightarrow> nat" where
  "max_frame_length self = max_frame_len (builder self)"

definition set_max_frame_length :: "nat \<Rightarrow> LengthDelimitedCodec \<Rightarrow> LengthDelimitedCodec" where
  "set_max_frame_length val self = self\<lparr>builder := Builder_max_frame_length val (builder self)\<rparr>"

text \<open>\<open>io::Error::new(kind, source)\<close>\<close>

datatype ErrorKind = InvalidData | InvalidInput

datatype io_source = LengthDelimitedCodecError | Message string

datatype io_error = IoError ErrorKind io_source

text \<open>The texts of \<open>impl fmt::Debug\<close> and \<open>impl fmt::Display\<close> for \<open>LengthDelimitedCodecError\<close>.\<close>

definition LengthDelimitedCodecError_debug :: string where
  "LengthDelimitedCodecError_debug = ''LengthDelimitedCodecError''"

definition LengthDelimitedCodecError_display :: string where
  "LengthDelimitedCodecError_display = ''frame size too big''"

definition overflow_error :: io_error where
  "overflow_error = IoError InvalidInput (Message ''provided length would overflow after adjustment'')"

text \<open>
  The length field is read through a cursor, so the buffer itself is only advanced when the
  length is accepted.
\<close>

definition read_length_field :: "bytes_crate \<Rightarrow> Builder \<Rightarrow> (nat, io_error) deserializer" where
  "read_length_field B self =
     bind (advance B (length_field_offset self)) (\<lambda>_.
       if length_field_is_big_endian self then get_uint B (length_field_len self)
       else get_uint_le B (length_field_len self))"

definition decode_head :: "bytes_crate \<Rightarrow> Builder \<Rightarrow> (nat option, io_error) deserializer" where
  "decode_head B self src =
     (if length src < num_head_bytes self then Inr (None, src)
      else case read_length_field B self src of
        Inl f \<Rightarrow> Inl f
      | Inr (n, _) \<Rightarrow>
          if max_frame_len self < n then Inl (Err (IoError InvalidData LengthDelimitedCodecError))
          else (case (if length_adjustment self < 0 then checked_sub n (nat (- length_adjustment self))
                      else checked_add n (nat (length_adjustment self))) of
            None \<Rightarrow> Inl (Err overflow_error)
          | Some n \<Rightarrow> bind (advance B (get_num_skip self)) (\<lambda>_. Ok (Some n)) src))"

definition decode_data :: "bytes_crate \<Rightarrow> nat \<Rightarrow> (bytes option, io_error) deserializer" where
  "decode_data B n src =
     (if length src < n then Inr (None, src)
      else bind (split_to B n) (\<lambda>data. Ok (Some data)) src)"

text \<open>The second half of \<open>decode\<close>: the payload, once its length \<open>n\<close> is known.\<close>

definition decode_payload ::
  "bytes_crate \<Rightarrow> nat \<Rightarrow> (LengthDelimitedCodec, bytes \<times> nat, io_error) decoder" where
  "decode_payload B n self src =
     (case decode_data B n src of
        Inl f \<Rightarrow> (Inl f, self, src)
      | Inr (Some data, src') \<Rightarrow> (Inr (Some (data, n)), self\<lparr>state := Head\<rparr>, src')
      | Inr (None, src') \<Rightarrow> (Inr None, self, src'))"

definition LengthDelimitedCodec_decode ::
  "bytes_crate \<Rightarrow> (LengthDelimitedCodec, bytes \<times> nat, io_error) decoder" where
  "LengthDelimitedCodec_decode B self src =
     (case state self of
        Head \<Rightarrow>
          (case decode_head B (builder self) src of
            Inl f \<Rightarrow> (Inl f, self, src)
          | Inr (Some n, src') \<Rightarrow> decode_payload B n (self\<lparr>state := Data n\<rparr>) src'
          | Inr (None, src') \<Rightarrow> (Inr None, self, src'))
      | Data n \<Rightarrow> decode_payload B n self src)"

definition LengthDelimitedCodec_encode ::
  "bytes_crate \<Rightarrow> LengthDelimitedCodec \<Rightarrow> bytes \<Rightarrow> io_error serializer" where
  "LengthDelimitedCodec_encode B self data dst =
     (let b = builder self; n = length data in
      if max_frame_len b < n then Inl (Err (IoError InvalidInput LengthDelimitedCodecError))
      else case (if length_adjustment b < 0 then checked_add n (nat (- length_adjustment b))
                 else checked_sub n (nat (length_adjustment b))) of
        None \<Rightarrow> Inl (Err overflow_error)
      | Some n \<Rightarrow>
          seq (if length_field_is_big_endian b then put_uint B n (length_field_len b)
               else put_uint_le B n (length_field_len b))
              (extend_from_slice B data) dst)"

section \<open>Settings are sound\<close>

text \<open>
  Every builder that a caller can make has a length field of one to eight bytes: the only
  method that changes it asserts so. (\<open>max_frame_len\<close> is a \<open>usize\<close>.)
\<close>

definition builder_ok :: "Builder \<Rightarrow> bool" where
  "builder_ok b \<longleftrightarrow>
     0 < length_field_len b \<and> length_field_len b \<le> 8 \<and> max_frame_len b < 2 ^ 64"

inductive configured :: "Builder \<Rightarrow> bool" where
  new: "configured Builder_new"
| big: "configured b \<Longrightarrow> configured (Builder_big_endian b)"
| little: "configured b \<Longrightarrow> configured (Builder_little_endian b)"
| native: "configured b \<Longrightarrow> configured (Builder_native_endian target_big b)"
| max_len: "configured b \<Longrightarrow> n < 2 ^ 64 \<Longrightarrow> configured (Builder_max_frame_length n b)"
| field_len: "configured b \<Longrightarrow> Builder_length_field_length n b = (Inr b' :: (Builder, io_error) result) \<Longrightarrow>
    configured b'"
| field_type: "configured b \<Longrightarrow> Builder_length_field_type T b = (Inr b' :: (Builder, io_error) result) \<Longrightarrow>
    configured b'"
| field_offset: "configured b \<Longrightarrow> configured (Builder_length_field_offset n b)"
| adjustment: "configured b \<Longrightarrow> configured (Builder_length_adjustment z b)"
| skip: "configured b \<Longrightarrow> configured (Builder_num_skip n b)"

lemmas builder_defs =
  Builder_new_def Builder_big_endian_def Builder_little_endian_def Builder_native_endian_def
  Builder_max_frame_length_def Builder_length_field_length_def Builder_length_field_type_def
  Builder_length_field_offset_def Builder_length_adjustment_def Builder_num_skip_def

lemma configured_ok: "configured b \<Longrightarrow> builder_ok b"
  by (induction rule: configured.induct) (auto simp: builder_ok_def builder_defs split: if_splits)

lemma defaults_configured:
  "configured LengthDelimitedCodec_builder" "configured Builder_default"
  "LengthDelimitedCodec_default = Builder_new_codec Builder_new"
  by (simp_all add: LengthDelimitedCodec_builder_def Builder_default_def LengthDelimitedCodec_default_def
      LengthDelimitedCodec_new_def Builder_new_codec_def configured.new)

definition codec_ok :: "LengthDelimitedCodec \<Rightarrow> bool" where
  "codec_ok c \<longleftrightarrow> builder_ok (builder c)"

section \<open>Decoding\<close>

lemma head_bytes_cover:
  "length_field_offset b + length_field_len b \<le> num_head_bytes b"
  "get_num_skip b \<le> num_head_bytes b"
  by (simp_all add: num_head_bytes_def get_num_skip_def Let_def split: option.splits)

text \<open>The value of the length field of a buffer that is long enough to hold the head.\<close>

definition length_field :: "Builder \<Rightarrow> bytes \<Rightarrow> nat" where
  "length_field b src =
     (let field = take (length_field_len b) (drop (length_field_offset b) src)
      in be_nat (if length_field_is_big_endian b then field else rev field))"

text \<open>The payload length that a length field stands for, \<open>None\<close> where the head is refused.\<close>

definition adjusted :: "Builder \<Rightarrow> nat \<Rightarrow> nat option" where
  "adjusted b n =
     (if length_adjustment b < 0 then checked_sub n (nat (- length_adjustment b))
      else checked_add n (nat (length_adjustment b)))"

lemma length_field_append:
  "num_head_bytes b \<le> length src \<Longrightarrow> length_field b (src @ extra) = length_field b src"
  using head_bytes_cover [of b] by (simp add: length_field_def)

context bytes_laws
begin

lemma read_length_field_eq:
  assumes "builder_ok b" and "num_head_bytes b \<le> length src"
  shows "\<exists>rest. read_length_field B b src = Inr (length_field b src, rest)"
proof -
  have "length_field_offset b \<le> length src"
    "length_field_len b \<le> length (drop (length_field_offset b) src)"
    using assms(2) head_bytes_cover [of b] by simp_all
  then show ?thesis
    using assms(1)
    by (auto simp: read_length_field_def bind_def advance_eq get_uint_eq get_uint_le_eq
        builder_ok_def length_field_def Let_def)
qed

lemma decode_head_eq:
  assumes "builder_ok b"
  shows "decode_head B b src =
    (if length src < num_head_bytes b then Inr (None, src)
     else if max_frame_len b < length_field b src
       then Inl (Err (IoError InvalidData LengthDelimitedCodecError))
     else case adjusted b (length_field b src) of
       None \<Rightarrow> Inl (Err overflow_error)
     | Some n \<Rightarrow> Inr (Some n, drop (get_num_skip b) src))"
proof (cases "length src < num_head_bytes b")
  case True
  then show ?thesis by (simp add: decode_head_def)
next
  case False
  then obtain rest where rd: "read_length_field B b src = Inr (length_field b src, rest)"
    using read_length_field_eq [OF assms, of src] by auto
  have "get_num_skip b \<le> length src"
    using False head_bytes_cover(2) [of b] by simp
  then show ?thesis
    using False rd by (simp add: decode_head_def adjusted_def bind_def advance_eq split: option.splits)
qed

lemma decode_data_eq:
  "decode_data B n src = Inr (if length src < n then (None, src) else (Some (take n src), drop n src))"
  by (simp add: decode_data_def bind_def split_to_eq)

lemma decode_payload_eq:
  "decode_payload B n c src =
     (if length src < n then (Inr None, c, src)
      else (Inr (Some (take n src, n)), c\<lparr>state := Head\<rparr>, drop n src))"
  by (simp add: decode_payload_def decode_data_eq)

text \<open>\<open>decode\<close> in one equation: what it returns, and what it leaves behind.\<close>

lemma decode_eq:
  assumes "codec_ok c"
  shows "LengthDelimitedCodec_decode B c src =
    (case state c of
       Data n \<Rightarrow> decode_payload B n c src
     | Head \<Rightarrow>
         if length src < num_head_bytes (builder c) then (Inr None, c, src)
         else if max_frame_len (builder c) < length_field (builder c) src
           then (Inl (Err (IoError InvalidData LengthDelimitedCodecError)), c, src)
         else case adjusted (builder c) (length_field (builder c) src) of
           None \<Rightarrow> (Inl (Err overflow_error), c, src)
         | Some n \<Rightarrow>
             decode_payload B n (c\<lparr>state := Data n\<rparr>) (drop (get_num_skip (builder c)) src))"
  using decode_head_eq [of "builder c" src] assms
  by (auto simp: LengthDelimitedCodec_decode_def codec_ok_def split: DecodeState.splits option.splits)

lemma decode_keeps_builder:
  assumes "codec_ok c" and "LengthDelimitedCodec_decode B c src = (r, c', src')"
  shows "builder c' = builder c"
  using assms(2) decode_eq [OF assms(1), of src]
  by (auto simp: decode_payload_eq split: DecodeState.splits option.splits if_splits)

text \<open>Bytes that arrive behind do not change what a call that had enough of them did.\<close>

lemma decode_payload_more:
  assumes "decode_payload B n c src = (r, c', src')"
  shows "r \<noteq> Inr None \<Longrightarrow> decode_payload B n c (src @ extra) = (r, c', src' @ extra)"
    and "r = Inr None \<Longrightarrow> c' = c \<and> src' = src \<and> length src < n"
  using assms by (auto simp: decode_payload_eq split: if_splits)

lemma decode_more:
  assumes ok: "codec_ok c" and run: "LengthDelimitedCodec_decode B c src = (r, c', src')"
  shows "if r = Inr None
    then LengthDelimitedCodec_decode B c (src @ extra) = LengthDelimitedCodec_decode B c' (src' @ extra)
    else LengthDelimitedCodec_decode B c (src @ extra) = (r, c', src' @ extra)"
proof (cases "state c")
  case (Data n)
  have run': "decode_payload B n c src = (r, c', src')"
    using run Data by (simp add: decode_eq [OF ok])
  show ?thesis
    using decode_payload_more [OF run'] Data by (auto simp: decode_eq [OF ok])
next
  case Head
  show ?thesis
  proof (cases "length src < num_head_bytes (builder c)")
    case True
    then show ?thesis using run Head by (auto simp: decode_eq [OF ok, of src])
  next
    case False
    let ?n = "length_field (builder c) src" and ?skip = "get_num_skip (builder c)"
    have skip: "drop ?skip (src @ extra) = drop ?skip src @ extra"
      using head_bytes_cover(2) [of "builder c"] False by simp
    have field: "length_field (builder c) (src @ extra) = ?n"
      using False by (intro length_field_append) simp
    note here = decode_eq [OF ok, of src] decode_eq [OF ok, of "src @ extra"]
    show ?thesis
    proof (cases "max_frame_len (builder c) < ?n \<or> adjusted (builder c) ?n = None")
      case True
      then show ?thesis using run Head False field by (auto simp: here)
    next
      case False': False
      then obtain n where n: "adjusted (builder c) ?n = Some n" by auto
      have run': "decode_payload B n (c\<lparr>state := Data n\<rparr>) (drop ?skip src) = (r, c', src')"
        using run Head False False' n by (simp add: here)
      have more: "LengthDelimitedCodec_decode B c (src @ extra) =
          decode_payload B n (c\<lparr>state := Data n\<rparr>) (drop ?skip src @ extra)"
        using Head False False' n field by (simp add: here skip del: drop_append)
      have "codec_ok (c\<lparr>state := Data n\<rparr>)" using ok by (simp add: codec_ok_def)
      then have data: "LengthDelimitedCodec_decode B (c\<lparr>state := Data n\<rparr>) bs =
          decode_payload B n (c\<lparr>state := Data n\<rparr>) bs" for bs
        by (simp add: decode_eq)
      show ?thesis
        using decode_payload_more [OF run'] by (auto simp: more data)
    qed
  qed
qed

end

text \<open>The codec keeps the contract of a stream decoder.\<close>

sublocale bytes_laws \<subseteq> framing: incremental_decoder "LengthDelimitedCodec_decode B" codec_ok
proof unfold_locales
  fix c src r c' src' extra
  assume ok: "codec_ok c" and run: "LengthDelimitedCodec_decode B c src = (r, c', src')"
  show "codec_ok c'"
    using decode_keeps_builder [OF ok run] ok by (simp add: codec_ok_def)
  show "r \<noteq> Inr None \<Longrightarrow> LengthDelimitedCodec_decode B c (src @ extra) = (r, c', src' @ extra)"
    using decode_more [OF ok run, of extra] by simp
next
  fix c src c' src' extra
  assume ok: "codec_ok c" and run: "LengthDelimitedCodec_decode B c src = (Inr None, c', src')"
  show "LengthDelimitedCodec_decode B c (src @ extra) = LengthDelimitedCodec_decode B c' (src' @ extra)"
    using decode_more [OF ok run, of extra] by simp
qed

context bytes_laws
begin

lemmas framing_nothing_lost = framing.nothing_lost

end

section \<open>Frames\<close>

text \<open>
  The value that \<open>encode\<close> writes into the length field for a payload of \<open>n\<close> bytes, and the
  frame it makes. \<open>plain\<close> is what makes frames readable again: the length field comes first
  and nothing else is in the head, and the value fits the field and the limit of the reader.
\<close>

definition field_value :: "Builder \<Rightarrow> nat \<Rightarrow> nat option" where
  "field_value b n =
     (if length_adjustment b < 0 then checked_add n (nat (- length_adjustment b))
      else checked_sub n (nat (length_adjustment b)))"

definition frame :: "Builder \<Rightarrow> bytes \<Rightarrow> bytes" where
  "frame b data =
     (case field_value b (length data) of
        None \<Rightarrow> []
      | Some m \<Rightarrow>
          (let field = be_bytes (length_field_len b) m
           in (if length_field_is_big_endian b then field else rev field) @ data))"

definition plain :: "Builder \<Rightarrow> bytes \<Rightarrow> bool" where
  "plain b data \<longleftrightarrow> length_field_offset b = 0 \<and> num_skip b = None \<and> length data \<le> max_frame_len b \<and>
     (case field_value b (length data) of
        None \<Rightarrow> False
      | Some m \<Rightarrow> m < 256 ^ length_field_len b \<and> m \<le> max_frame_len b)"

lemma adjusted_field_value:
  assumes "field_value b n = Some m" and "n < 2 ^ 64"
  shows "adjusted b m = Some n"
  using assms
  by (auto simp: field_value_def adjusted_def checked_add_def checked_sub_def split: if_splits)

text \<open>No payload is longer than the limit allows after the adjustment.\<close>

definition pending_bounded :: "LengthDelimitedCodec \<Rightarrow> bool" where
  "pending_bounded c \<longleftrightarrow>
     (case state c of Head \<Rightarrow> True
      | Data n \<Rightarrow> int n \<le> int (max_frame_len (builder c)) + length_adjustment (builder c))"

lemma adjusted_bounded:
  "adjusted b m = Some n \<Longrightarrow> m \<le> max_frame_len b \<Longrightarrow>
    int n \<le> int (max_frame_len b) + length_adjustment b"
  by (auto simp: adjusted_def checked_add_def checked_sub_def split: if_splits)

context bytes_laws
begin

lemma encode_eq:
  assumes "codec_ok c"
  shows "LengthDelimitedCodec_encode B c data dst =
    (if max_frame_len (builder c) < length data
     then Inl (Err (IoError InvalidInput LengthDelimitedCodecError))
     else if field_value (builder c) (length data) = None then Inl (Err overflow_error)
     else Inr (dst @ frame (builder c) data))"
proof -
  have "m < 2 ^ 64" if "field_value (builder c) (length data) = Some m"
    "\<not> max_frame_len (builder c) < length data" for m
    using that assms
    by (auto simp: field_value_def checked_add_def checked_sub_def codec_ok_def builder_ok_def
        split: if_splits)
  then show ?thesis
    using assms
    by (auto simp: LengthDelimitedCodec_encode_def Let_def frame_def field_value_def [symmetric]
        seq_def put_uint_eq put_uint_le_eq extend_from_slice_eq codec_ok_def builder_ok_def
        split: option.splits)
qed

lemma decode_frame:
  assumes ok: "codec_ok c" and "state c = Head" and plain: "plain (builder c) data"
  shows "LengthDelimitedCodec_decode B c (frame (builder c) data @ rest) =
    (Inr (Some (data, length data)), c, rest)"
proof -
  let ?b = "builder c"
  obtain m where m: "field_value ?b (length data) = Some m" "m < 256 ^ length_field_len ?b"
    "m \<le> max_frame_len ?b"
    using plain by (auto simp: plain_def split: option.splits)
  define field where "field = (if length_field_is_big_endian ?b then be_bytes (length_field_len ?b) m
    else rev (be_bytes (length_field_len ?b) m))"
  have frame: "frame ?b data = field @ data" by (simp add: frame_def m field_def Let_def)
  have len: "length field = length_field_len ?b" by (simp add: field_def)
  have head: "num_head_bytes ?b = length field" "get_num_skip ?b = length field"
    "length_field_offset ?b = 0"
    using plain len by (simp_all add: plain_def num_head_bytes_def get_num_skip_def)
  have field_is: "length_field ?b (field @ data @ rest) = m"
    using m(2) len by (simp add: length_field_def head) (simp add: field_def be_nat_be_bytes)
  have "length data < 2 ^ 64"
    using plain ok by (auto simp: plain_def codec_ok_def builder_ok_def)
  then have "adjusted ?b m = Some (length data)" using adjusted_field_value m(1) by simp
  then show ?thesis
    using \<open>state c = Head\<close> m(3)
    by (simp add: decode_eq [OF ok] frame head field_is decode_payload_eq)
qed

lemma decode_nothing:
  assumes "codec_ok c" and "state c = Head"
  shows "LengthDelimitedCodec_decode B c [] = (Inr None, c, [])"
proof -
  have "0 < num_head_bytes (builder c)"
    using head_bytes_cover(1) [of "builder c"] assms(1) by (simp add: codec_ok_def builder_ok_def)
  then show ?thesis using assms by (simp add: decode_eq)
qed

lemma deliver_frames:
  assumes "codec_ok c" and "state c = Head" and "\<forall>data \<in> set ds. plain (builder c) data"
  shows "deliver (LengthDelimitedCodec_decode B) k c (concat (map (frame (builder c)) ds)) =
    take k (map (\<lambda>data. (data, length data)) ds)"
  using assms(3)
proof (induction ds arbitrary: k)
  case Nil
  then show ?case by (cases k) (simp_all add: decode_nothing assms)
next
  case (Cons data ds)
  then show ?case by (cases k) (simp_all add: decode_frame assms)
qed

text \<open>Framing is a reliable transport: however the network cuts the stream, the reader
  delivers the payloads that were framed, in order, up to the point it has reached.\<close>

lemma frames_arrive:
  assumes "reads (LengthDelimitedCodec_decode B) c r" and "codec_ok c" and "state c = Head"
    and "\<forall>data \<in> set ds. plain (builder c) data"
    and "received r @ on_the_way = concat (map (frame (builder c)) ds)"
  shows "delivered r = map (\<lambda>data. (data, length data)) (take (length (delivered r)) ds)"
  using framing.reads_invariant [OF assms(1,2), THEN conjunct2, rule_format, of 0 on_the_way]
    deliver_frames [OF assms(2-4), of "length (delivered r)"] assms(5)
  by (simp add: take_map)

text \<open>The codec never panics, and a refused head leaves codec and buffer as they were.\<close>

lemma decode_refuses:
  assumes "codec_ok c" and "LengthDelimitedCodec_decode B c src = (Inl f, c', src')"
  shows "(f = Err (IoError InvalidData LengthDelimitedCodecError) \<or> f = Err overflow_error) \<and>
    c' = c \<and> src' = src \<and> state c = Head"
  using assms(2)
  by (auto simp: decode_eq [OF assms(1)] decode_payload_eq split: DecodeState.splits option.splits if_splits)

text \<open>A change of the limit spares the frame in progress.\<close>

lemma limit_change:
  assumes "state c = Data n" and "LengthDelimitedCodec_decode B c src = (r, c', src')"
  shows "LengthDelimitedCodec_decode B (set_max_frame_length val c) src =
    (r, set_max_frame_length val c', src')"
  using assms
  by (auto simp: LengthDelimitedCodec_decode_def set_max_frame_length_def decode_payload_eq split: if_splits)

lemma decode_payload_bounded:
  assumes "decode_payload B n c src = (Inr x, c', src')" and "state c = Data n" and "pending_bounded c"
  shows "pending_bounded c' \<and> (\<forall>data k. x = Some (data, k) \<longrightarrow> k = length data \<and>
    int k \<le> int (max_frame_len (builder c)) + length_adjustment (builder c))"
  using assms by (auto simp: decode_payload_eq pending_bounded_def split: if_splits)

lemma decode_bounded:
  assumes ok: "codec_ok c" and run: "LengthDelimitedCodec_decode B c src = (Inr x, c', src')"
    and "pending_bounded c"
  shows "pending_bounded c' \<and> (\<forall>data k. x = Some (data, k) \<longrightarrow> k = length data \<and>
    int k \<le> int (max_frame_len (builder c)) + length_adjustment (builder c))"
proof (cases "state c")
  case (Data n)
  then show ?thesis
    using decode_payload_bounded [of n c src x c' src'] run assms(3) by (simp add: decode_eq [OF ok])
next
  case Head
  then consider "x = None" "c' = c" | n where "adjusted (builder c) (length_field (builder c) src) = Some n"
    "length_field (builder c) src \<le> max_frame_len (builder c)"
    "decode_payload B n (c\<lparr>state := Data n\<rparr>) (drop (get_num_skip (builder c)) src) = (Inr x, c', src')"
    using run by (auto simp: decode_eq [OF ok] split: option.splits if_splits)
  then show ?thesis
  proof cases
    case 1
    then show ?thesis using assms(3) by simp
  next
    case 2
    then have "pending_bounded (c\<lparr>state := Data n\<rparr>)"
      using adjusted_bounded by (simp add: pending_bounded_def)
    then show ?thesis
      using decode_payload_bounded [OF 2(3)] by simp
  qed
qed

text \<open>
  What \<open>encode\<close> has written is read back, whatever follows, exactly when nothing but the field is
  skipped and the value that was written fits the field and the limit. A value that does not
  fit the field is cut off by \<open>encode\<close>, which does not report it.
\<close>

lemma adjusted_inj:
  assumes "adjusted b m = Some n" and "adjusted b m' = Some n"
  shows "m = m'"
  using assms by (auto simp: adjusted_def checked_add_def checked_sub_def split: if_splits)

lemma decoded_iff:
  assumes ok: "codec_ok c" and "state c = Head" and "length_field_offset (builder c) = 0"
    and enc: "LengthDelimitedCodec_encode B c data [] = Inr out"
  shows "(\<forall>rest. LengthDelimitedCodec_decode B c (out @ rest) = (Inr (Some (data, length data)), c, rest)) \<longleftrightarrow>
    get_num_skip (builder c) = length_field_len (builder c) \<and>
    (\<exists>m. field_value (builder c) (length data) = Some m \<and> m < 256 ^ length_field_len (builder c) \<and>
       m \<le> max_frame_len (builder c))" (is "?L \<longleftrightarrow> ?R")
proof -
  let ?b = "builder c"
  obtain m where m: "field_value ?b (length data) = Some m" and out: "out = frame ?b data" and
    short: "length data \<le> max_frame_len ?b"
    using enc by (auto simp: encode_eq [OF ok] split: if_splits)
  define field where "field = (if length_field_is_big_endian ?b then be_bytes (length_field_len ?b) m
    else rev (be_bytes (length_field_len ?b) m))"
  have frame: "out = field @ data" by (simp add: out frame_def m field_def Let_def)
  have len: "length field = length_field_len ?b" by (simp add: field_def)
  have field_is: "length_field ?b (field @ data @ rest) = m mod 256 ^ length_field_len ?b" for rest
    using len assms(3) by (simp add: length_field_def) (simp add: field_def be_nat_be_bytes)
  have "length data < 2 ^ 64" using short ok by (auto simp: codec_ok_def builder_ok_def)
  then have adj: "adjusted ?b m = Some (length data)" using adjusted_field_value m by simp
  have head: "num_head_bytes ?b = max (length_field_len ?b) (get_num_skip ?b)"
    using assms(3) by (auto simp: num_head_bytes_def get_num_skip_def max_def split: option.split)
  show ?thesis
  proof
    assume L: ?L
    define rest :: bytes where "rest = replicate (Suc (num_head_bytes ?b)) 0"
    let ?k = "m mod 256 ^ length_field_len ?b"
    have "LengthDelimitedCodec_decode B c (field @ data @ rest) = (Inr (Some (data, length data)), c, rest)"
      using L by (simp add: frame)
    moreover have "\<not> length (field @ data @ rest) < num_head_bytes ?b" by (simp add: rest_def)
    ultimately have "?k \<le> max_frame_len ?b" and n: "adjusted ?b ?k = Some (length data)" and
      rest: "drop (length data) (drop (get_num_skip ?b) (field @ data @ rest)) = rest"
      using \<open>state c = Head\<close>
      by (auto simp: decode_eq [OF ok] field_is decode_payload_eq simp del: drop_append drop_drop
          split: if_splits option.splits)
    moreover have "?k = m" by (rule adjusted_inj [OF n adj])
    moreover from arg_cong [OF rest, of length] have "get_num_skip ?b = length field"
      unfolding rest_def length_drop length_append length_replicate by arith
    moreover have "(0 :: nat) < 256 ^ length_field_len ?b" by simp
    ultimately show ?R using m len by (metis mod_less_divisor)
  next
    assume R: ?R
    then show ?L
      using m adj \<open>state c = Head\<close> by (auto simp: decode_eq [OF ok] frame head field_is len decode_payload_eq)
  qed
qed

end

end
