(* ===== verification/Packet_Codecs.thy ===== *)
theory Packet_Codecs
  imports Request_Codec Response_Codec Length_Codec
begin

text \<open>
  The two packet codecs of \<open>src/src/codec.rs\<close>. \<open>ServerPacketCodec\<close> faces the client: it reads
  requests and writes replies. \<open>ClientPacketCodec\<close> faces the backend: it writes requests,
  remembers the opcode of each request by its transaction id, and reads replies with the
  help of that table. Both sit on one configuration of the length-delimited codec. Log calls
  are left out.
\<close>

section \<open>Helpers\<close>

definition ensure_min_length :: "i32 \<Rightarrow> i32 \<Rightarrow> (unit, ZkError) result" where
  "ensure_min_length len least = (if len <s least then Inl (Panic ExplicitPanic) else Inr ())"

definition ensure_min_length_bytes :: "i32 \<Rightarrow> (unit, ZkError) deserializer" where
  "ensure_min_length_bytes least bytes =
     (case ensure_min_length (usize_as_i32 (length bytes)) least of
        Inl f \<Rightarrow> Inl f | Inr u \<Rightarrow> Inr (u, bytes))"

definition ensure_max_length_bytes :: "(unit, ZkError) deserializer" where
  "ensure_max_length_bytes bytes = Inr ((), bytes)"

definition ensure_max_len :: "nat \<Rightarrow> (unit, ZkError) result" where
  "ensure_max_len len = Inr ()"

definition maybe_read_bool :: "bytes_crate \<Rightarrow> (bool, ZkError) deserializer" where
  "maybe_read_bool B bytes =
     (if 1 \<le> length bytes then bind (get_u8 B) (\<lambda>b. Ok (b = 1)) bytes else Ok False bytes)"

text \<open>\<open>i32::from_be_bytes(src[..4].try_into().unwrap())\<close>, which leaves \<open>src\<close> as it is.\<close>

definition peek_xid :: "(i32, ZkError) deserializer" where
  "peek_xid src =
     (if length src < 4 then Inl (Panic SliceIndex) else Inr (i32_from_be_bytes (take 4 src), src))"

definition map_err :: "('e \<Rightarrow> 'f) \<Rightarrow> 'e fault \<Rightarrow> 'f fault" where
  "map_err g f = (case f of fault.Err e \<Rightarrow> fault.Err (g e) | Panic p \<Rightarrow> Panic p | Diverge \<Rightarrow> Diverge)"

section \<open>The configuration\<close>

definition LENGTH_DELIMITED_CODEC :: "(LengthDelimitedCodec, ZkError) result" where
  "LENGTH_DELIMITED_CODEC =
     (case Builder_length_field_length 4 (Builder_max_frame_length (1 * 1024 * 1024) Builder_new) of
        Inl f \<Rightarrow> Inl f
      | Inr b \<Rightarrow> Inr (Builder_new_codec (Builder_big_endian (Builder_length_adjustment 0
          (Builder_length_field_offset 0 b)))))"

record ClientPacketCodec =
  inner :: LengthDelimitedCodec
  requests_by_xid :: "i32 \<rightharpoonup> OpCodes"

record ServerPacketCodec =
  inner :: LengthDelimitedCodec

definition ClientPacketCodec_new :: "(i32 \<rightharpoonup> OpCodes) \<Rightarrow> (ClientPacketCodec, ZkError) result" where
  "ClientPacketCodec_new m =
     (case LENGTH_DELIMITED_CODEC of
        Inl f \<Rightarrow> Inl f
      | Inr c \<Rightarrow> Inr \<lparr>ClientPacketCodec.inner = c, requests_by_xid = m\<rparr>)"

definition ServerPacketCodec_new :: "(ServerPacketCodec, ZkError) result" where
  "ServerPacketCodec_new =
     (case LENGTH_DELIMITED_CODEC of
        Inl f \<Rightarrow> Inl f | Inr c \<Rightarrow> Inr \<lparr>ServerPacketCodec.inner = c\<rparr>)"

section \<open>Requests from the client\<close>

text \<open>\<open>return Ok(Some(RequestPacket { request_header: Some(RequestHeader { xid, type }), request }))\<close>\<close>

definition packet :: "i32 \<Rightarrow> i32 \<Rightarrow> Request \<Rightarrow> (RequestPacket option, ZkError) deserializer" where
  "packet x t req =
     Ok (Some \<lparr>request_header = Some \<lparr>RequestHeader.xid = x, r_type = t\<rparr>, request = req\<rparr>)"

text \<open>The body of a data request, by its opcode.\<close>

definition decode_data_body ::
  "bytes_crate \<Rightarrow> OpCodes \<Rightarrow> i32 \<Rightarrow> i32 \<Rightarrow> (RequestPacket option, ZkError) deserializer" where
  "decode_data_body B opcode x t =
     (case opcode of
        OpCodes.GetData \<Rightarrow> bind (GetDataRequest_deserialize B) (\<lambda>req. packet x t (Request.GetData req))
      | OpCodes.CreateTtl \<Rightarrow> bind (CreateTTLRequest_deserialize B) (\<lambda>req. packet x t (Request.CreateTTL req))
      | OpCodes.Create \<Rightarrow> bind (CreateRequest_deserialize B) (\<lambda>req. packet x t (Request.Create req))
      | OpCodes.Create2 \<Rightarrow> bind (CreateRequest_deserialize B) (\<lambda>req. packet x t (Request.Create req))
      | OpCodes.CreateContainer \<Rightarrow> bind (CreateRequest_deserialize B) (\<lambda>req. packet x t (Request.Create req))
      | OpCodes.SetData \<Rightarrow> bind (SetDataRequest_deserialize B) (\<lambda>req. packet x t (Request.SetData req))
      | OpCodes.GetChildren \<Rightarrow>
          bind (GetChildrenRequest_deserialize B) (\<lambda>req. packet x t (Request.GetChildren req))
      | OpCodes.GetChildren2 \<Rightarrow>
          bind (GetChildren2Request_deserialize B) (\<lambda>req. packet x t (Request.GetChildren2 req))
      | OpCodes.Delete \<Rightarrow> bind (DeleteRequest_deserialize B) (\<lambda>req. packet x t (Request.Delete req))
      | OpCodes.Exists \<Rightarrow> bind (ExistsRequest_deserialize B) (\<lambda>req. packet x t (Request.Exists req))
      | OpCodes.GetAcl \<Rightarrow> bind (GetACLRequest_deserialize B) (\<lambda>req. packet x t (Request.GetAcl req))
      | OpCodes.SetAcl \<Rightarrow> bind (SetACLRequest_deserialize B) (\<lambda>req. packet x t (Request.SetAcl req))
      | OpCodes.Close \<Rightarrow> packet x t Request.Close
      | OpCodes.SetAuth \<Rightarrow> bind (AuthPacket_deserialize B) (\<lambda>req. packet x t (Request.Auth req))
      | OpCodes.SetWatches \<Rightarrow> bind (SetWatches_deserialize B) (\<lambda>req. packet x t (Request.SetWatches req))
      | OpCodes.CheckWatches \<Rightarrow>
          bind (CheckWatchesRequest_deserialize B) (\<lambda>req. packet x t (Request.CheckWatches req))
      | OpCodes.WhoAmI \<Rightarrow> bind assert_empty (\<lambda>_. packet x t Request.Whoami)
      | OpCodes.Multi \<Rightarrow>
          bind (MultiRequest_deserialize B) (\<lambda>req. bind assert_empty (\<lambda>_. packet x t (Request.Multi req)))
      | OpCodes.Sync \<Rightarrow>
          bind (SyncRequest_deserialize B) (\<lambda>req. bind assert_empty (\<lambda>_. packet x t (Request.Sync req)))
      | _ \<Rightarrow> fail (Panic ExplicitPanic))"

text \<open>The part of \<open>decode_inner\<close> for data requests: xid and opcode are read and the body follows.\<close>

definition decode_data_request :: "bytes_crate \<Rightarrow> (RequestPacket option, ZkError) deserializer" where
  "decode_data_request B =
     bind (get_i32 B) (\<lambda>x.
     bind (get_i32 B) (\<lambda>t.
     case OpCodes_from_i32 t of
       None \<Rightarrow> fail (fault.Err (InvalidOpCode t))
     | Some opcode \<Rightarrow> decode_data_body B opcode x t))"

text \<open>\<open>ServerPacketCodec::decode_inner\<close>, with the control requests, told by their reserved xid.\<close>

definition decode_inner :: "bytes_crate \<Rightarrow> (RequestPacket option, ZkError) deserializer" where
  "decode_inner B =
     bind (ensure_min_length_bytes (XID_LENGTH + OPCODE_LENGTH)) (\<lambda>_.
     bind peek_xid (\<lambda>x.
     case XidCodes_from_i32 x of
       Some ConnectXid \<Rightarrow>
         bind (ConnectRequest_deserialize B) (\<lambda>req.
           Ok (Some \<lparr>request_header = None, request = Request.Connect req\<rparr>))
     | Some PingXid \<Rightarrow>
         bind (get_i32 B) (\<lambda>_. bind (get_i32 B) (\<lambda>t. bind assert_empty (\<lambda>_.
           packet x t Request.Ping)))
     | Some AuthXid \<Rightarrow>
         bind (get_i32 B) (\<lambda>_. bind (get_i32 B) (\<lambda>t.
           bind (AuthPacket_deserialize B) (\<lambda>req. bind assert_empty (\<lambda>_.
             packet x t (Request.Auth req)))))
     | Some SetWatchesXid \<Rightarrow>
         bind (get_i32 B) (\<lambda>_. bind (get_i32 B) (\<lambda>t.
           bind (SetWatches_deserialize B) (\<lambda>req. bind assert_empty (\<lambda>_.
             packet x t (Request.SetWatches req)))))
     | Some WatchXid \<Rightarrow> decode_data_request B
     | None \<Rightarrow> decode_data_request B))"

definition ServerPacketCodec_decode ::
  "bytes_crate \<Rightarrow> (ServerPacketCodec, RequestPacket, ZkError) decoder" where
  "ServerPacketCodec_decode B self src =
     (case LengthDelimitedCodec_decode B (ServerPacketCodec.inner self) src of
        (Inl f, c, src') \<Rightarrow>
          (Inl (map_err (\<lambda>_. DecodeError) f), self\<lparr>ServerPacketCodec.inner := c\<rparr>, src')
      | (Inr None, c, src') \<Rightarrow> (Inr None, self\<lparr>ServerPacketCodec.inner := c\<rparr>, src')
      | (Inr (Some (body, n)), c, src') \<Rightarrow>
          (case decode_inner B body of
             Inl f \<Rightarrow> (Inl f, self\<lparr>ServerPacketCodec.inner := c\<rparr>, src')
           | Inr (p, _) \<Rightarrow> (Inr p, self\<lparr>ServerPacketCodec.inner := c\<rparr>, src')))"

definition ServerPacketCodec_encode ::
  "bytes_crate \<Rightarrow> ServerPacketCodec \<Rightarrow> ResponsePacket \<Rightarrow> ZkError serializer" where
  "ServerPacketCodec_encode B self item dst =
     (case ResponsePacket_size item of Inl f \<Rightarrow> Inl f | Inr _ \<Rightarrow>
       (case ResponsePacket_serialize_into B item [] of Inl f \<Rightarrow> Inl f | Inr buf \<Rightarrow>
         (case LengthDelimitedCodec_encode B (ServerPacketCodec.inner self) buf dst of
            Inl f \<Rightarrow> Inl (map_err (\<lambda>_. EncodeError) f)
          | Inr dst' \<Rightarrow> Inr dst')))"

section \<open>Requests to the backend, and its replies\<close>

definition remember :: "RequestPacket \<Rightarrow> ClientPacketCodec \<Rightarrow> ClientPacketCodec" where
  "remember item self =
     (case request_header item of
        None \<Rightarrow> self
      | Some header \<Rightarrow>
          (case OpCodes_from_i32 (RequestHeader.r_type header) of
             None \<Rightarrow> self
           | Some opcode \<Rightarrow>
               self\<lparr>requests_by_xid := (requests_by_xid self)(RequestHeader.xid header \<mapsto> opcode)\<rparr>))"

definition ClientPacketCodec_encode ::
  "bytes_crate \<Rightarrow> ClientPacketCodec \<Rightarrow> RequestPacket \<Rightarrow> bytes \<Rightarrow> (bytes, ZkError) result \<times> ClientPacketCodec"
where
  "ClientPacketCodec_encode B self item dst =
     (seq (put_i32 B (usize_as_i32 (RequestPacket_size item)))
     (seq (RequestPacket_serialize_into B item)
      finish) dst,
      remember item self)"

definition reply :: "ReplyHeader option \<Rightarrow> ZkResponse \<Rightarrow> (ResponsePacket option, ZkError) deserializer" where
  "reply h r = Ok (Some \<lparr>response_header = h, response = r\<rparr>)"

text \<open>
  The part of \<open>decode\<close> behind the reply header. The second \<open>match\<close> on the reserved xid is only
  reached without one, as the first has returned or panicked for all of them.
\<close>

definition decode_reply_body ::
  "bytes_crate \<Rightarrow> (i32 \<rightharpoonup> OpCodes) \<Rightarrow> XidCodes option \<Rightarrow> ReplyHeader \<Rightarrow>
    (ResponsePacket option, ZkError) deserializer" where
  "decode_reply_body B m xid_enum h =
     (case xid_enum of
        Some WatchXid \<Rightarrow>
          bind (WatcherEvent_deserialize B) (\<lambda>resp. reply (Some h) (ZkResponse.WatchEvent resp))
      | Some PingXid \<Rightarrow> reply (Some h) ZkResponse.Empty
      | Some AuthXid \<Rightarrow> bind assert_empty (\<lambda>_. reply (Some h) ZkResponse.Empty)
      | Some _ \<Rightarrow> fail (Panic ExplicitPanic)
      | None \<Rightarrow>
          if ReplyHeader.err h \<noteq> 0 then reply (Some h) ZkResponse.Empty
          else case xid_enum of
            Some ConnectXid \<Rightarrow> fail (Panic Unreachable)
          | Some WatchXid \<Rightarrow> reply (Some h) ZkResponse.Empty
          | Some PingXid \<Rightarrow> reply (Some h) ZkResponse.Ping
          | Some AuthXid \<Rightarrow> fail (Panic Todo)
          | Some SetWatchesXid \<Rightarrow> fail (Panic Todo)
          | None \<Rightarrow>
              (case m (ReplyHeader.xid h) of
                 None \<Rightarrow> fail (fault.Err DecodeError)
               | Some opcode \<Rightarrow>
                   bind (ZkResponse_deserialize B (Some opcode)) (\<lambda>resp. reply (Some h) resp)))"

definition decode_reply ::
  "bytes_crate \<Rightarrow> (i32 \<rightharpoonup> OpCodes) \<Rightarrow> (ResponsePacket option, ZkError) deserializer" where
  "decode_reply B m =
     bind (ensure_min_length_bytes 4) (\<lambda>_.
     bind peek_xid (\<lambda>x.
     case XidCodes_from_i32 x of
       Some ConnectXid \<Rightarrow>
         bind (ConnectResponse_deserialize B) (\<lambda>resp. reply None (ZkResponse.Connect resp))
     | xid_enum \<Rightarrow>
         bind (get_i32 B) (\<lambda>x.
         bind (get_i64 B) (\<lambda>z.
         bind (get_i32 B) (\<lambda>e.
           decode_reply_body B m xid_enum \<lparr>ReplyHeader.xid = x, zxid = z, err = e\<rparr>)))))"

definition ClientPacketCodec_decode ::
  "bytes_crate \<Rightarrow> (ClientPacketCodec, ResponsePacket, ZkError) decoder" where
  "ClientPacketCodec_decode B self src =
     (case LengthDelimitedCodec_decode B (ClientPacketCodec.inner self) src of
        (Inl f, c, src') \<Rightarrow>
          (Inl (map_err (\<lambda>_. DecodeError) f), self\<lparr>ClientPacketCodec.inner := c\<rparr>, src')
      | (Inr None, c, src') \<Rightarrow> (Inr None, self\<lparr>ClientPacketCodec.inner := c\<rparr>, src')
      | (Inr (Some (body, n)), c, src') \<Rightarrow>
          (case decode_reply B (requests_by_xid self) body of
             Inl f \<Rightarrow> (Inl f, self\<lparr>ClientPacketCodec.inner := c\<rparr>, src')
           | Inr (p, _) \<Rightarrow> (Inr p, self\<lparr>ClientPacketCodec.inner := c\<rparr>, src')))"

section \<open>The codecs as stream decoders\<close>

text \<open>The framing that the builder calls set up, between two frames.\<close>

definition ready :: LengthDelimitedCodec where
  "ready = \<lparr>builder = \<lparr>max_frame_len = 1048576, length_field_len = 4,
     length_field_offset = 0, length_adjustment = 0, num_skip = None,
     length_field_is_big_endian = True\<rparr>, state = Head\<rparr>"

lemma the_configuration: "LENGTH_DELIMITED_CODEC = Inr ready"
  by (simp add: LENGTH_DELIMITED_CODEC_def builder_defs Builder_new_codec_def ready_def)

lemma the_builder:
  "\<exists>p. LENGTH_DELIMITED_CODEC = Inr (Builder_new_codec p) \<and> configured p \<and> max_frame_len p = 1048576 \<and>
    length_field_len p = 4 \<and> length_field_is_big_endian p \<and> length_field_offset p = 0"
proof -
  obtain b where b: "Builder_length_field_length 4 (Builder_max_frame_length 1048576 Builder_new) =
      (Inr b :: (Builder, io_error) result)"
    by (simp add: Builder_length_field_length_def)
  have "configured (Builder_big_endian (Builder_length_adjustment 0 (Builder_length_field_offset 0 b)))"
    by (intro configured.big configured.adjustment configured.field_offset
        configured.field_len [OF configured.max_len [OF configured.new] b]) simp
  then show ?thesis
    using b
    by (intro exI [of _ "Builder_big_endian (Builder_length_adjustment 0 (Builder_length_field_offset 0 b))"])
      (auto simp: LENGTH_DELIMITED_CODEC_def builder_defs split: if_splits)
qed

lemma codec_ok_ready: "codec_ok ready"
  by (simp add: ready_def codec_ok_def builder_ok_def)

lemma frame_ready: "frame (builder ready) body = be_bytes 4 (length body) @ body"
  by (simp add: frame_def field_value_def checked_sub_def ready_def Let_def)

lemma plain_ready: "plain (builder ready) body \<longleftrightarrow> length body \<le> 1048576"
  by (auto simp: plain_def field_value_def checked_sub_def ready_def)

text \<open>Both decoders read one frame and hand it to a reader that always has an answer.\<close>

context bytes_laws
begin

lemma framed_incremental:
  assumes dec: "\<And>c src. dec c src = (case LengthDelimitedCodec_decode B (get c) src of
        (Inl f, l, src') \<Rightarrow> (Inl (map_err g f), put l c, src')
      | (Inr None, l, src') \<Rightarrow> (Inr None, put l c, src')
      | (Inr (Some (body, n)), l, src') \<Rightarrow>
          (case rd c body of Inl f \<Rightarrow> (Inl f, put l c, src') | Inr (p, _) \<Rightarrow> (Inr p, put l c, src')))"
    and answer: "\<And>c body rest. rd c body \<noteq> Inr (None, rest)"
    and lens: "\<And>l c. get (put l c) = l" "\<And>l l' c. put l (put l' c) = put l c"
      "\<And>l c. rd (put l c) = rd c"
  shows "incremental_decoder dec (\<lambda>c. codec_ok (get c))"
proof
  fix c src r c' src'
  assume ok: "codec_ok (get c)" and run: "dec c src = (r, c', src')"
  obtain x l s where ldc: "LengthDelimitedCodec_decode B (get c) src = (x, l, s)"
    by (cases "LengthDelimitedCodec_decode B (get c) src")
  have c': "c' = put l c" and src': "src' = s" and none: "r = Inr None \<longleftrightarrow> x = Inr None"
    using run answer by (auto simp: dec ldc split: sum.splits option.splits)
  show "codec_ok (get c')"
    using framing.keeps_inv [OF ok ldc] by (simp add: c' lens)
  fix extra
  show "dec c (src @ extra) = (r, c', src' @ extra)" if "r \<noteq> Inr None"
    using framing.more_after [OF ok ldc, of extra] that none run
    by (auto simp: dec ldc c' src' split: sum.splits option.splits)
next
  fix c src c' src' extra
  assume ok: "codec_ok (get c)" and run: "dec c src = (Inr None, c', src')"
  obtain x l s where ldc: "LengthDelimitedCodec_decode B (get c) src = (x, l, s)"
    by (cases "LengthDelimitedCodec_decode B (get c) src")
  have c': "c' = put l c" and src': "src' = s" and "x = Inr None"
    using run answer by (auto simp: dec ldc split: sum.splits option.splits)
  then show "dec c (src @ extra) = dec c' (src' @ extra)"
    using framing.resume [of "get c" src l s extra] ok ldc unfolding c' src' dec lens by simp
qed

lemma packet_never_None: "packet x t req bs \<noteq> Inr (None, rest)"
  by (simp add: packet_def)

lemma decode_inner_answers: "decode_inner B bs \<noteq> Inr (None, rest)"
  by (auto simp: decode_inner_def decode_data_request_def decode_data_body_def bind_eq_Inr packet_never_None
      split: option.splits XidCodes.splits OpCodes.splits)

lemma decode_reply_answers: "decode_reply B m bs \<noteq> Inr (None, rest)"
  by (auto simp: decode_reply_def decode_reply_body_def reply_def bind_eq_Inr
      split: option.splits XidCodes.splits)

end

sublocale bytes_laws \<subseteq> server_reads: incremental_decoder
    "ServerPacketCodec_decode B" "\<lambda>c. codec_ok (ServerPacketCodec.inner c)"
  by (rule framed_incremental [where g = "\<lambda>_. DecodeError" and rd = "\<lambda>_. decode_inner B"
        and put = "\<lambda>l. ServerPacketCodec.inner_update (\<lambda>_. l)"])
    (simp_all add: ServerPacketCodec_decode_def decode_inner_answers)

sublocale bytes_laws \<subseteq> client_reads: incremental_decoder
    "ClientPacketCodec_decode B" "\<lambda>c. codec_ok (ClientPacketCodec.inner c)"
  by (rule framed_incremental [where g = "\<lambda>_. DecodeError" and rd = "\<lambda>c. decode_reply B (requests_by_xid c)"
        and put = "\<lambda>l. ClientPacketCodec.inner_update (\<lambda>_. l)"])
    (simp_all add: ClientPacketCodec_decode_def decode_reply_answers)

context bytes_laws
begin

lemmas server_chunks = server_reads.chunks_do_not_matter
lemmas client_chunks = client_reads.chunks_do_not_matter

end

section \<open>What a request frame is read as\<close>

text \<open>The bodies that \<open>decode_inner\<close> reads for an opcode.\<close>

fun data_request :: "OpCodes \<Rightarrow> Request \<Rightarrow> bool" where
  "data_request op (Request.Create _) = (op \<in> {OpCodes.Create, OpCodes.Create2, OpCodes.CreateContainer})"
| "data_request op (Request.CreateTTL _) = (op = OpCodes.CreateTtl)"
| "data_request op (Request.Delete _) = (op = OpCodes.Delete)"
| "data_request op (Request.Exists _) = (op = OpCodes.Exists)"
| "data_request op (Request.GetData _) = (op = OpCodes.GetData)"
| "data_request op (Request.SetData _) = (op = OpCodes.SetData)"
| "data_request op (Request.GetAcl _) = (op = OpCodes.GetAcl)"
| "data_request op (Request.SetAcl _) = (op = OpCodes.SetAcl)"
| "data_request op (Request.GetChildren _) = (op = OpCodes.GetChildren)"
| "data_request op (Request.GetChildren2 _) = (op = OpCodes.GetChildren2)"
| "data_request op (Request.CheckWatches _) = (op = OpCodes.CheckWatches)"
| "data_request op (Request.SetWatches _) = (op = OpCodes.SetWatches)"
| "data_request op (Request.Auth _) = (op = OpCodes.SetAuth)"
| "data_request op (Request.Sync _) = (op = OpCodes.Sync)"
| "data_request op Request.Whoami = (op = OpCodes.WhoAmI)"
| "data_request op Request.Close = (op = OpCodes.Close)"
| "data_request op (Request.Multi m) = (op = OpCodes.Multi \<and> multi_ok m)"
| "data_request op _ = False"

fun control_request :: "XidCodes \<Rightarrow> Request \<Rightarrow> bool" where
  "control_request x Request.Ping = (x = PingXid)"
| "control_request x (Request.Auth _) = (x = AuthXid)"
| "control_request x (Request.SetWatches _) = (x = SetWatchesXid)"
| "control_request x _ = False"

lemma control_request_iff:
  "control_request PingXid r \<longleftrightarrow> r = Request.Ping"
  "control_request AuthXid r \<longleftrightarrow> (\<exists>req. r = Request.Auth req)"
  "control_request SetWatchesXid r \<longleftrightarrow> (\<exists>req. r = Request.SetWatches req)"
  by (cases r; simp)+

text \<open>Where the code asserts that nothing follows the request.\<close>

fun checked_end :: "XidCodes option \<Rightarrow> Request \<Rightarrow> bool" where
  "checked_end x Request.Whoami = True"
| "checked_end x (Request.Multi _) = True"
| "checked_end x (Request.Sync _) = True"
| "checked_end x req = (x \<in> {Some PingXid, Some AuthXid, Some SetWatchesXid})"

lemma checked_end_WatchXid: "checked_end (Some WatchXid) r = checked_end None r"
  by (cases r) simp_all

definition header_ok :: "RequestHeader \<Rightarrow> Request \<Rightarrow> bool" where
  "header_ok h req \<longleftrightarrow> jute_ok (Request_jute req) \<and>
     (case XidCodes_from_i32 (RequestHeader.xid h) of
        Some ConnectXid \<Rightarrow> False
      | Some PingXid \<Rightarrow> control_request PingXid req
      | Some AuthXid \<Rightarrow> control_request AuthXid req
      | Some SetWatchesXid \<Rightarrow> control_request SetWatchesXid req
      | _ \<Rightarrow> \<exists>op. OpCodes_from_i32 (RequestHeader.r_type h) = Some op \<and> data_request op req)"

lemma short_min_length:
  assumes "length bs < 2 ^ 31" and "n < 2 ^ 31"
  shows "ensure_min_length_bytes (word_of_nat n) bs =
    (if length bs < n then Inl (Panic ExplicitPanic) else Inr ((), bs))"
proof -
  have "usize_as_i32 (length bs) <s usize_as_i32 n \<longleftrightarrow> length bs < n"
    using assms by (simp add: word_sless_alt sint_i32 unat_usize_as_i32)
  then show ?thesis
    by (simp add: ensure_min_length_bytes_def ensure_min_length_def usize_as_i32_def)
qed

lemma peek_xid_eq: "peek_xid (be_bytes 4 (unat w) @ bs) = Inr (w, be_bytes 4 (unat w) @ bs)"
  by (simp add: peek_xid_def)

context bytes_laws
begin

lemma decode_data_body_iff:
  "decode_data_body B op x t bs = Inr (Some p, rest) \<longleftrightarrow>
    request_header p = Some \<lparr>RequestHeader.xid = x, r_type = t\<rparr> \<and>
    data_request op (request p) \<and> jute_ok (Request_jute (request p)) \<and>
    bs = jute_bytes (Request_jute (request p)) @ rest \<and> (checked_end None (request p) \<longrightarrow> rest = [])"
proof (cases p)
  case (fields h r)
  have view: "jute_ok (MultiRequest_jute m)" if "multi_ok m" for m
    using that by (cases m) (auto simp: multi_ok_def sub_ok_def)
  show ?thesis
    unfolding fields
    by (cases op; cases r; simp add: decode_data_body_def packet_def bind_eq_Inr codec; auto simp: view)
qed

lemma decode_data_request_eq:
  "decode_data_request B (be_bytes 4 (unat x) @ be_bytes 4 (unat t) @ bs) =
    (case OpCodes_from_i32 t of
       None \<Rightarrow> Inl (fault.Err (InvalidOpCode t)) | Some op \<Rightarrow> decode_data_body B op x t bs)"
  by (simp add: decode_data_request_def bind_def get_i32_be split: option.split)

lemma decode_inner_eq:
  assumes "length bs + 8 < 2 ^ 31"
  shows "decode_inner B (be_bytes 4 (unat x) @ be_bytes 4 (unat t) @ bs) =
    (case XidCodes_from_i32 x of
       Some ConnectXid \<Rightarrow>
         bind (ConnectRequest_deserialize B) (\<lambda>req.
           Ok (Some \<lparr>request_header = None, request = Request.Connect req\<rparr>))
           (be_bytes 4 (unat x) @ be_bytes 4 (unat t) @ bs)
     | Some PingXid \<Rightarrow> bind assert_empty (\<lambda>_. packet x t Request.Ping) bs
     | Some AuthXid \<Rightarrow>
         bind (AuthPacket_deserialize B) (\<lambda>req. bind assert_empty (\<lambda>_. packet x t (Request.Auth req))) bs
     | Some SetWatchesXid \<Rightarrow>
         bind (SetWatches_deserialize B) (\<lambda>req. bind assert_empty (\<lambda>_. packet x t (Request.SetWatches req))) bs
     | _ \<Rightarrow> decode_data_request B (be_bytes 4 (unat x) @ be_bytes 4 (unat t) @ bs))"
proof -
  have min: "ensure_min_length_bytes (XID_LENGTH + OPCODE_LENGTH)
      (be_bytes 4 (unat x) @ be_bytes 4 (unat t) @ bs) =
      Inr ((), be_bytes 4 (unat x) @ be_bytes 4 (unat t) @ bs)"
    using short_min_length [of "be_bytes 4 (unat x) @ be_bytes 4 (unat t) @ bs" 8] assms
    by (simp add: XID_LENGTH_def OPCODE_LENGTH_def)
  show ?thesis
    by (simp add: decode_inner_def bind_def min peek_xid_eq get_i32_be split: option.split XidCodes.split)
qed

lemma decode_inner_short:
  "length bs < 8 \<Longrightarrow> decode_inner B bs = Inl (Panic ExplicitPanic)"
  using short_min_length [of bs 8]
  by (simp add: decode_inner_def bind_def XID_LENGTH_def OPCODE_LENGTH_def)

end

lemma i32_prefix:
  assumes "4 \<le> length bs"
  shows "\<exists>(w :: i32) rest. bs = be_bytes 4 (unat w) @ rest"
proof -
  have "be_bytes 4 (unat (word_of_nat (be_nat (take 4 bs)) :: i32)) = take 4 bs"
    using assms by (intro be_bytes_word) simp_all
  then show ?thesis by (metis append_take_drop_id)
qed

context bytes_laws
begin

text \<open>What a request frame is read as, and what is left of it.\<close>

lemma decode_inner_iff:
  assumes "length bs < 2 ^ 31"
  shows "decode_inner B bs = Inr (Some p, rest) \<longleftrightarrow>
    (case request_header p of
       None \<Rightarrow> 8 \<le> length bs \<and> take 4 bs = be_bytes 4 0 \<and>
         (\<exists>c. request p = Request.Connect c \<and> ConnectRequest_deserialize B bs = Inr (c, rest))
     | Some h \<Rightarrow> header_ok h (request p) \<and> bs = jute_bytes (RequestPacket_jute p) @ rest \<and>
         (checked_end (XidCodes_from_i32 (RequestHeader.xid h)) (request p) \<longrightarrow> rest = []))"
proof (cases "length bs < 8")
  case True
  then show ?thesis
    by (auto simp: decode_inner_short RequestPacket_jute_def RequestHeader_jute_def split: option.split)
next
  case False
  then obtain x bs1 where bs1: "bs = be_bytes 4 (unat (x :: i32)) @ bs1"
    using i32_prefix [of bs] by auto
  then obtain t bs2 where bs: "bs = be_bytes 4 (unat x) @ be_bytes 4 (unat (t :: i32)) @ bs2"
    using i32_prefix [of bs1] False by auto
  have connect: "take 4 bs = be_bytes 4 0 \<longleftrightarrow> XidCodes_from_i32 x = Some ConnectXid"
    using be_bytes_word_inj(1) [of x 0] by (auto simp: bs XidCodes_from_i32_iff)
  have view: "bs = jute_bytes (RequestPacket_jute \<lparr>request_header = Some h, request = r\<rparr>) @ rest \<longleftrightarrow>
      h = \<lparr>RequestHeader.xid = x, r_type = t\<rparr> \<and> bs2 = jute_bytes (Request_jute r) @ rest" for h r
    by (cases h) (auto simp: bs RequestPacket_jute_def RequestHeader_jute_def)
  have short: "length bs2 + 8 < 2 ^ 31" using assms by (simp add: bs)
  note eq = decode_inner_eq [OF short, of x t, folded bs]
  note data = decode_data_request_eq [of x t bs2, folded bs]
  obtain h r where p: "p = \<lparr>request_header = h, request = r\<rparr>" by (cases p)
  show ?thesis
  proof (cases "XidCodes_from_i32 x")
    case None
    then show ?thesis
      using False by (cases h) (auto simp: eq data p connect view header_ok_def decode_data_body_iff split: option.splits)
  next
    case (Some xc)
    then show ?thesis
      using False
      by (cases xc; cases h)
        (auto simp: eq data p connect view header_ok_def control_request_iff checked_end_WatchXid
          packet_def bind_eq_Inr AuthPacket.de_law SetWatches.de_law assert_empty_eq_Inr
          decode_data_body_iff split: option.splits)
  qed
qed

end

section \<open>What a reply frame is read as\<close>

definition reply_ok :: "(i32 \<rightharpoonup> OpCodes) \<Rightarrow> ReplyHeader \<Rightarrow> ZkResponse \<Rightarrow> bool" where
  "reply_ok m h r \<longleftrightarrow> jute_ok (ZkResponse_jute r) \<and>
     (case XidCodes_from_i32 (ReplyHeader.xid h) of
        Some WatchXid \<Rightarrow> (case r of ZkResponse.WatchEvent _ \<Rightarrow> True | _ \<Rightarrow> False)
      | Some PingXid \<Rightarrow> r = ZkResponse.Empty
      | Some AuthXid \<Rightarrow> r = ZkResponse.Empty
      | Some _ \<Rightarrow> False
      | None \<Rightarrow>
          if ReplyHeader.err h \<noteq> 0 then r = ZkResponse.Empty
          else case m (ReplyHeader.xid h) of None \<Rightarrow> False | Some op \<Rightarrow> reply_for op r)"

definition reply_checked :: "ReplyHeader \<Rightarrow> bool" where
  "reply_checked h \<longleftrightarrow> XidCodes_from_i32 (ReplyHeader.xid h) = Some AuthXid \<or>
     XidCodes_from_i32 (ReplyHeader.xid h) = None \<and> ReplyHeader.err h = 0"

context bytes_laws
begin

lemma decode_reply_body_iff:
  "XidCodes_from_i32 (ReplyHeader.xid h) \<noteq> Some ConnectXid \<Longrightarrow>
    decode_reply_body B m (XidCodes_from_i32 (ReplyHeader.xid h)) h bs = Inr (Some q, rest) \<longleftrightarrow>
    response_header q = Some h \<and> reply_ok m h (response q) \<and>
    bs = jute_bytes (ZkResponse_jute (response q)) @ rest \<and> (reply_checked h \<longrightarrow> rest = [])"
  by (cases q; cases "XidCodes_from_i32 (ReplyHeader.xid h)")
    (auto simp: decode_reply_body_def reply_ok_def reply_checked_def reply_def bind_eq_Inr
      ZkResponse_deserialize_iff WatcherEvent.de_law assert_empty_eq_Inr
      split: XidCodes.split option.splits ZkResponse.splits)

lemma decode_reply_eq:
  assumes "length bs + 4 < 2 ^ 31"
  shows "decode_reply B m (be_bytes 4 (unat x) @ bs) =
    (if XidCodes_from_i32 x = Some ConnectXid then
       bind (ConnectResponse_deserialize B) (\<lambda>resp. reply None (ZkResponse.Connect resp))
         (be_bytes 4 (unat x) @ bs)
     else bind (get_i64 B) (\<lambda>z. bind (get_i32 B) (\<lambda>e.
       decode_reply_body B m (XidCodes_from_i32 x) \<lparr>ReplyHeader.xid = x, zxid = z, err = e\<rparr>)) bs)"
proof -
  have least: "ensure_min_length_bytes 4 (be_bytes 4 (unat x) @ bs) = Inr ((), be_bytes 4 (unat x) @ bs)"
    using short_min_length [of "be_bytes 4 (unat x) @ bs" 4] assms by simp
  show ?thesis
    by (cases "XidCodes_from_i32 x"; cases "the (XidCodes_from_i32 x)")
      (simp_all add: decode_reply_def bind_def least peek_xid_eq get_i32_be)
qed

lemma decode_reply_short:
  "length bs < 4 \<Longrightarrow> decode_reply B m bs = Inl (Panic ExplicitPanic)"
  using short_min_length [of bs 4] by (simp add: decode_reply_def bind_def)

lemma decode_reply_iff:
  assumes "length bs < 2 ^ 31"
  shows "decode_reply B m bs = Inr (Some q, rest) \<longleftrightarrow>
    (case response_header q of
       None \<Rightarrow> 4 \<le> length bs \<and> take 4 bs = be_bytes 4 0 \<and>
         (\<exists>c. response q = ZkResponse.Connect c \<and> ConnectResponse_deserialize B bs = Inr (c, rest))
     | Some h \<Rightarrow> reply_ok m h (response q) \<and> bs = jute_bytes (ResponsePacket_jute q) @ rest \<and>
         (reply_checked h \<longrightarrow> rest = []))"
proof (cases "length bs < 4")
  case True
  then show ?thesis
    by (auto simp: decode_reply_short ResponsePacket_jute_def ReplyHeader_jute_def split: option.split)
next
  case False
  then obtain x bs1 where bs: "bs = be_bytes 4 (unat (x :: i32)) @ bs1"
    using i32_prefix [of bs] by auto
  have short: "length bs1 + 4 < 2 ^ 31" using assms by (simp add: bs)
  note eq = decode_reply_eq [OF short, of m x, folded bs]
  have connect: "take 4 bs = be_bytes 4 0 \<longleftrightarrow> XidCodes_from_i32 x = Some ConnectXid"
    using be_bytes_word_inj(1) [of x 0] by (auto simp: bs XidCodes_from_i32_iff)
  have refused: "\<not> reply_ok m h r" if "XidCodes_from_i32 (ReplyHeader.xid h) = Some ConnectXid" for h r
    using that by (simp add: reply_ok_def)
  obtain h r where q: "q = \<lparr>response_header = h, response = r\<rparr>" by (cases q)
  then have sel: "response_header q = h" "response q = r" by simp_all
  show ?thesis
  proof (cases "XidCodes_from_i32 x = Some ConnectXid")
    case True
    then have "h' = h'' \<Longrightarrow> bs = jute_bytes (ResponsePacket_jute \<lparr>response_header = Some h', response = r\<rparr>) @ rest
        \<Longrightarrow> \<not> reply_ok m h'' r" for h' h''
      by (auto simp: bs ResponsePacket_jute_def ReplyHeader_jute_def intro!: refused)
    then show ?thesis
      using True False by (cases h) (auto simp: eq q connect reply_def bind_eq_Inr)
  next
    case other: False
    have body: "decode_reply_body B m (XidCodes_from_i32 x) \<lparr>ReplyHeader.xid = x, zxid = z, err = e\<rparr> bs' =
        Inr (Some q, rest) \<longleftrightarrow> h = Some \<lparr>ReplyHeader.xid = x, zxid = z, err = e\<rparr> \<and>
        reply_ok m \<lparr>ReplyHeader.xid = x, zxid = z, err = e\<rparr> r \<and> bs' = jute_bytes (ZkResponse_jute r) @ rest \<and>
        (reply_checked \<lparr>ReplyHeader.xid = x, zxid = z, err = e\<rparr> \<longrightarrow> rest = [])" for z e bs'
      using decode_reply_body_iff [of "\<lparr>ReplyHeader.xid = x, zxid = z, err = e\<rparr>" m bs' q rest] other
      by (simp add: sel)
    show ?thesis
    proof (cases h)
      case None
      then show ?thesis using other connect by (auto simp: eq sel bind_eq_Inr body)
    next
      case (Some h')
      then have "bs = jute_bytes (ResponsePacket_jute q) @ rest \<longleftrightarrow>
        ReplyHeader.xid h' = x \<and> bs1 = be_bytes 8 (unat (ReplyHeader.zxid h')) @
          be_bytes 4 (unat (ReplyHeader.err h')) @ jute_bytes (ZkResponse_jute r) @ rest"
        by (auto simp: q bs ResponsePacket_jute_def ReplyHeader_jute_def)
      with Some show ?thesis
        using other by (cases h') (auto simp: eq sel bind_eq_Inr body get_i64_iff get_i32_iff)
    qed
  qed
qed

section \<open>Frames of packets\<close>

text \<open>With nothing pending, a codec reads a frame exactly when the buffer starts with one.\<close>

lemma ready_decode:
  assumes "length body \<le> 1048576"
  shows "LengthDelimitedCodec_decode B ready (be_bytes 4 (length body) @ body @ rest) =
    (Inr (Some (body, length body)), ready, rest)"
  using decode_frame [of ready body rest] assms
  by (simp add: codec_ok_ready plain_ready frame_ready) (simp add: ready_def)

lemma ready_decoded:
  assumes "LengthDelimitedCodec_decode B ready src = (Inr (Some (body, n)), c, rest)"
  shows "length body \<le> 1048576 \<and> n = length body \<and> c = ready \<and>
    src = be_bytes 4 (length body) @ body @ rest"
proof -
  let ?m = "be_nat (take 4 src)"
  have field: "length_field (builder ready) src = ?m" "num_head_bytes (builder ready) = 4"
    "get_num_skip (builder ready) = 4" "max_frame_len (builder ready) = 1048576"
    "state ready = Head"
    by (simp_all add: length_field_def ready_def num_head_bytes_def get_num_skip_def)
  have "adjusted (builder ready) ?m = Some ?m" if "?m \<le> 1048576"
    using that by (simp add: adjusted_def checked_add_def ready_def)
  then have *: "4 \<le> length src" "?m \<le> 1048576"
    "decode_payload B ?m (ready\<lparr>state := Data ?m\<rparr>) (drop 4 src) = (Inr (Some (body, n)), c, rest)"
    using assms by (auto simp: decode_eq [OF codec_ok_ready] field split: if_splits)
  then have "?m \<le> length src - 4" "body = take ?m (drop 4 src)" "n = ?m"
    "c = ready" "rest = drop ?m (drop 4 src)"
    by (auto simp: decode_payload_eq ready_def split: if_splits)
  moreover have "take 4 src = be_bytes 4 ?m"
    using be_bytes_be_nat [of "take 4 src"] *(1) by (simp add: min_absorb2)
  then have "src = be_bytes 4 ?m @ take ?m (drop 4 src) @ drop ?m (drop 4 src)"
    by (metis append_take_drop_id)
  ultimately show ?thesis using *(2) by (simp add: min_absorb2)
qed

lemma server_decode_frame:
  assumes "ServerPacketCodec.inner c = ready" and "length body \<le> 1048576"
  shows "ServerPacketCodec_decode B c (be_bytes 4 (length body) @ body @ rest) =
    (case decode_inner B body of Inl f \<Rightarrow> Inl f | Inr (p, _) \<Rightarrow> Inr p, c, rest)"
  using assms by (cases c) (simp add: ServerPacketCodec_decode_def ready_decode split: sum.split)

lemma server_decoded:
  assumes "ServerPacketCodec.inner c = ready" and "ServerPacketCodec_decode B c src = (Inr (Some p), c', rest)"
  shows "c' = c \<and> (\<exists>body left. length body \<le> 1048576 \<and>
    src = be_bytes 4 (length body) @ body @ rest \<and> decode_inner B body = Inr (Some p, left))"
  using assms
  by (cases c) (auto simp: ServerPacketCodec_decode_def dest: ready_decoded split: prod.splits sum.splits option.splits)

lemma client_decode_frame:
  assumes "ClientPacketCodec.inner c = ready" and "length body \<le> 1048576"
  shows "ClientPacketCodec_decode B c (be_bytes 4 (length body) @ body @ rest) =
    (case decode_reply B (requests_by_xid c) body of Inl f \<Rightarrow> Inl f | Inr (p, _) \<Rightarrow> Inr p, c, rest)"
  using assms by (cases c) (simp add: ClientPacketCodec_decode_def ready_decode split: sum.split)

lemma client_encode_eq:
  "ClientPacketCodec_encode B c p dst =
    (Inr (dst @ be_bytes 4 (jute_size (RequestPacket_jute p)) @ jute_bytes (RequestPacket_jute p)),
     remember p c)"
  by (simp add: ClientPacketCodec_encode_def RequestPacket.size_law RequestPacket.ser_law codec seq_Inr)

lemma server_encode_eq:
  assumes "ServerPacketCodec.inner c = ready" and "\<not> is_multi (response q)"
  shows "ServerPacketCodec_encode B c q dst =
    (let body = jute_bytes (ResponsePacket_jute q)
     in if length body \<le> 1048576 then Inr (dst @ be_bytes 4 (length body) @ body)
        else Inl (fault.Err EncodeError))"
proof -
  obtain n where "ResponsePacket_size q = Inr n"
    using assms(2) by (cases "response q") (auto simp: ResponsePacket_size_def add_size_def)
  moreover have "LengthDelimitedCodec_encode B ready body dst =
      (if length body \<le> 1048576 then Inr (dst @ be_bytes 4 (length body) @ body)
       else Inl (fault.Err (IoError InvalidInput LengthDelimitedCodecError)))" for body
    by (simp add: encode_eq [OF codec_ok_ready] frame_ready)
      (simp add: ready_def field_value_def checked_sub_def)
  ultimately show ?thesis
    using assms by (simp add: ServerPacketCodec_encode_def ResponsePacket_serialize map_err_def Let_def)
qed

text \<open>
  An accepted request that is not a handshake is written as it was read, without the bytes
  that its body did not use.
\<close>

lemma accepted_frame:
  assumes "ServerPacketCodec.inner c = ready" and "request_header p = Some h"
    and "ServerPacketCodec_decode B c src = (Inr (Some p), c', rest)"
  shows "\<exists>used left. src = be_bytes 4 (length (used @ left)) @ used @ left @ rest \<and>
    ClientPacketCodec_encode B cli p dst =
      (Inr (dst @ be_bytes 4 (length used) @ used), remember p cli) \<and>
    (checked_end (XidCodes_from_i32 (RequestHeader.xid h)) (request p) \<longrightarrow> left = [])"
proof -
  obtain body left where "length body \<le> 1048576" and
    src: "src = be_bytes 4 (length body) @ body @ rest" "decode_inner B body = Inr (Some p, left)"
    using server_decoded [OF assms(1,3)] by blast
  then have "body = jute_bytes (RequestPacket_jute p) @ left"
    "checked_end (XidCodes_from_i32 (RequestHeader.xid h)) (request p) \<longrightarrow> left = []"
    using assms(2) by (simp_all add: decode_inner_iff)
  with src(1) show ?thesis
    by (intro exI [of _ "jute_bytes (RequestPacket_jute p)"] exI [of _ left])
      (simp add: client_encode_eq length_jute_bytes)
qed

text \<open>Encoded replies are read back, given the table that belongs to them.\<close>

lemma reply_read_back:
  assumes "ServerPacketCodec.inner srv = ready" and "ClientPacketCodec.inner cli = ready"
    and "response_header q = Some h" and "reply_ok (requests_by_xid cli) h (response q)"
    and "\<not> is_multi (response q)" and "jute_size (ResponsePacket_jute q) \<le> 1048576"
  shows "\<exists>reply. ServerPacketCodec_encode B srv q dst = Inr (dst @ reply) \<and>
    ClientPacketCodec_decode B cli (reply @ rest) = (Inr (Some q), cli, rest)"
proof -
  let ?body = "jute_bytes (ResponsePacket_jute q)"
  have len: "length ?body \<le> 1048576" using assms(6) by (simp add: length_jute_bytes)
  then have "decode_reply B (requests_by_xid cli) ?body = Inr (Some q, [])"
    using assms(3,4) by (subst decode_reply_iff) simp_all
  then show ?thesis
    using server_encode_eq [OF assms(1,5), of dst] client_decode_frame [OF assms(2) len, of rest] len
    by (intro exI [of _ "be_bytes 4 (length ?body) @ ?body"]) (simp add: Let_def)
qed

end

end
