(* ===== verification/Event_Systems.thy ===== *)
theory Event_Systems
  imports Main
begin

text \<open>
  Systems that advance by events: a step function says which state an event leads to, \<open>None\<close>
  when the event cannot happen. A connection and the accept loop of the proxy are such systems.
  The locales state once what is owed for an invariant and for a simulation, and what follows
  for every reachable state and every run.
\<close>

section \<open>Runs and reachable states\<close>

type_synonym ('e, 's) event_step = "'e \<Rightarrow> 's \<Rightarrow> 's option"

fun run_events :: "('e, 's) event_step \<Rightarrow> 'e list \<Rightarrow> 's \<Rightarrow> 's option" where
  "run_events step [] s = Some s"
| "run_events step (ev # evs) s =
     (case step ev s of None \<Rightarrow> None | Some s' \<Rightarrow> run_events step evs s')"

inductive reached :: "('s \<Rightarrow> bool) \<Rightarrow> ('e, 's) event_step \<Rightarrow> 's \<Rightarrow> bool" for init step where
  start: "init s \<Longrightarrow> reached init step s"
| event: "reached init step s \<Longrightarrow> step ev s = Some s' \<Longrightarrow> reached init step s'"

lemma run_append:
  "run_events step (es @ fs) s =
    (case run_events step es s of None \<Rightarrow> None | Some s' \<Rightarrow> run_events step fs s')"
  by (induction es arbitrary: s) (auto split: option.split)

lemma run_appendI:
  "run_events step es s = Some s' \<Longrightarrow> run_events step fs s' = Some s'' \<Longrightarrow>
    run_events step (es @ fs) s = Some s''"
  by (simp add: run_append)

lemma run_reached:
  "reached init step s \<Longrightarrow> run_events step evs s = Some s' \<Longrightarrow> reached init step s'"
  by (induction evs arbitrary: s) (auto split: option.splits intro: reached.event)

lemma reached_run:
  "reached init step s \<Longrightarrow> \<exists>s0 evs. init s0 \<and> run_events step evs s0 = Some s"
proof (induction rule: reached.induct)
  case (start s)
  then show ?case by (intro exI [of _ s] exI [of _ "[]"]) simp
next
  case (event s ev s')
  then obtain s0 evs where "init s0" "run_events step evs s0 = Some s" by blast
  then show ?case
    using event.hyps(2) by (intro exI [of _ s0] exI [of _ "evs @ [ev]"]) (simp add: run_append)
qed

text \<open>What can be brought about by events of a kind: a goal is reached by a run of such events.\<close>

definition leads_to :: "('e, 's) event_step \<Rightarrow> 'e set \<Rightarrow> 's \<Rightarrow> ('s \<Rightarrow> bool) \<Rightarrow> bool" where
  "leads_to step evs s goal \<longleftrightarrow>
     (\<exists>es s'. set es \<subseteq> evs \<and> run_events step es s = Some s' \<and> goal s')"

lemma leads_now: "goal s \<Longrightarrow> leads_to step evs s goal"
  unfolding leads_to_def by (intro exI [of _ "[]"] exI [of _ s]) simp

lemma leads_step:
  assumes "step ev s = Some s'" and "ev \<in> evs" and "leads_to step evs s' goal"
  shows "leads_to step evs s goal"
proof -
  from assms(3) obtain es s'' where "set es \<subseteq> evs" "run_events step es s' = Some s''" "goal s''"
    by (auto simp: leads_to_def)
  with assms(1,2) show ?thesis
    unfolding leads_to_def by (intro exI [of _ "ev # es"] exI [of _ s'']) simp
qed

lemma leads_trans:
  assumes "leads_to step evs s mid" and "\<And>s'. mid s' \<Longrightarrow> leads_to step evs s' goal"
  shows "leads_to step evs s goal"
proof -
  from assms(1) obtain es s' where es: "set es \<subseteq> evs" "run_events step es s = Some s'" "mid s'"
    by (auto simp: leads_to_def)
  from assms(2) [OF es(3)] obtain fs s'' where
    "set fs \<subseteq> evs" "run_events step fs s' = Some s''" "goal s''" by (auto simp: leads_to_def)
  with es show ?thesis
    unfolding leads_to_def by (intro exI [of _ "es @ fs"] exI [of _ s'']) (auto simp: run_append)
qed

lemma leads_mono:
  assumes "leads_to step evs s goal" and "evs \<subseteq> evs'"
  shows "leads_to step evs' s goal"
  using assms unfolding leads_to_def by blast

lemma leads_reached:
  assumes "leads_to step evs s goal" and "reached init step s"
  shows "\<exists>es s'. set es \<subseteq> evs \<and> run_events step es s = Some s' \<and> goal s' \<and> reached init step s'"
  using assms run_reached unfolding leads_to_def by fast

section \<open>Invariants\<close>

text \<open>An invariant holds at the start and is kept by every event.\<close>

locale invariant =
  fixes init :: "'s \<Rightarrow> bool" and step :: "('e, 's) event_step" and inv :: "'s \<Rightarrow> bool"
  assumes starts: "init s \<Longrightarrow> inv s"
    and kept: "inv s \<Longrightarrow> step ev s = Some s' \<Longrightarrow> inv s'"
begin

lemma always: "reached init step s \<Longrightarrow> inv s"
  by (induction rule: reached.induct) (auto intro: starts kept)

lemma kept_by_run: "inv s \<Longrightarrow> run_events step evs s = Some s' \<Longrightarrow> inv s'"
  by (induction evs arbitrary: s) (auto split: option.splits intro: kept)

end

section \<open>Simulations\<close>

text \<open>
  A detailed system is simulated by an abstract one when each of its events is at most one
  event of the abstract system, named by \<open>view\<close>; events without a view are not seen there.
\<close>

locale simulation =
  fixes step :: "('e, 's) event_step" and astep :: "('f, 'a) event_step"
    and view :: "'e \<Rightarrow> 'f option" and rel :: "'s \<Rightarrow> 'a \<Rightarrow> bool"
  assumes seen: "rel s a \<Longrightarrow> step ev s = Some s' \<Longrightarrow> view ev = Some f \<Longrightarrow>
      \<exists>a'. astep f a = Some a' \<and> rel s' a'"
    and unseen: "rel s a \<Longrightarrow> step ev s = Some s' \<Longrightarrow> view ev = None \<Longrightarrow> rel s' a"
begin

lemma runs_simulated:
  "rel s a \<Longrightarrow> run_events step evs s = Some s' \<Longrightarrow>
    \<exists>a'. run_events astep (List.map_filter view evs) a = Some a' \<and> rel s' a'"
proof (induction evs arbitrary: s a)
  case Nil
  then show ?case by (simp add: List.map_filter_simps)
next
  case (Cons ev evs)
  then obtain s1 where s1: "step ev s = Some s1" "run_events step evs s1 = Some s'"
    by (auto split: option.splits)
  show ?case
  proof (cases "view ev")
    case None
    then show ?thesis
      using Cons.IH [OF unseen [OF Cons.prems(1) s1(1)] s1(2)] by (simp add: List.map_filter_simps)
  next
    case (Some f)
    then obtain a1 where "astep f a = Some a1" "rel s1 a1"
      using seen [OF Cons.prems(1) s1(1)] by blast
    then show ?thesis
      using Cons.IH [OF _ s1(2)] Some by (simp add: List.map_filter_simps)
  qed
qed

end

end
