(* ===== verification/Tokio_Api.thy ===== *)
theory Tokio_Api
  imports Decoder_Contract
begin

text \<open>
  The interface of the third-party crates \<open>tokio\<close> and \<open>tokio_util\<close>, as far as it computes: the
  codec \<open>BytesCodec\<close>, and the provided method \<open>Decoder::decode_eof\<close> that \<open>FramedRead\<close> calls when
  its socket has come to an end. They are not code of this repository, so they are the fields
  of a record \<open>T\<close>, and \<^theory_text>\<open>tokio_laws\<close> states what their documentation promises. What sockets do
  is not a function: it is left to the events of the model (theory \<open>Server\<close>).
\<close>

section \<open>The operations\<close>

record ('c, 'a, 'e) tokio_crate =
  bytes_codec_decode :: "bytes \<Rightarrow> bytes option \<times> bytes"
  bytes_codec_encode :: "bytes \<Rightarrow> bytes \<Rightarrow> bytes"
  provided_decode_eof :: "('c, 'a, 'e) decoder \<Rightarrow> ('c, 'a, 'e) decoder"

section \<open>The documented behaviour\<close>

text \<open>
  \<open>BytesCodec\<close> ``just ships bytes around''. \<open>decode_eof\<close> ``defaults to calling \<open>decode\<close> and
  returns an error if \<open>Ok(None)\<close> is returned while there is unconsumed data''.
\<close>

locale tokio_laws =
  fixes T :: "('c, 'a, 'e) tokio_crate"
  assumes bytes_decode_law: "case bytes_codec_decode T buf of
      (None, left) \<Rightarrow> buf = [] \<and> left = []
    | (Some chunk, left) \<Rightarrow> chunk \<noteq> [] \<and> chunk @ left = buf"
    and bytes_encode_law: "bytes_codec_encode T item dst = dst @ item"
    and decode_eof_law: "dec c src = (r, c', src') \<Longrightarrow> r \<noteq> Inr None \<or> src' = [] \<Longrightarrow>
      provided_decode_eof T dec c src = (r, c', src')"
    and decode_eof_left: "dec c src = (Inr None, c', src') \<Longrightarrow> src' \<noteq> [] \<Longrightarrow>
      \<exists>e. provided_decode_eof T dec c src = (Inl (fault.Err e), c', src')"
begin

lemma bytes_decode_Some:
  "bytes_codec_decode T buf = (Some chunk, left) \<Longrightarrow> chunk \<noteq> [] \<and> chunk @ left = buf"
  using bytes_decode_law [of buf] by simp

lemma bytes_decode_None: "bytes_codec_decode T buf = (None, left) \<Longrightarrow> buf = [] \<and> left = []"
  using bytes_decode_law [of buf] by simp

lemma bytes_decode_Nil [simp]: "bytes_codec_decode T [] = (None, [])"
  using bytes_decode_law [of "[]"] by (auto split: prod.splits option.splits)

lemma bytes_decode_Cons:
  assumes "buf \<noteq> []"
  obtains chunk left where "bytes_codec_decode T buf = (Some chunk, left)" "chunk \<noteq> []"
    "chunk @ left = buf"
  using bytes_decode_law [of buf] assms by (auto split: prod.splits option.splits)

lemma decode_eof_cases:
  obtains "provided_decode_eof T dec c src = dec c src"
  | e c' src' where "dec c src = (Inr None, c', src')" "src' \<noteq> []"
      "provided_decode_eof T dec c src = (Inl (fault.Err e), c', src')"
proof -
  obtain r c' src' where "dec c src = (r, c', src')" by (metis prod_cases3)
  then show thesis
    using that decode_eof_law [of dec c src r c' src'] decode_eof_left [of dec c src c' src'] by metis
qed

end

section \<open>A concrete instance\<close>

text \<open>The error stands for the \<open>io::Error\<close> ``bytes remaining on stream''.\<close>

definition std_tokio :: "'e \<Rightarrow> ('c, 'a, 'e) tokio_crate" where
  "std_tokio remaining = \<lparr>
     bytes_codec_decode = (\<lambda>buf. if buf = [] then (None, []) else (Some buf, [])),
     bytes_codec_encode = (\<lambda>item dst. dst @ item),
     provided_decode_eof = (\<lambda>dec c src. case dec c src of
         (Inr None, c', b # src') \<Rightarrow> (Inl (fault.Err remaining), c', b # src')
       | r \<Rightarrow> r)\<rparr>"

interpretation std_tokio: tokio_laws "std_tokio remaining"
  by unfold_locales
    (auto simp: std_tokio_def neq_Nil_conv split: prod.splits sum.splits option.splits list.splits)

lemmas std_tokio_laws = std_tokio.tokio_laws_axioms

end
