(* ===== verification/Server.thy ===== *)
theory Server
  imports Packet_Codecs Event_Systems Tokio_Api
begin

text \<open>
  The proxy between one client and the backend (\<open>src/src/server.rs\<close>). \<open>handle_conn\<close> runs three
  \<open>pipe\<close> loops at once: the upstream loop decodes the client's requests and sends them on,
  one downstream loop takes the backend's bytes as they come and puts them into an unbounded
  channel, the other takes them from the channel and writes them to the client. The loops only
  meet in the channel, so a run of a connection is a sequence of events, each of them one
  turn of a loop or something that happens on a socket; \<open>select!\<close> ends the connection when the
  first loop ends, and a panic of a loop unwinds the task.

  Sockets: bytes arrive in any chunks, a peer may shut its side down (end of file), a read may
  fail, a write takes any number of bytes and may fail at any time. A socket that has failed to
  take bytes takes none later.
\<close>

type_synonym tokio = "(ServerPacketCodec, RequestPacket, ZkError) tokio_crate"

section \<open>The three loops\<close>

text \<open>
  A loop with what it has on its sockets. \<open>c2p_buf\<close> and \<open>b2p_buf\<close> are the buffers of the
  \<open>FramedRead\<close>s with all that has arrived, \<open>p2b_buf\<close> and \<open>p2c_buf\<close> those of the \<open>FramedWrite\<close>s.
  The last fields are ghosts: what has been received, read and sent so far.
\<close>

record UpStreamConnection =
  c2p_framed :: ServerPacketCodec
  c2p_buf :: bytes
  c2p_eof :: bool
  p2b_framed :: ClientPacketCodec
  p2b_buf :: bytes
  p2b_broken :: bool
  from_client :: bytes
  forwarded :: "RequestPacket list"
  to_backend :: bytes

record P2CDownStreamConnection =
  p2c_buf :: bytes
  p2c_broken :: bool
  to_client :: bytes

record B2PDownStreamConnection =
  b2p_buf :: bytes
  b2p_eof :: bool
  from_backend :: bytes

text \<open>How a loop stands after a turn: \<open>None\<close> when it goes on, otherwise what \<open>pipe\<close> ended with.\<close>

type_synonym ending = "(unit, ZkError) result option"

text \<open>
  \<open>new\<close> of each loop stores the halves of the sockets; the framed streams that \<open>pipe\<close> starts by
  making around them are made here as well, with their codecs.
\<close>

definition UpStreamConnection_new :: "(i32 \<rightharpoonup> OpCodes) \<Rightarrow> (UpStreamConnection, ZkError) result" where
  "UpStreamConnection_new table =
     (case ServerPacketCodec_new of Inl f \<Rightarrow> Inl f | Inr server \<Rightarrow>
       (case ClientPacketCodec_new table of Inl f \<Rightarrow> Inl f | Inr client \<Rightarrow>
         Inr \<lparr>c2p_framed = server, c2p_buf = [], c2p_eof = False, p2b_framed = client,
           p2b_buf = [], p2b_broken = False, from_client = [], forwarded = [], to_backend = []\<rparr>))"

definition P2CDownStreamConnection_new :: P2CDownStreamConnection where
  "P2CDownStreamConnection_new = \<lparr>p2c_buf = [], p2c_broken = False, to_client = []\<rparr>"

definition B2PDownStreamConnection_new :: B2PDownStreamConnection where
  "B2PDownStreamConnection_new = \<lparr>b2p_buf = [], b2p_eof = False, from_backend = []\<rparr>"

text \<open>
  \<open>let _ = p2b_framed.send(r).await\<close>: the sink takes the packet, which means it is encoded into
  the buffer, or the sink refuses it, because an earlier write has failed. An error is ignored.
\<close>

definition p2b_send ::
  "bytes_crate \<Rightarrow> bool \<Rightarrow> RequestPacket \<Rightarrow> UpStreamConnection \<Rightarrow> UpStreamConnection \<times> ending" where
  "p2b_send B takes r u =
     (if \<not> takes then (u, None)
      else case ClientPacketCodec_encode B (p2b_framed u) r (p2b_buf u) of
        (Inr buf, c) \<Rightarrow> (u\<lparr>p2b_framed := c, p2b_buf := buf\<rparr>, None)
      | (Inl (fault.Err e), c) \<Rightarrow> (u\<lparr>p2b_framed := c\<rparr>, None)
      | (Inl f, c) \<Rightarrow> (u\<lparr>p2b_framed := c\<rparr>, Some (Inl f)))"

text \<open>
  A turn of \<open>UpStreamConnection::pipe\<close>: \<open>while let Some(Ok(r)) = c2p_framed.next().await\<close>, where
  the reader calls \<open>decode\<close> on what has arrived, or \<open>decode_eof\<close> once the client has shut its side
  down; the loop ends, with \<open>Ok(())\<close>, at an error of the decoder and at the end of the stream.
\<close>

definition UpStreamConnection_pipe ::
  "bytes_crate \<Rightarrow> tokio \<Rightarrow> bool \<Rightarrow> UpStreamConnection \<Rightarrow> UpStreamConnection \<times> ending" where
  "UpStreamConnection_pipe B T takes u =
     (let decode = (if c2p_eof u then provided_decode_eof T (ServerPacketCodec_decode B)
                    else ServerPacketCodec_decode B)
      in case decode (c2p_framed u) (c2p_buf u) of
        (Inr (Some r), c, buf) \<Rightarrow>
          p2b_send B takes r (u\<lparr>c2p_framed := c, c2p_buf := buf, forwarded := forwarded u @ [r]\<rparr>)
      | (Inr None, c, buf) \<Rightarrow>
          (u\<lparr>c2p_framed := c, c2p_buf := buf\<rparr>, if c2p_eof u then Some (Inr ()) else None)
      | (Inl (fault.Err e), c, buf) \<Rightarrow> (u\<lparr>c2p_framed := c, c2p_buf := buf\<rparr>, Some (Inr ()))
      | (Inl f, c, buf) \<Rightarrow> (u\<lparr>c2p_framed := c, c2p_buf := buf\<rparr>, Some (Inl f)))"

text \<open>
  A turn of \<open>B2PDownStreamConnection::pipe\<close>: what it sends, if anything. \<open>tx.send\<close> cannot fail,
  as the receiver lives as long as the connection.
\<close>

definition B2PDownStreamConnection_pipe ::
  "tokio \<Rightarrow> B2PDownStreamConnection \<Rightarrow> B2PDownStreamConnection \<times> bytes list \<times> ending" where
  "B2PDownStreamConnection_pipe T b =
     (case bytes_codec_decode T (b2p_buf b) of
        (Some res, buf) \<Rightarrow> (b\<lparr>b2p_buf := buf\<rparr>, [res], None)
      | (None, buf) \<Rightarrow> (b\<lparr>b2p_buf := buf\<rparr>, [], if b2p_eof b then Some (Inr ()) else None))"

text \<open>
  A turn of \<open>P2CDownStreamConnection::pipe\<close> with what \<open>rx.recv()\<close> has returned. The channel never
  closes, because the other two loops hold a sender each, so this loop has no end.
\<close>

definition P2CDownStreamConnection_pipe ::
  "tokio \<Rightarrow> bool \<Rightarrow> bytes \<Rightarrow> P2CDownStreamConnection \<Rightarrow> P2CDownStreamConnection" where
  "P2CDownStreamConnection_pipe T takes res d =
     (if takes then d\<lparr>p2c_buf := bytes_codec_encode T res (p2c_buf d)\<rparr> else d)"

section \<open>A connection\<close>

record connection =
  upstream_conn :: UpStreamConnection
  p2c_downstream_conn :: P2CDownStreamConnection
  b2p_downstream_conn :: B2PDownStreamConnection
  channel :: "bytes list"
  handled :: ending

text \<open>
  \<open>handle_conn\<close> up to \<open>select!\<close>; \<open>connects\<close> says whether \<open>TcpStream::connect\<close> reaches the backend.
  \<open>handled\<close> is what \<open>handle_conn\<close> has ended with, if it has.
\<close>

definition handle_conn :: "bool \<Rightarrow> (connection, ZkError) result" where
  "handle_conn connects =
     (if \<not> connects then Inl (Panic UnwrapErr)
      else case UpStreamConnection_new Map.empty of Inl f \<Rightarrow> Inl f | Inr upstream \<Rightarrow>
        Inr \<lparr>upstream_conn = upstream, p2c_downstream_conn = P2CDownStreamConnection_new,
          b2p_downstream_conn = B2PDownStreamConnection_new, channel = [], handled = None\<rparr>)"

datatype event =
    ClientSends bytes
  | ClientCloses
  | ClientReadFails
  | UpstreamTurn bool
  | P2BWrites nat
  | P2BBreaks
  | BackendSends bytes
  | BackendCloses
  | BackendReadFails
  | B2PTurn
  | P2CTurn bool
  | P2CWrites nat
  | P2CBreaks

text \<open>
  What happens to the upstream side and to the downstream side. A loop takes its next turn when
  its last \<open>send\<close> is through, that is when all is written or the write has failed; a sink
  refuses an item only after a failed write.
\<close>

definition upstream_happens ::
  "bytes_crate \<Rightarrow> tokio \<Rightarrow> event \<Rightarrow> UpStreamConnection \<Rightarrow> (UpStreamConnection \<times> ending) option" where
  "upstream_happens B T ev u =
     (case ev of
        ClientSends chunk \<Rightarrow>
          if c2p_eof u then None
          else Some (u\<lparr>c2p_buf := c2p_buf u @ chunk, from_client := from_client u @ chunk\<rparr>, None)
      | ClientCloses \<Rightarrow> Some (u\<lparr>c2p_eof := True\<rparr>, None)
      | ClientReadFails \<Rightarrow> Some (u, Some (Inr ()))
      | UpstreamTurn takes \<Rightarrow>
          if p2b_broken u \<or> takes \<and> p2b_buf u = [] then Some (UpStreamConnection_pipe B T takes u)
          else None
      | P2BWrites n \<Rightarrow>
          if p2b_broken u \<or> length (p2b_buf u) < n then None
          else Some (u\<lparr>p2b_buf := drop n (p2b_buf u), to_backend := to_backend u @ take n (p2b_buf u)\<rparr>, None)
      | P2BBreaks \<Rightarrow> Some (u\<lparr>p2b_broken := True\<rparr>, None)
      | _ \<Rightarrow> None)"

definition b2p_happens ::
  "tokio \<Rightarrow> event \<Rightarrow> B2PDownStreamConnection \<Rightarrow> (B2PDownStreamConnection \<times> bytes list \<times> ending) option"
where
  "b2p_happens T ev b =
     (case ev of
        BackendSends chunk \<Rightarrow>
          if b2p_eof b then None
          else Some (b\<lparr>b2p_buf := b2p_buf b @ chunk, from_backend := from_backend b @ chunk\<rparr>, [], None)
      | BackendCloses \<Rightarrow> Some (b\<lparr>b2p_eof := True\<rparr>, [], None)
      | BackendReadFails \<Rightarrow> Some (b, [], Some (Inr ()))
      | B2PTurn \<Rightarrow> Some (B2PDownStreamConnection_pipe T b)
      | _ \<Rightarrow> None)"

definition p2c_happens ::
  "tokio \<Rightarrow> event \<Rightarrow> bytes list \<Rightarrow> P2CDownStreamConnection \<Rightarrow> (P2CDownStreamConnection \<times> bytes list) option"
where
  "p2c_happens T ev ch d =
     (case ev of
        P2CTurn takes \<Rightarrow>
          if p2c_broken d \<or> takes \<and> p2c_buf d = []
          then case ch of [] \<Rightarrow> None | res # rest \<Rightarrow> Some (P2CDownStreamConnection_pipe T takes res d, rest)
          else None
      | P2CWrites n \<Rightarrow>
          if p2c_broken d \<or> length (p2c_buf d) < n then None
          else Some (d\<lparr>p2c_buf := drop n (p2c_buf d), to_client := to_client d @ take n (p2c_buf d)\<rparr>, ch)
      | P2CBreaks \<Rightarrow> Some (d\<lparr>p2c_broken := True\<rparr>, ch)
      | _ \<Rightarrow> None)"

text \<open>An event of the connection is an event of one loop, while \<open>select!\<close> still waits.\<close>

definition happens :: "bytes_crate \<Rightarrow> tokio \<Rightarrow> (event, connection) event_step" where
  "happens B T ev s =
     (if handled s \<noteq> None then None
      else case upstream_happens B T ev (upstream_conn s) of
        Some (u, r) \<Rightarrow> Some (s\<lparr>upstream_conn := u, handled := r\<rparr>)
      | None \<Rightarrow>
          (case b2p_happens T ev (b2p_downstream_conn s) of
             Some (b, sent, r) \<Rightarrow>
               Some (s\<lparr>b2p_downstream_conn := b, channel := channel s @ sent, handled := r\<rparr>)
           | None \<Rightarrow>
               map_option (\<lambda>(d, rest). s\<lparr>p2c_downstream_conn := d, channel := rest\<rparr>)
                 (p2c_happens T ev (channel s) (p2c_downstream_conn s))))"

abbreviation run :: "bytes_crate \<Rightarrow> tokio \<Rightarrow> event list \<Rightarrow> connection \<Rightarrow> connection option" where
  "run B T \<equiv> run_events (happens B T)"

text \<open>The states a connection can be in, whatever the order of the events.\<close>

definition accepted :: "connection \<Rightarrow> bool" where
  "accepted s \<longleftrightarrow> handle_conn True = Inr s"

abbreviation reachable :: "bytes_crate \<Rightarrow> tokio \<Rightarrow> connection \<Rightarrow> bool" where
  "reachable B T \<equiv> reached accepted (happens B T)"


lemma happensE:
  assumes "happens B T ev s = Some s'"
  obtains
    (upstream) u r where "handled s = None" "upstream_happens B T ev (upstream_conn s) = Some (u, r)"
      "s' = s\<lparr>upstream_conn := u, handled := r\<rparr>"
  | (b2p) b sent r where "handled s = None" "b2p_happens T ev (b2p_downstream_conn s) = Some (b, sent, r)"
      "s' = s\<lparr>b2p_downstream_conn := b, channel := channel s @ sent, handled := r\<rparr>"
  | (p2c) d rest where "handled s = None"
      "p2c_happens T ev (channel s) (p2c_downstream_conn s) = Some (d, rest)"
      "s' = s\<lparr>p2c_downstream_conn := d, channel := rest\<rparr>"
  using assms by (auto simp: happens_def split: if_splits option.splits)

lemma happens_running: "happens B T ev s = Some s' \<Longrightarrow> handled s = None"
  by (erule happensE)

lemma nothing_after_the_end: "handled s \<noteq> None \<Longrightarrow> happens B T ev s = None"
  by (simp add: happens_def)

section \<open>A new connection\<close>

definition new_server :: ServerPacketCodec where
  "new_server = \<lparr>ServerPacketCodec.inner = ready\<rparr>"

definition new_client :: ClientPacketCodec where
  "new_client = \<lparr>ClientPacketCodec.inner = ready, requests_by_xid = Map.empty\<rparr>"

definition new_upstream :: UpStreamConnection where
  "new_upstream = \<lparr>c2p_framed = new_server, c2p_buf = [], c2p_eof = False, p2b_framed = new_client,
     p2b_buf = [], p2b_broken = False, from_client = [], forwarded = [], to_backend = []\<rparr>"

definition new_conn :: connection where
  "new_conn = \<lparr>upstream_conn = new_upstream, p2c_downstream_conn = P2CDownStreamConnection_new,
     b2p_downstream_conn = B2PDownStreamConnection_new, channel = [], handled = None\<rparr>"

lemma handle_conn_eq: "handle_conn connects = (if connects then Inr new_conn else Inl (Panic UnwrapErr))"
  by (simp add: handle_conn_def UpStreamConnection_new_def ServerPacketCodec_new_def
      ClientPacketCodec_new_def the_configuration new_conn_def new_upstream_def new_server_def new_client_def)

lemma accepted_iff [simp]: "accepted s \<longleftrightarrow> s = new_conn"
  by (auto simp: accepted_def handle_conn_eq)

lemma new_conn_reachable: "reachable B T new_conn"
  by (rule reached.start) simp

lemma codec_ok_new_server: "codec_ok (ServerPacketCodec.inner new_server)"
  by (simp add: new_server_def codec_ok_ready)

text \<open>Both third-party interfaces together.\<close>

locale proxy_laws = bytes_laws B + tokio_laws T
  for B :: bytes_crate and T :: tokio

end
