(* ===== verification/Frame_Faults.thy ===== *)
theory Frame_Faults
  imports Packet_Codecs
begin

text \<open>
  What can go wrong when a frame is read: exactly which errors and panics there are, and that
  each of them occurs. None is a loop that does not end.
\<close>

section \<open>Only these faults\<close>

text \<open>
  The faults of a request frame and of a reply frame. None of them is \<open>Diverge\<close>, so reading a
  frame always ends, and none is a slice out of bounds: the check of the minimal length protects
  the look at the id.
\<close>

definition frame_fault :: "ZkError fault \<Rightarrow> bool" where
  "frame_fault f \<longleftrightarrow> request_fault f \<or> f = Panic AssertFailed \<or> f = Panic ExplicitPanic"

definition reply_fault :: "ZkError fault \<Rightarrow> bool" where
  "reply_fault f \<longleftrightarrow> response_fault f \<or> f = fault.Err DecodeError \<or> f = Panic ExplicitPanic"

lemma frame_faultI [simp]:
  "request_fault f \<Longrightarrow> frame_fault f" "frame_fault (Panic AssertFailed)"
  "frame_fault (Panic ExplicitPanic)" "\<not> frame_fault Diverge"
  by (auto simp: frame_fault_def)

lemma reply_faultI [simp]:
  "response_fault f \<Longrightarrow> reply_fault f" "reply_fault (fault.Err DecodeError)"
  "reply_fault (Panic AssertFailed)" "reply_fault (Panic ExplicitPanic)"
  "reply_fault (Panic Todo)" "reply_fault (Panic Unreachable)" "\<not> reply_fault Diverge"
  by (auto simp: reply_fault_def response_fault_def)

lemma unat_ge_4:
  assumes "4 \<le> sint (w :: i32)"
  shows "4 \<le> unat w"
proof (cases "unat w < 2 ^ 31")
  case True
  then have "sint w = int (unat w)" by (simp only: sint_i32 if_True)
  with assms show ?thesis by linarith
next
  case False
  then have "2 ^ 31 \<le> unat w" by (simp only: not_less)
  moreover have "(4 :: nat) \<le> 2 ^ 31" by simp
  ultimately show ?thesis by (rule order.trans [rotated])
qed

lemma peek_after_check:
  assumes "\<not> i <s 4" and "\<And>x. faults_in P (k x)" and "P (Panic ExplicitPanic)"
  shows "faults_in P (bind (ensure_min_length_bytes i) (\<lambda>_. bind peek_xid k))"
proof -
  have "4 \<le> length bs" if "ensure_min_length_bytes i bs = Inr ((), bs)" for bs :: bytes
  proof -
    have "\<not> usize_as_i32 (length bs) <s i"
      using that by (auto simp: ensure_min_length_bytes_def ensure_min_length_def split: if_splits)
    then have "4 \<le> sint (usize_as_i32 (length bs))"
      using assms(1) by (simp add: word_sless_alt)
    then have "4 \<le> unat (usize_as_i32 (length bs))"
      by (rule unat_ge_4)
    moreover have "unat (usize_as_i32 (length bs)) \<le> length bs"
      by (simp add: usize_as_i32_def unat_of_nat)
    ultimately show ?thesis by simp
  qed
  then show ?thesis
    using assms(2,3)
    by (force simp: faults_in_def bind_eq_Inl ensure_min_length_bytes_def ensure_min_length_def peek_xid_def
        split: if_splits)
qed

lemma packet_faults [faults]: "faults_in P (packet x t req)" "faults_in P (reply h r)"
  by (simp_all add: faults_in_def packet_def reply_def)

lemma wire_frame: "faults_in wire_fault m \<Longrightarrow> faults_in frame_fault m"
  by (erule faults_in_mono) simp

lemma request_frame: "faults_in request_fault m \<Longrightarrow> faults_in frame_fault m"
  by (erule faults_in_mono) simp

lemma wire_reply: "faults_in wire_fault m \<Longrightarrow> faults_in reply_fault m"
  by (erule faults_in_mono) (simp add: reply_fault_def response_fault_def)

lemma response_reply: "faults_in response_fault m \<Longrightarrow> faults_in reply_fault m"
  by (erule faults_in_mono) simp

context bytes_laws
begin

lemma decode_data_body_faults: "faults_in frame_fault (decode_data_body B op x t)"
  unfolding decode_data_body_def
  by (auto split: OpCodes.split intro!: faults_in_bind faults_in_fail packet_faults faults_in_assert_empty
      MultiRequest_faults [THEN request_frame])
    (rule wire_frame, rule faults)+

lemma decode_inner_faults: "faults_in frame_fault (decode_inner B)"
  unfolding decode_inner_def decode_data_request_def
  by (rule peek_after_check)
    (auto simp: word_sless_alt XID_LENGTH_def OPCODE_LENGTH_def split: option.split XidCodes.split
      intro!: faults_in_bind faults_in_fail faults_in_Ok
      packet_faults faults_in_assert_empty decode_data_body_faults wire_read_faults [THEN wire_frame]
      ConnectRequest_faults [THEN wire_frame] AuthPacket.fault_law [THEN wire_frame]
      SetWatches.fault_law [THEN wire_frame])

lemma decode_reply_faults: "faults_in reply_fault (decode_reply B m)"
  unfolding decode_reply_def decode_reply_body_def
  by (rule peek_after_check)
    (auto simp: word_sless_alt split: option.split XidCodes.split
      intro!: faults_in_bind faults_in_fail faults_in_Ok
      packet_faults faults_in_assert_empty wire_read_faults [THEN wire_reply]
      ConnectResponse_faults [THEN wire_reply] WatcherEvent.fault_law [THEN wire_reply]
      ZkResponse_faults [THEN response_reply])

lemma decode_inner_ends: "decode_inner B bs \<noteq> Inl Diverge"
  using faults_inD [OF decode_inner_faults] by force

lemma decode_reply_ends: "decode_reply B m bs \<noteq> Inl Diverge"
  using faults_inD [OF decode_reply_faults] by force

text \<open>The whole call, with the framing: an oversized frame is one more error.\<close>

lemma server_decode_faults:
  assumes "codec_ok (ServerPacketCodec.inner c)"
    and "ServerPacketCodec_decode B c src = (Inl f, c', rest)"
  shows "frame_fault f \<or> f = fault.Err DecodeError"
proof (cases "LengthDelimitedCodec_decode B (ServerPacketCodec.inner c) src")
  case (fields out inner src')
  show ?thesis
  proof (cases out)
    case (Inl g)
    then have "g = fault.Err (IoError InvalidData LengthDelimitedCodecError) \<or> g = fault.Err overflow_error"
      using decode_refuses [OF assms(1)] fields by blast
    then show ?thesis using assms(2) Inl fields by (auto simp: ServerPacketCodec_decode_def map_err_def)
  next
    case (Inr x)
    then show ?thesis
      using assms(2) fields faults_inD [OF decode_inner_faults]
      by (auto simp: ServerPacketCodec_decode_def split: option.splits sum.splits)
  qed
qed

end

section \<open>Each of these faults\<close>

text \<open>
  A frame for each fault: a string that is no text, that is cut off or has a negative length; an
  opcode that is unknown, that has no place in a transaction or that is never sent by a client;
  bytes behind a body that must end the frame; a frame that is too short.
\<close>

context bytes_laws
begin

lemma free_id: "XidCodes_from_i32 7 = None"
  by (simp add: XidCodes_from_i32_def enum_XidCodes_def)

lemma data_frame:
  assumes "OpCodes_from_i32 t = Some op" and "length bs < 2 ^ 30" and "XidCodes_from_i32 x = None"
  shows "decode_inner B (be_bytes 4 (unat x) @ be_bytes 4 (unat t) @ bs) = decode_data_body B op x t bs"
  using assms by (simp add: decode_inner_eq decode_data_request_eq)

lemma string_frame:
  assumes "String_deserialize B bs = Inl f" and "length bs < 2 ^ 30"
  shows "\<exists>bs. decode_inner B bs = Inl f"
proof -
  have "decode_data_body B OpCodes.Sync 7 9 bs = Inl f"
    using assms(1) by (simp add: decode_data_body_def SyncRequest_deserialize_def bind_def)
  moreover have "OpCodes_from_i32 9 = Some OpCodes.Sync" by (simp add: OpCodes_from_i32_iff)
  ultimately show ?thesis using data_frame [OF _ _ free_id] assms(2) by metis
qed

lemma strings_fail:
  "String_deserialize B (be_bytes 4 1 @ [255]) = Inl (fault.Err InvalidString)"
  "String_deserialize B (be_bytes 4 1) = Inl (Panic BufUnderflow)"
  "String_deserialize B (be_bytes 4 (2 ^ 31)) = Inl (Panic CapacityOverflow)"
  using String_read_eq [of 1 "[255]"] String_read_eq [of 1 "[]"] String_read_eq [of "2 ^ 31" "[]"] by simp_all

lemma opcode_frame:
  assumes "OpCodes_from_i32 w = None" and "XidCodes_from_i32 x = None"
  shows "decode_inner B (be_bytes 4 (unat x) @ be_bytes 4 (unat w)) = Inl (fault.Err (InvalidOpCode w))"
  using decode_inner_eq [of "[]" x w] decode_data_request_eq [of x w "[]"] assms by simp

end

text \<open>A header for an operation with the opcode \<open>w\<close>.\<close>

definition one_header :: "i32 \<Rightarrow> MultiHeader" where
  "one_header w = \<lparr>MultiHeader.r_type = w, done_f = 0, err = 0\<rparr>"

context bytes_laws
begin

lemma one_header_read: "MultiHeader_deserialize B (jute_bytes (MultiHeader_jute (one_header w)) @ bs) = Inr (one_header w, bs)"
  by (simp add: MultiHeader.de_law MultiHeader_jute_def)

lemma transaction_fails:
  "MultiRequest_deserialize B (jute_bytes (MultiHeader_jute (one_header 6))) = Inl (Panic Unreachable)"
  using one_header_read [of 6 "[]"]
  by (simp add: MultiRequest_deserialize_def bind_def one_header_def OpCodes_from_i32_def enum_OpCodes_def
      Request_deserialize_def)

lemma each_request_fault:
  assumes "frame_fault f"
  shows "\<exists>bs. decode_inner B bs = Inl f"
proof -
  consider "f = fault.Err InvalidString" | "f = Panic BufUnderflow" | "f = Panic CapacityOverflow"
    | w where "f = fault.Err (InvalidOpCode w)" "OpCodes_from_i32 w = None" | "f = Panic Unreachable"
    | "f = Panic AssertFailed" | "f = Panic ExplicitPanic"
    using assms by (auto simp: frame_fault_def request_fault_def wire_fault_def)
  then show ?thesis
  proof cases
    case 5
    have "length (jute_bytes (MultiHeader_jute (one_header 6))) < 2 ^ 30"
      by (simp add: MultiHeader_jute_def)
    moreover have "decode_data_body B OpCodes.Multi 7 14 (jute_bytes (MultiHeader_jute (one_header 6))) = Inl f"
      using transaction_fails 5 by (simp add: decode_data_body_def bind_def)
    moreover have "OpCodes_from_i32 14 = Some OpCodes.Multi" by (simp add: OpCodes_from_i32_iff)
    ultimately show ?thesis using data_frame [OF _ _ free_id] by metis
  next
    case 6
    have "OpCodes_from_i32 107 = Some OpCodes.WhoAmI" by (simp add: OpCodes_from_i32_iff)
    moreover have "decode_data_body B OpCodes.WhoAmI 7 107 [0] = Inl f"
      using 6 by (simp add: decode_data_body_def bind_def assert_empty_def)
    ultimately show ?thesis using data_frame [of 107 OpCodes.WhoAmI "[0]", OF _ _ free_id] by auto
  qed (use string_frame strings_fail opcode_frame [OF _ free_id] decode_inner_short [of "[]"] in \<open>auto intro: exI [of _ "[]"]\<close>)
qed

theorem decode_inner_fault_iff: "(\<exists>bs. decode_inner B bs = Inl f) \<longleftrightarrow> frame_fault f"
  using each_request_fault faults_inD [OF decode_inner_faults] by blast

text \<open>Replies: the same, with the table that remembers one opcode for the id.\<close>

lemma reply_frame:
  assumes "length bs < 2 ^ 30" and "XidCodes_from_i32 x = None" and "e = 0"
  shows "decode_reply B m (be_bytes 4 (unat x) @ be_bytes 8 (unat z) @ be_bytes 4 (unat e) @ bs) =
    (case m x of
       None \<Rightarrow> Inl (fault.Err DecodeError)
     | Some op \<Rightarrow>
         bind (ZkResponse_deserialize B (Some op)) (\<lambda>resp. reply (Some \<lparr>ReplyHeader.xid = x, zxid = z, err = e\<rparr>) resp) bs)"
proof -
  have "decode_reply B m (be_bytes 4 (unat x) @ be_bytes 8 (unat z) @ be_bytes 4 (unat e) @ bs) =
      decode_reply_body B m None \<lparr>ReplyHeader.xid = x, zxid = z, err = e\<rparr> bs"
    using assms(1,2) by (subst decode_reply_eq) (simp_all add: bind_def get_i64_be get_i32_be)
  then show ?thesis using assms(3) by (simp add: decode_reply_body_def split: option.split)
qed

lemma reply_body_fault:
  assumes "ZkResponse_deserialize B (Some op) bs = Inl f" and "length bs < 2 ^ 30"
  shows "\<exists>m bs. decode_reply B m bs = Inl f"
  using reply_frame [of bs 7 0 "[7 \<mapsto> op]", OF assms(2) free_id refl] assms(1) by (auto simp: bind_def)

lemma reply_string_fault:
  "String_deserialize B bs = Inl f \<Longrightarrow> ZkResponse_deserialize B (Some OpCodes.CreateTtl) bs = Inl f"
  by (simp add: ZkResponse_deserialize_def ZkResponse_read_def last_of_def bind_def)

lemma reply_transaction_fails:
  "ZkResponse_deserialize B (Some OpCodes.Multi) (jute_bytes (MultiHeader_jute (one_header 10))) =
    Inl (fault.Err (InvalidOpCode (- 1)))"
  using one_header_read [of 10 "[]"]
  by (simp add: ZkResponse_deserialize_def ZkResponse_read_def last_of_def MultiResponse_deserialize_def
      bind_def one_header_def OpCodes_from_i32_def enum_OpCodes_def)

lemma each_reply_fault:
  assumes "reply_fault f"
  shows "\<exists>m bs. decode_reply B m bs = Inl f"
proof -
  consider "f = fault.Err InvalidString" | "f = Panic BufUnderflow" | "f = Panic CapacityOverflow"
    | "f = fault.Err (InvalidOpCode (- 1))" | "f = Panic Unreachable" | "f = Panic Todo"
    | "f = Panic AssertFailed" | "f = fault.Err DecodeError" | "f = Panic ExplicitPanic"
    using assms by (auto simp: reply_fault_def response_fault_def wire_fault_def)
  then show ?thesis
  proof cases
    case 4
    have "length (jute_bytes (MultiHeader_jute (one_header 10))) < 2 ^ 30"
      by (simp add: MultiHeader_jute_def)
    then show ?thesis using reply_body_fault reply_transaction_fails 4 by blast
  next
    case 8
    then show ?thesis using reply_frame [of "[]" 7 0 Map.empty, OF _ free_id refl] by auto
  next
    case 9
    then show ?thesis using decode_reply_short [of "[]"] by auto
  next
    case 5
    then have "ZkResponse_deserialize B (Some OpCodes.Connect) [] = Inl f"
      by (simp add: ZkResponse_deserialize_def ZkResponse_read_def)
    then show ?thesis by (rule reply_body_fault) simp
  next
    case 6
    then have "ZkResponse_deserialize B (Some OpCodes.Sync) [] = Inl f"
      by (simp add: ZkResponse_deserialize_def ZkResponse_read_def)
    then show ?thesis by (rule reply_body_fault) simp
  next
    case 7
    then have "ZkResponse_deserialize B (Some OpCodes.Delete) [0] = Inl f"
      by (simp add: ZkResponse_deserialize_def ZkResponse_read_def last_of_def bind_def assert_empty_def)
    then show ?thesis by (rule reply_body_fault) simp
  qed (rule reply_body_fault [OF reply_string_fault], use strings_fail in auto)+
qed

theorem decode_reply_fault_iff: "(\<exists>m bs. decode_reply B m bs = Inl f) \<longleftrightarrow> reply_fault f"
  using each_reply_fault faults_inD [OF decode_reply_faults] by blast

end

end
