(* ===== verification/Up_Path.thy ===== *)
theory Up_Path
  imports Server Frame_Faults "HOL-Library.Sublist"
begin

text \<open>
  From the client to the backend: what the upstream loop reads, what it writes and what the table
  of the backend codec holds, whatever the events; which requests go through unchanged, and what
  stops the flow.
\<close>

section \<open>The way up\<close>

text \<open>What the proxy writes for a packet.\<close>

definition packet_frame :: "RequestPacket \<Rightarrow> bytes" where
  "packet_frame p =
     (let body = jute_bytes (RequestPacket_jute p) in be_bytes 4 (length body) @ body)"

text \<open>What \<open>pipe\<close> ends with when the decoder does not deliver.\<close>

fun ending_of :: "('a, ZkError) result \<Rightarrow> (unit, ZkError) result" where
  "ending_of (Inr x) = Inr ()"
| "ending_of (Inl (fault.Err e)) = Inr ()"
| "ending_of (Inl (Panic p)) = Inl (Panic p)"
| "ending_of (Inl Diverge) = Inl Diverge"

text \<open>The state after a packet has been read and given to the sink.\<close>

definition pass_on ::
  "bool \<Rightarrow> RequestPacket \<Rightarrow> ServerPacketCodec \<Rightarrow> bytes \<Rightarrow> UpStreamConnection \<Rightarrow> UpStreamConnection" where
  "pass_on takes r c buf u =
     (let u' = u\<lparr>c2p_framed := c, c2p_buf := buf, forwarded := forwarded u @ [r]\<rparr>
      in if takes then u'\<lparr>p2b_framed := remember r (p2b_framed u), p2b_buf := p2b_buf u @ packet_frame r\<rparr>
         else u')"

context proxy_laws
begin

lemma p2b_send_eq:
  "p2b_send B takes r u =
    (if takes then u\<lparr>p2b_framed := remember r (p2b_framed u), p2b_buf := p2b_buf u @ packet_frame r\<rparr> else u, None)"
  by (simp add: p2b_send_def client_encode_eq packet_frame_def length_jute_bytes Let_def)

lemma upstream_turnE:
  obtains
    (forwards) r c buf where
      "ServerPacketCodec_decode B (c2p_framed u) (c2p_buf u) = (Inr (Some r), c, buf)"
      "UpStreamConnection_pipe B T takes u = (pass_on takes r c buf u, None)"
  | (waits) c buf where
      "ServerPacketCodec_decode B (c2p_framed u) (c2p_buf u) = (Inr None, c, buf)" "\<not> c2p_eof u"
      "UpStreamConnection_pipe B T takes u = (u\<lparr>c2p_framed := c, c2p_buf := buf\<rparr>, None)"
  | (ends) out c buf where
      "ServerPacketCodec_decode B (c2p_framed u) (c2p_buf u) = (out, c, buf)"
      "out = Inr None \<and> c2p_eof u \<or> (\<exists>f. out = Inl f)"
      "UpStreamConnection_pipe B T takes u = (u\<lparr>c2p_framed := c, c2p_buf := buf\<rparr>, Some (ending_of out))"
proof -
  let ?dec = "ServerPacketCodec_decode B" and ?c = "c2p_framed u" and ?buf = "c2p_buf u"
  obtain out c buf where dec: "?dec ?c ?buf = (out, c, buf)" by (metis prod_cases3)
  have plain: thesis if "(if c2p_eof u then provided_decode_eof T ?dec else ?dec) ?c ?buf = ?dec ?c ?buf"
  proof (cases out)
    case (Inl f)
    then show thesis
      using dec that by (intro ends [OF dec]; cases f) (auto simp: UpStreamConnection_pipe_def)
  next
    case (Inr x)
    show thesis
    proof (cases x)
      case None
      then show thesis
        using dec that Inr by (cases "c2p_eof u") (auto simp: UpStreamConnection_pipe_def intro: ends waits)
    next
      case (Some r)
      then show thesis
        using dec that Inr
        by (intro forwards) (auto simp: UpStreamConnection_pipe_def p2b_send_eq pass_on_def Let_def)
    qed
  qed
  show thesis
  proof (rule decode_eof_cases [of ?dec ?c ?buf])
    assume "provided_decode_eof T ?dec ?c ?buf = ?dec ?c ?buf"
    then show thesis by (intro plain) simp
  next
    fix e c' src'
    assume eof: "?dec ?c ?buf = (Inr None, c', src')"
      "provided_decode_eof T ?dec ?c ?buf = (Inl (fault.Err e), c', src')"
    show thesis
    proof (cases "c2p_eof u")
      case True
      then show thesis using eof by (intro ends [OF eof(1)]) (auto simp: UpStreamConnection_pipe_def)
    qed (intro plain, simp)
  qed
qed

end

text \<open>
  What is written, and the table. Until a write fails, what has been written and what waits to
  be are the frames of the packets read, and the table is what was remembered of them. In any
  case what has been written is a prefix of that, and the table comes from some of the packets.
\<close>

definition up_ok :: "connection \<Rightarrow> bool" where
  "up_ok s \<longleftrightarrow> (let u = upstream_conn s in
     (\<not> p2b_broken u \<longrightarrow> to_backend u @ p2b_buf u = concat (map packet_frame (forwarded u)) \<and>
        p2b_framed u = fold remember (forwarded u) new_client) \<and>
     prefix (to_backend u) (concat (map packet_frame (forwarded u))) \<and>
     (\<exists>taken. subseq taken (forwarded u) \<and> p2b_framed u = fold remember taken new_client))"

lemma up_okI:
  assumes "to_backend (upstream_conn s) @ p2b_buf (upstream_conn s) =
      concat (map packet_frame (forwarded (upstream_conn s)))"
    and "p2b_framed (upstream_conn s) = fold remember (forwarded (upstream_conn s)) new_client"
  shows "up_ok s"
  using assms by (auto simp: up_ok_def Let_def intro: prefixI [OF sym])

context proxy_laws
begin

lemma pass_on_up_ok:
  assumes "up_ok s" and "p2b_broken (upstream_conn s) \<or> takes"
  shows "up_ok (s\<lparr>upstream_conn := pass_on takes p c buf (upstream_conn s), handled := r\<rparr>)"
proof -
  obtain taken where taken: "subseq taken (forwarded (upstream_conn s))"
    "p2b_framed (upstream_conn s) = fold remember taken new_client"
    using assms(1) by (auto simp: up_ok_def Let_def)
  have "subseq taken (forwarded (upstream_conn s) @ [p])"
    "subseq (taken @ [p]) (forwarded (upstream_conn s) @ [p])"
    using taken(1) by (auto intro: subseq_rev_drop_many list_emb_append_mono)
  moreover have "fold remember (taken @ [p]) new_client = remember p (p2b_framed (upstream_conn s))"
    by (simp add: taken(2))
  ultimately have "\<exists>taken'. subseq taken' (forwarded (upstream_conn s) @ [p]) \<and>
      (if takes then remember p (p2b_framed (upstream_conn s)) else p2b_framed (upstream_conn s)) =
        fold remember taken' new_client"
    using taken(2) by metis
  then show ?thesis
    using assms by (auto simp: up_ok_def pass_on_def Let_def prefix_def)
qed

lemma up_kept:
  assumes "up_ok s" and "happens B T ev s = Some s'"
  shows "up_ok s'"
  using assms(2)
proof (cases rule: happensE)
  case (upstream u r)
  show ?thesis
  proof (cases ev)
    case (UpstreamTurn takes)
    then have turn: "UpStreamConnection_pipe B T takes (upstream_conn s) = (u, r)"
      "p2b_broken (upstream_conn s) \<or> takes"
      using upstream(2) by (auto simp: upstream_happens_def split: if_splits)
    show ?thesis
    proof (cases rule: upstream_turnE [of "upstream_conn s" takes])
      case (forwards p c buf)
      then show ?thesis using pass_on_up_ok [OF assms(1) turn(2)] turn(1) upstream(3) by simp
    qed (use turn assms(1) upstream(3) in \<open>auto simp: up_ok_def Let_def\<close>)
  next
    case (P2BWrites n)
    then have u: "u = (upstream_conn s)\<lparr>p2b_buf := drop n (p2b_buf (upstream_conn s)),
        to_backend := to_backend (upstream_conn s) @ take n (p2b_buf (upstream_conn s))\<rparr>"
      "\<not> p2b_broken (upstream_conn s)"
      using upstream(2) by (auto simp: upstream_happens_def split: if_splits)
    then show ?thesis
      using assms(1) upstream(3) by (intro up_okI) (auto simp: up_ok_def Let_def)
  qed (use upstream assms(1) in \<open>auto simp: upstream_happens_def up_ok_def Let_def split: if_splits\<close>)
qed (use assms(1) in \<open>simp_all add: up_ok_def\<close>)

end

sublocale proxy_laws \<subseteq> up: invariant accepted "happens B T" up_ok
proof
  show "accepted s \<Longrightarrow> up_ok s" for s
    by (auto simp: new_conn_def new_upstream_def intro!: up_okI)
qed (rule up_kept)

subsection \<open>Reading\<close>

text \<open>
  The reading of the client's bytes is a run of a stream decoder, up to the turn that ends the
  connection.
\<close>

definition upstream_reader :: "UpStreamConnection \<Rightarrow> (ServerPacketCodec, RequestPacket) reader" where
  "upstream_reader u = \<lparr>codec_of = c2p_framed u, buffer = c2p_buf u, received = from_client u,
     delivered = forwarded u\<rparr>"

definition reading_ok :: "bytes_crate \<Rightarrow> connection \<Rightarrow> bool" where
  "reading_ok B s \<longleftrightarrow> (\<exists>r. reads (ServerPacketCodec_decode B) new_server r \<and>
     received r = from_client (upstream_conn s) \<and> delivered r = forwarded (upstream_conn s) \<and>
     (handled s = None \<longrightarrow> r = upstream_reader (upstream_conn s)))"

context proxy_laws
begin

lemma upstream_step_reads:
  assumes "upstream_happens B T ev u = Some (u', r)"
  shows "upstream_reader u' = upstream_reader u \<or>
    read_step (ServerPacketCodec_decode B) (upstream_reader u) (upstream_reader u') \<or>
    r \<noteq> None \<and> from_client u' = from_client u \<and> forwarded u' = forwarded u"
proof (cases ev)
  case (ClientSends chunk)
  then show ?thesis
    using assms read_step.arrive [of "ServerPacketCodec_decode B" "upstream_reader u" chunk]
    by (auto simp: upstream_happens_def upstream_reader_def split: if_splits)
next
  case (UpstreamTurn takes)
  then have turn: "UpStreamConnection_pipe B T takes u = (u', r)"
    using assms by (auto simp: upstream_happens_def split: if_splits)
  show ?thesis
  proof (cases rule: upstream_turnE [of u takes])
    case (forwards p c buf)
    then show ?thesis
      using turn read_step.item [of "ServerPacketCodec_decode B" "upstream_reader u" p c buf]
      by (auto simp: upstream_reader_def pass_on_def Let_def)
  next
    case (waits c buf)
    then show ?thesis
      using turn read_step.pending [of "ServerPacketCodec_decode B" "upstream_reader u" c buf]
      by (auto simp: upstream_reader_def)
  qed (use turn in auto)
qed (use assms in \<open>auto simp: upstream_happens_def upstream_reader_def split: if_splits\<close>)

lemma reading_kept:
  assumes "reading_ok B s" and "happens B T ev s = Some s'"
  shows "reading_ok B s'"
  using assms(2)
proof (cases rule: happensE)
  case (upstream u r)
  then have reads: "reads (ServerPacketCodec_decode B) new_server (upstream_reader (upstream_conn s))"
    using assms(1) by (auto simp: reading_ok_def)
  from upstream_step_reads [OF upstream(2)] show ?thesis
  proof (elim disjE)
    assume "r \<noteq> None \<and> from_client u = from_client (upstream_conn s) \<and>
      forwarded u = forwarded (upstream_conn s)"
    then show ?thesis
      using reads upstream(3) by (auto simp: reading_ok_def upstream_reader_def intro!: exI)
  qed (use reads upstream(3) in \<open>auto simp: reading_ok_def upstream_reader_def
    intro!: exI [of _ "upstream_reader u"] intro: reads.step\<close>)
qed (use assms(1) happens_running [OF assms(2)] in \<open>auto simp: reading_ok_def\<close>)

end

sublocale proxy_laws \<subseteq> reading: invariant accepted "happens B T" "reading_ok B"
proof
  show "accepted s \<Longrightarrow> reading_ok B s" for s
    using reads.start [of "ServerPacketCodec_decode B" new_server]
    by (auto simp: reading_ok_def new_conn_def new_upstream_def upstream_reader_def new_reader_def)
qed (rule reading_kept)

text \<open>What the table of a codec says of the last request with an id.\<close>

definition known :: "RequestPacket \<Rightarrow> (i32 \<times> OpCodes) option" where
  "known p = (case request_header p of None \<Rightarrow> None | Some h \<Rightarrow>
     map_option (Pair (RequestHeader.xid h)) (OpCodes_from_i32 (RequestHeader.r_type h)))"

lemma remember_table:
  "requests_by_xid (remember p c) =
    (case known p of None \<Rightarrow> requests_by_xid c | Some (x, op) \<Rightarrow> (requests_by_xid c)(x \<mapsto> op))"
  by (simp add: remember_def known_def split: option.split)

lemma fold_remember:
  "requests_by_xid (fold remember ps c) = requests_by_xid c ++ map_of (rev (List.map_filter known ps))"
  by (induction ps arbitrary: c) (auto simp: remember_table List.map_filter_simps split: option.split)

subsection \<open>Canonical requests\<close>

text \<open>
  The packets the proxy passes on unchanged: a header that goes with the body, a body that
  fits the format and the frame limit, and for a connect request protocol version 0 (the only
  one there is) and \<open>read_only\<close> unset.
\<close>

definition canonical :: "RequestPacket \<Rightarrow> bool" where
  "canonical p \<longleftrightarrow> jute_size (RequestPacket_jute p) \<le> 1048576 \<and>
     (case request_header p of
        Some h \<Rightarrow> header_ok h (request p)
      | None \<Rightarrow> (case request p of
          Request.Connect c \<Rightarrow> ConnectRequest.protocol_version c = 0 \<and>
            ConnectRequest.read_only c = 0 \<and> jute_ok (ConnectRequest_head c)
        | _ \<Rightarrow> False))"

context bytes_laws
begin

lemma decode_canonical:
  assumes "canonical p"
  shows "\<exists>left. decode_inner B (jute_bytes (RequestPacket_jute p)) = Inr (Some p, left)"
proof -
  have short: "length (jute_bytes (RequestPacket_jute p)) < 2 ^ 31"
    using assms by (simp add: canonical_def length_jute_bytes)
  show ?thesis
  proof (cases "request_header p")
    case (Some h)
    then show ?thesis
      using assms by (simp add: decode_inner_iff [OF short] canonical_def)
  next
    case None
    then obtain c where c: "request p = Request.Connect c" "ConnectRequest.protocol_version c = 0"
      "ConnectRequest.read_only c = 0" "jute_ok (ConnectRequest_head c)"
      using assms by (auto simp: canonical_def split: Request.splits)
    have bytes: "jute_bytes (RequestPacket_jute p) = jute_bytes (ConnectRequest_head c) @ [0]"
      using None c by (simp add: RequestPacket_jute_def ConnectRequest_jute_bytes)
    have "ConnectRequest_deserialize B (jute_bytes (ConnectRequest_head c) @ [0]) = Inr (c, [0])"
      using c by (auto simp: ConnectRequest_read_iff)
    moreover have "take 4 (jute_bytes (ConnectRequest_head c) @ [0]) = be_bytes 4 0"
      "8 \<le> length (jute_bytes (ConnectRequest_head c) @ [0])"
      using c(2) by (simp_all add: ConnectRequest_head_def)
    ultimately have "decode_inner B (jute_bytes (RequestPacket_jute p)) = Inr (Some p, [0])"
      using None c(1) unfolding decode_inner_iff [OF short] by (simp only: bytes) simp
    then show ?thesis by blast
  qed
qed

lemma decode_packet_frame:
  assumes "canonical p" and "ServerPacketCodec.inner c = ready"
  shows "ServerPacketCodec_decode B c (packet_frame p @ rest) = (Inr (Some p), c, rest)"
proof -
  have "length (jute_bytes (RequestPacket_jute p)) \<le> 1048576"
    using assms(1) by (simp add: canonical_def length_jute_bytes)
  then show ?thesis
    using decode_canonical [OF assms(1)] server_decode_frame [OF assms(2), of _ rest]
    by (auto simp: packet_frame_def Let_def)
qed

lemma deliver_packets:
  assumes "\<forall>p \<in> set ps. canonical p"
  shows "deliver (ServerPacketCodec_decode B) k new_server (concat (map packet_frame ps) @ tail) =
    take k ps @ deliver (ServerPacketCodec_decode B) (k - length ps) new_server tail"
  using assms
proof (induction ps arbitrary: k)
  case (Cons p ps)
  then show ?case
    by (cases k) (simp_all add: decode_packet_frame new_server_def)
qed simp

lemma deliver_nothing: "deliver (ServerPacketCodec_decode B) k new_server [] = []"
proof -
  have "LengthDelimitedCodec_decode B ready [] = (Inr None, ready, [])"
    by (rule decode_nothing [OF codec_ok_ready]) (simp add: ready_def)
  then show ?thesis
    by (cases k) (simp_all add: ServerPacketCodec_decode_def new_server_def)
qed

end

context proxy_laws
begin

text \<open>The packets forwarded are a function of the bytes received.\<close>

lemma forwarded_eq:
  assumes "reachable B T s"
  shows "deliver (ServerPacketCodec_decode B) (length (forwarded (upstream_conn s))) new_server
    (from_client (upstream_conn s) @ later) = forwarded (upstream_conn s)"
proof -
  obtain r where r: "reads (ServerPacketCodec_decode B) new_server r"
    "received r = from_client (upstream_conn s)" "delivered r = forwarded (upstream_conn s)"
    using reading.always [OF assms] by (auto simp: reading_ok_def)
  show ?thesis
    using server_reads.reads_invariant [OF r(1) codec_ok_new_server, THEN conjunct2, rule_format, of 0 later]
    by (simp add: r)
qed

lemma upstream_refines:
  assumes "reachable B T s" and "u = upstream_conn s"
  shows "forwarded u = deliver (ServerPacketCodec_decode B) (length (forwarded u)) new_server (from_client u) \<and>
    prefix (to_backend u) (concat (map packet_frame (forwarded u))) \<and>
    (\<not> p2b_broken u \<longrightarrow> to_backend u @ p2b_buf u = concat (map packet_frame (forwarded u)))"
  using forwarded_eq [OF assms(1), of "[]"] up.always [OF assms(1)]
  by (simp add: assms(2) up_ok_def Let_def)

text \<open>
  Canonical requests go through unchanged, and what the decoder refuses stops the flow: nothing
  behind it gets through.
\<close>

lemma requests_pass_until:
  assumes "reachable B T s" and "u = upstream_conn s" and "\<forall>p \<in> set ps. canonical p"
    and "from_client u @ on_the_way = concat (map packet_frame ps) @ tail"
    and "\<And>k. deliver (ServerPacketCodec_decode B) k new_server tail = []"
  shows "prefix (forwarded u) ps \<and> prefix (to_backend u) (concat (map packet_frame ps))"
proof -
  have "forwarded u = take (length (forwarded u)) ps"
    using forwarded_eq [OF assms(1), of on_the_way] deliver_packets [OF assms(3)] assms(2,4,5) by simp
  then have prefix: "prefix (forwarded u) ps" by (metis take_is_prefix)
  then have "prefix (concat (map packet_frame (forwarded u))) (concat (map packet_frame ps))"
    by (auto simp: prefix_def)
  moreover have "prefix (to_backend u) (concat (map packet_frame (forwarded u)))"
    using upstream_refines [OF assms(1,2)] by blast
  ultimately show ?thesis using prefix prefix_order.trans by blast
qed

lemma requests_pass:
  assumes "reachable B T s" and "u = upstream_conn s" and "\<forall>p \<in> set ps. canonical p"
    and "from_client u @ on_the_way = concat (map packet_frame ps)"
  shows "prefix (forwarded u) ps \<and> prefix (to_backend u) (from_client u @ on_the_way)"
  using requests_pass_until [OF assms(1-3), of on_the_way "[]"] assms(4) deliver_nothing by simp

lemma refused_stops:
  assumes "reachable B T s" and "u = upstream_conn s" and "\<forall>p \<in> set ps. canonical p"
    and "ServerPacketCodec_decode B new_server bad = (Inl f, c, rest)"
    and "from_client u @ on_the_way = concat (map packet_frame ps) @ bad @ later"
  shows "prefix (forwarded u) ps \<and> prefix (to_backend u) (concat (map packet_frame ps))"
proof -
  have "ServerPacketCodec_decode B new_server (bad @ later) = (Inl f, c, rest @ later)"
    using server_reads.more_after [OF codec_ok_new_server assms(4)] by simp
  then have "deliver (ServerPacketCodec_decode B) k new_server (bad @ later) = []" for k
    by (cases k) simp_all
  then show ?thesis by (rule requests_pass_until [OF assms(1-3,5)])
qed

text \<open>No event takes an entry from the table.\<close>

lemma remember_grows: "requests_by_xid c x = Some op \<Longrightarrow> \<exists>op'. requests_by_xid (remember r c) x = Some op'"
  by (auto simp: remember_def split: option.splits)

lemma table_kept:
  assumes "happens B T ev s = Some s'"
  shows "dom (requests_by_xid (p2b_framed (upstream_conn s))) \<subseteq>
    dom (requests_by_xid (p2b_framed (upstream_conn s')))"
  using assms
proof (cases rule: happensE)
  case (upstream u r)
  have "dom (requests_by_xid (p2b_framed (upstream_conn s))) \<subseteq> dom (requests_by_xid (p2b_framed u))"
  proof (cases ev)
    case (UpstreamTurn takes)
    then have "UpStreamConnection_pipe B T takes (upstream_conn s) = (u, r)"
      using upstream(2) by (auto simp: upstream_happens_def split: if_splits)
    then show ?thesis
      using remember_grows
      by (cases rule: upstream_turnE [of "upstream_conn s" takes]) (auto simp: pass_on_def Let_def)
  qed (use upstream(2) in \<open>auto simp: upstream_happens_def split: if_splits\<close>)
  with upstream(3) show ?thesis by simp
qed simp_all

lemma table_kept_by_run:
  assumes "run B T evs s = Some s'"
  shows "dom (requests_by_xid (p2b_framed (upstream_conn s))) \<subseteq>
    dom (requests_by_xid (p2b_framed (upstream_conn s')))"
  using assms
proof (induction evs arbitrary: s)
  case (Cons ev evs)
  then obtain s1 where "happens B T ev s = Some s1" "run B T evs s1 = Some s'"
    by (auto split: option.splits)
  with Cons.IH table_kept show ?case by blast
qed simp

lemma table_of_forwarded:
  assumes "reachable B T s" and "u = upstream_conn s"
  shows "(\<not> p2b_broken u \<longrightarrow> requests_by_xid (p2b_framed u) = map_of (rev (List.map_filter known (forwarded u)))) \<and>
    (requests_by_xid (p2b_framed u) x = Some op \<longrightarrow> (\<exists>p \<in> set (forwarded u). known p = Some (x, op)))"
proof -
  have ok: "up_ok s" by (rule up.always [OF assms(1)])
  then obtain taken where taken: "subseq taken (forwarded u)" "p2b_framed u = fold remember taken new_client"
    by (auto simp: up_ok_def Let_def assms(2))
  have "\<exists>p \<in> set taken. known p = Some (x, op)" if "requests_by_xid (p2b_framed u) x = Some op"
  proof -
    have "(x, op) \<in> set (List.map_filter known taken)"
      using that by (auto simp: taken(2) fold_remember new_client_def dest: map_of_SomeD)
    then obtain p where "p \<in> set taken" "known p = Some (x, op)"
      by (auto simp: List.map_filter_def)
    then show ?thesis by blast
  qed
  moreover have "set taken \<subseteq> set (forwarded u)" using taken(1) by (auto elim: list_emb_set)
  ultimately show ?thesis
    using ok by (auto simp: up_ok_def Let_def assms(2) fold_remember new_client_def)
qed

end

section \<open>Everything arrives\<close>

abbreviation up_events :: "event set" where
  "up_events \<equiv> insert (UpstreamTurn True) (range P2BWrites)"

context proxy_laws
begin

lemma p2b_writes_all:
  assumes "handled s = None" and "\<not> p2b_broken (upstream_conn s)"
  shows "happens B T (P2BWrites (length (p2b_buf (upstream_conn s)))) s =
    Some (s\<lparr>upstream_conn := (upstream_conn s)\<lparr>p2b_buf := [],
      to_backend := to_backend (upstream_conn s) @ p2b_buf (upstream_conn s)\<rparr>\<rparr>)"
  using assms by (simp add: happens_def upstream_happens_def)

lemma upstream_turn_forwards:
  assumes "ServerPacketCodec_decode B (c2p_framed u) (c2p_buf u) = (Inr (Some r), c, buf)"
  shows "UpStreamConnection_pipe B T takes u = (pass_on takes r c buf u, None)"
  by (rule upstream_turnE [of u takes]) (use assms in auto)

lemma up_drains:
  assumes "handled s = None" and "\<not> p2b_broken (upstream_conn s)"
    and "length (deliver (ServerPacketCodec_decode B) k (c2p_framed (upstream_conn s)) (c2p_buf (upstream_conn s))) = k"
  shows "leads_to (happens B T) up_events s (\<lambda>s'. handled s' = None \<and> p2b_buf (upstream_conn s') = [] \<and>
    \<not> p2b_broken (upstream_conn s') \<and> from_client (upstream_conn s') = from_client (upstream_conn s) \<and>
    forwarded (upstream_conn s') = forwarded (upstream_conn s) @
      deliver (ServerPacketCodec_decode B) k (c2p_framed (upstream_conn s)) (c2p_buf (upstream_conn s)))"
  using assms
proof (induction k arbitrary: s)
  case 0
  show ?case
    by (rule leads_step [of "happens B T", OF p2b_writes_all [OF 0(1,2)]], simp, rule leads_now) (use 0 in simp)
next
  case (Suc k)
  let ?s1 = "s\<lparr>upstream_conn := (upstream_conn s)\<lparr>p2b_buf := [],
      to_backend := to_backend (upstream_conn s) @ p2b_buf (upstream_conn s)\<rparr>\<rparr>"
  obtain r c buf where dec: "ServerPacketCodec_decode B (c2p_framed (upstream_conn s)) (c2p_buf (upstream_conn s)) =
      (Inr (Some r), c, buf)"
    using Suc.prems(3) by (auto split: prod.splits sum.splits option.splits)
  let ?s2 = "?s1\<lparr>upstream_conn := pass_on True r c buf (upstream_conn ?s1)\<rparr>"
  have turn: "happens B T (UpstreamTurn True) ?s1 = Some ?s2"
    using Suc.prems(1) dec by (simp add: happens_def upstream_happens_def upstream_turn_forwards)
  have two: "handled ?s2 = None" "\<not> p2b_broken (upstream_conn ?s2)" "c2p_framed (upstream_conn ?s2) = c"
    "c2p_buf (upstream_conn ?s2) = buf" "from_client (upstream_conn ?s2) = from_client (upstream_conn s)"
    "forwarded (upstream_conn ?s2) = forwarded (upstream_conn s) @ [r]"
    using Suc.prems(1,2) by (simp_all add: pass_on_def Let_def)
  from Suc.prems(3) dec have "length (deliver (ServerPacketCodec_decode B) k c buf) = k" by simp
  with Suc.IH [of ?s2] two have "leads_to (happens B T) up_events ?s2 (\<lambda>s'. handled s' = None \<and>
      p2b_buf (upstream_conn s') = [] \<and> \<not> p2b_broken (upstream_conn s') \<and>
      from_client (upstream_conn s') = from_client (upstream_conn s) \<and>
      forwarded (upstream_conn s') = (forwarded (upstream_conn s) @ [r]) @
        deliver (ServerPacketCodec_decode B) k c buf)" by simp
  then show ?case
    using dec by (intro leads_step [of "happens B T", OF p2b_writes_all [OF Suc.prems(1,2)]] leads_step [of "happens B T", OF turn]) simp_all
qed

lemma requests_arrive:
  assumes "reachable B T s" and "handled s = None" and "\<not> p2b_broken (upstream_conn s)"
    and "\<forall>p \<in> set ps. canonical p" and "from_client (upstream_conn s) = concat (map packet_frame ps)"
  shows "\<exists>evs s'. set evs \<subseteq> up_events \<and> run B T evs s = Some s' \<and>
    forwarded (upstream_conn s') = ps \<and> to_backend (upstream_conn s') = from_client (upstream_conn s)"
proof -
  let ?dec = "ServerPacketCodec_decode B" and ?u = "upstream_conn s"
  let ?k = "length ps - length (forwarded ?u)"
  have reads: "reads ?dec new_server (upstream_reader ?u)"
    using reading.always [OF assms(1)] assms(2) by (auto simp: reading_ok_def)
  have prefix: "prefix (forwarded ?u) ps"
    using requests_pass [OF assms(1) refl assms(4), of "[]"] assms(5) by simp
  then have len: "length (forwarded ?u) \<le> length ps" by (rule prefix_length_le)
  have "take (length (forwarded ?u) + ?k) ps = forwarded ?u @ deliver ?dec ?k (c2p_framed ?u) (c2p_buf ?u)"
    using server_reads.reads_invariant [OF reads codec_ok_new_server, THEN conjunct2, rule_format, of ?k "[]"]
      deliver_packets [OF assms(4), of _ "[]"] assms(5) len by (simp add: upstream_reader_def)
  then have rest: "ps = forwarded ?u @ deliver ?dec ?k (c2p_framed ?u) (c2p_buf ?u)"
    using len by simp
  then have "length (deliver ?dec ?k (c2p_framed ?u) (c2p_buf ?u)) = ?k"
    by (metis add_diff_cancel_left' length_append)
  from leads_reached [OF up_drains [OF assms(2,3) this] assms(1)] rest obtain es s' where
    run: "set es \<subseteq> up_events" "run B T es s = Some s'" and
    s': "p2b_buf (upstream_conn s') = []" "\<not> p2b_broken (upstream_conn s')"
      "forwarded (upstream_conn s') = ps" "reachable B T s'" by metis
  then have "to_backend (upstream_conn s') = from_client (upstream_conn s)"
    using up.always [OF s'(4)] assms(5) by (simp add: up_ok_def Let_def)
  with run s'(3) show ?thesis by blast
qed

end

end
