(* ===== verification/Down_Path.thy ===== *)
theory Down_Path
  imports Server "HOL-Library.Sublist"
begin

text \<open>
  From the backend to the client: what the two downstream loops and the channel do to the bytes,
  as an invariant, as a refinement of a pipe, and as progress.
\<close>

section \<open>The way down\<close>

text \<open>
  Between the backend and the client there are the buffer of the reader, the channel and the
  buffer of the writer.
\<close>

definition transit :: "connection \<Rightarrow> bytes" where
  "transit s = p2c_buf (p2c_downstream_conn s) @ concat (channel s) @ b2p_buf (b2p_downstream_conn s)"

definition down_ok :: "connection \<Rightarrow> bool" where
  "down_ok s \<longleftrightarrow>
     (\<not> p2c_broken (p2c_downstream_conn s) \<longrightarrow>
        to_client (p2c_downstream_conn s) @ transit s = from_backend (b2p_downstream_conn s)) \<and>
     prefix (to_client (p2c_downstream_conn s)) (from_backend (b2p_downstream_conn s))"

context proxy_laws
begin

lemma b2p_turn_keeps:
  assumes "B2PDownStreamConnection_pipe T b = (b', sent, r)"
  shows "concat sent @ b2p_buf b' = b2p_buf b \<and> from_backend b' = from_backend b"
  using assms bytes_decode_Some [of "b2p_buf b"] bytes_decode_None [of "b2p_buf b"]
  by (auto simp: B2PDownStreamConnection_pipe_def split: prod.splits option.splits)

lemma b2p_keeps:
  assumes "b2p_happens T ev b = Some (b', sent, r)"
  shows "\<exists>new. from_backend b' = from_backend b @ new \<and> concat sent @ b2p_buf b' = b2p_buf b @ new"
proof (cases ev)
  case (BackendSends chunk)
  then show ?thesis using assms by (auto simp: b2p_happens_def split: if_splits)
next
  case B2PTurn
  then show ?thesis using assms b2p_turn_keeps [of b b' sent r] by (auto simp: b2p_happens_def)
qed (use assms in \<open>auto simp: b2p_happens_def\<close>)

lemma p2c_keeps:
  assumes "p2c_happens T ev ch d = Some (d', ch')" and "\<not> p2c_broken d'"
  shows "\<not> p2c_broken d \<and>
    to_client d' @ p2c_buf d' @ concat ch' = to_client d @ p2c_buf d @ concat ch"
  using assms
  by (auto simp: p2c_happens_def P2CDownStreamConnection_pipe_def bytes_encode_law
      split: event.splits if_splits list.splits)

lemma p2c_frozen:
  assumes "p2c_happens T ev ch d = Some (d', ch')" and "p2c_broken d'"
  shows "to_client d' = to_client d"
  using assms
  by (auto simp: p2c_happens_def P2CDownStreamConnection_pipe_def split: event.splits if_splits list.splits)

lemma down_kept:
  assumes "down_ok s" and "happens B T ev s = Some s'"
  shows "down_ok s'"
  using assms(2)
proof (cases rule: happensE)
  case (upstream u r)
  then show ?thesis using assms(1) by (simp add: down_ok_def transit_def)
next
  case (b2p b sent r)
  from b2p_keeps [OF b2p(2)] show ?thesis
    using assms(1) b2p(3) by (auto simp: down_ok_def transit_def prefix_def)
next
  case (p2c d rest)
  show ?thesis
  proof (cases "p2c_broken d")
    case True
    then show ?thesis using assms(1) p2c p2c_frozen [OF p2c(2)] by (simp add: down_ok_def)
  next
    case False
    with p2c_keeps [OF p2c(2)] have eq: "\<not> p2c_broken (p2c_downstream_conn s)"
      "to_client d @ p2c_buf d @ concat rest =
        to_client (p2c_downstream_conn s) @ p2c_buf (p2c_downstream_conn s) @ concat (channel s)" by auto
    then have "to_client d @ transit s' = to_client (p2c_downstream_conn s) @ transit s"
      using p2c(3) by (simp add: transit_def)
    with eq(1) show ?thesis
      using assms(1) p2c(3) by (simp add: down_ok_def) (metis prefixI)
  qed
qed

end

sublocale proxy_laws \<subseteq> down: invariant accepted "happens B T" down_ok
proof
  show "accepted s \<Longrightarrow> down_ok s" for s
    by (simp add: new_conn_def down_ok_def transit_def P2CDownStreamConnection_new_def
        B2PDownStreamConnection_new_def)
qed (rule down_kept)

text \<open>
  The specification of the way down is a pipe: bytes are put in at one end, and the next \<open>n\<close> of
  those that were put in come out at the other.
\<close>

record byte_pipe =
  put_in :: bytes
  got_out :: bytes

datatype pipe_event = Put bytes | Get nat

definition pipe_step :: "(pipe_event, byte_pipe) event_step" where
  "pipe_step ev p =
     (case ev of
        Put bs \<Rightarrow> Some (p\<lparr>put_in := put_in p @ bs\<rparr>)
      | Get n \<Rightarrow>
          if length (got_out p) + n \<le> length (put_in p)
          then Some (p\<lparr>got_out := take (length (got_out p) + n) (put_in p)\<rparr>) else None)"

definition down_view :: "event \<Rightarrow> pipe_event option" where
  "down_view ev =
     (case ev of BackendSends chunk \<Rightarrow> Some (Put chunk) | P2CWrites n \<Rightarrow> Some (Get n) | _ \<Rightarrow> None)"

definition down_pipe :: "connection \<Rightarrow> byte_pipe" where
  "down_pipe s = \<lparr>put_in = from_backend (b2p_downstream_conn s), got_out = to_client (p2c_downstream_conn s)\<rparr>"

lemma prefix_take: "prefix xs ys \<Longrightarrow> length xs = n \<Longrightarrow> take n ys = xs"
  by (auto simp: prefix_def)

context proxy_laws
begin

lemma down_unseen:
  assumes "happens B T ev s = Some s'" and "down_view ev = None"
  shows "down_pipe s' = down_pipe s"
  using assms(1)
proof (cases rule: happensE)
  case (b2p b sent r)
  then have "from_backend b = from_backend (b2p_downstream_conn s)"
    using assms(2) b2p_turn_keeps [of "b2p_downstream_conn s" b sent r]
    by (auto simp: b2p_happens_def down_view_def split: event.splits if_splits)
  with b2p(3) show ?thesis by (simp add: down_pipe_def)
next
  case (p2c d rest)
  then have "to_client d = to_client (p2c_downstream_conn s)"
    using assms(2)
    by (auto simp: p2c_happens_def down_view_def P2CDownStreamConnection_pipe_def
        split: event.splits if_splits list.splits)
  with p2c(3) show ?thesis by (simp add: down_pipe_def)
qed (simp add: down_pipe_def)

lemma down_seen:
  assumes "down_ok s" and "happens B T ev s = Some s'" and "down_view ev = Some f"
  shows "pipe_step f (down_pipe s) = Some (down_pipe s')"
proof (cases ev)
  case (BackendSends chunk)
  then show ?thesis
    using assms(2,3)
    by (auto simp: happens_def upstream_happens_def b2p_happens_def p2c_happens_def down_view_def
        pipe_step_def down_pipe_def split: if_splits)
next
  case (P2CWrites n)
  then have out: "length (to_client (p2c_downstream_conn s')) = length (to_client (p2c_downstream_conn s)) + n"
    "from_backend (b2p_downstream_conn s') = from_backend (b2p_downstream_conn s)"
    using assms(2)
    by (auto simp: happens_def upstream_happens_def b2p_happens_def p2c_happens_def split: if_splits)
  have "prefix (to_client (p2c_downstream_conn s')) (from_backend (b2p_downstream_conn s'))"
    using down_kept [OF assms(1,2)] by (simp add: down_ok_def)
  with out have "take (length (to_client (p2c_downstream_conn s)) + n) (from_backend (b2p_downstream_conn s)) =
      to_client (p2c_downstream_conn s')"
    "length (to_client (p2c_downstream_conn s)) + n \<le> length (from_backend (b2p_downstream_conn s))"
    using prefix_take prefix_length_le by metis+
  with P2CWrites assms(3) out(2) show ?thesis
    by (auto simp: down_view_def pipe_step_def down_pipe_def)
qed (use assms(3) in \<open>auto simp: down_view_def\<close>)

end

sublocale proxy_laws \<subseteq> down_pipe: simulation "happens B T" pipe_step down_view
    "\<lambda>s p. down_ok s \<and> p = down_pipe s"
  by unfold_locales (auto dest: down_seen down_unseen down_kept)

section \<open>Everything arrives\<close>

text \<open>The reader is drained into the channel, then the channel through the writer.\<close>

abbreviation p2c_events :: "event set" where
  "p2c_events \<equiv> insert (P2CTurn True) (range P2CWrites)"

context proxy_laws
begin

lemma b2p_drains:
  assumes "handled s = None"
  shows "leads_to (happens B T) {B2PTurn} s (\<lambda>s'. handled s' = None \<and>
    b2p_buf (b2p_downstream_conn s') = [] \<and>
    p2c_downstream_conn s' = p2c_downstream_conn s \<and>
    from_backend (b2p_downstream_conn s') = from_backend (b2p_downstream_conn s) \<and>
    concat (channel s') = concat (channel s) @ b2p_buf (b2p_downstream_conn s))"
  using assms
proof (induction "length (b2p_buf (b2p_downstream_conn s))" arbitrary: s rule: less_induct)
  case less
  show ?case
  proof (cases "b2p_buf (b2p_downstream_conn s) = []")
    case True
    then show ?thesis using less.prems by (intro leads_now) simp
  next
    case False
    then obtain chunk left where chunk: "bytes_codec_decode T (b2p_buf (b2p_downstream_conn s)) = (Some chunk, left)"
      "chunk \<noteq> []" "chunk @ left = b2p_buf (b2p_downstream_conn s)" by (rule bytes_decode_Cons)
    let ?s = "s\<lparr>b2p_downstream_conn := (b2p_downstream_conn s)\<lparr>b2p_buf := left\<rparr>,
      channel := channel s @ [chunk]\<rparr>"
    have turn: "happens B T B2PTurn s = Some ?s"
      using less.prems chunk(1)
      by (simp add: happens_def upstream_happens_def b2p_happens_def B2PDownStreamConnection_pipe_def)
    have "length (b2p_buf (b2p_downstream_conn ?s)) < length (b2p_buf (b2p_downstream_conn s))"
      using chunk(2) by (simp flip: chunk(3))
    then have "leads_to (happens B T) {B2PTurn} ?s (\<lambda>s'. handled s' = None \<and>
        b2p_buf (b2p_downstream_conn s') = [] \<and>
        p2c_downstream_conn s' = p2c_downstream_conn s \<and>
        from_backend (b2p_downstream_conn s') = from_backend (b2p_downstream_conn s) \<and>
        concat (channel s') = concat (channel s) @ b2p_buf (b2p_downstream_conn s))"
      using less.hyps [of ?s] less.prems by (simp flip: chunk(3))
    then show ?thesis
      by (rule leads_step [of "happens B T", OF turn singletonI])
  qed
qed

lemma p2c_writes_all:
  assumes "handled s = None" and "\<not> p2c_broken (p2c_downstream_conn s)"
  shows "happens B T (P2CWrites (length (p2c_buf (p2c_downstream_conn s)))) s =
    Some (s\<lparr>p2c_downstream_conn := (p2c_downstream_conn s)\<lparr>p2c_buf := [],
      to_client := to_client (p2c_downstream_conn s) @ p2c_buf (p2c_downstream_conn s)\<rparr>\<rparr>)"
  using assms by (simp add: happens_def upstream_happens_def b2p_happens_def p2c_happens_def)

lemma p2c_drains:
  assumes "handled s = None" and "\<not> p2c_broken (p2c_downstream_conn s)"
  shows "leads_to (happens B T) p2c_events s (\<lambda>s'. channel s' = [] \<and> p2c_buf (p2c_downstream_conn s') = [] \<and>
    \<not> p2c_broken (p2c_downstream_conn s') \<and> b2p_downstream_conn s' = b2p_downstream_conn s)"
  using assms
proof (induction "channel s" arbitrary: s)
  case Nil
  show ?case
    by (rule leads_step [of "happens B T", OF p2c_writes_all [OF Nil.prems]], simp, rule leads_now)
      (use Nil in simp)
next
  case (Cons res rest)
  let ?s1 = "s\<lparr>p2c_downstream_conn := (p2c_downstream_conn s)\<lparr>p2c_buf := [],
      to_client := to_client (p2c_downstream_conn s) @ p2c_buf (p2c_downstream_conn s)\<rparr>\<rparr>"
  let ?s2 = "?s1\<lparr>p2c_downstream_conn := P2CDownStreamConnection_pipe T True res (p2c_downstream_conn ?s1),
      channel := rest\<rparr>"
  have turn: "happens B T (P2CTurn True) ?s1 = Some ?s2"
    using Cons.prems Cons.hyps(2) [symmetric]
    by (simp add: happens_def upstream_happens_def b2p_happens_def p2c_happens_def)
  have "leads_to (happens B T) p2c_events ?s2 (\<lambda>s'. channel s' = [] \<and>
      p2c_buf (p2c_downstream_conn s') = [] \<and> \<not> p2c_broken (p2c_downstream_conn s') \<and>
      b2p_downstream_conn s' = b2p_downstream_conn ?s2)"
    using Cons.prems by (intro Cons.hyps(1)) (simp_all add: P2CDownStreamConnection_pipe_def)
  then show ?case
    by (intro leads_step [of "happens B T", OF p2c_writes_all [OF Cons.prems]] leads_step [of "happens B T", OF turn]) simp_all
qed

lemma replies_arrive:
  assumes "reachable B T s" and "handled s = None" and "\<not> p2c_broken (p2c_downstream_conn s)"
  shows "\<exists>evs s'. set evs \<subseteq> insert B2PTurn p2c_events \<and> run B T evs s = Some s' \<and>
    to_client (p2c_downstream_conn s') = from_backend (b2p_downstream_conn s)"
proof -
  have "leads_to (happens B T) (insert B2PTurn p2c_events) s (\<lambda>s'. transit s' = [] \<and>
      \<not> p2c_broken (p2c_downstream_conn s') \<and>
      from_backend (b2p_downstream_conn s') = from_backend (b2p_downstream_conn s))"
  proof (rule leads_trans [OF leads_mono [OF b2p_drains [OF assms(2)]]])
    fix s1 :: connection
    assume s1: "handled s1 = None \<and> b2p_buf (b2p_downstream_conn s1) = [] \<and>
      p2c_downstream_conn s1 = p2c_downstream_conn s \<and>
      from_backend (b2p_downstream_conn s1) = from_backend (b2p_downstream_conn s) \<and>
      concat (channel s1) = concat (channel s) @ b2p_buf (b2p_downstream_conn s)"
    show "leads_to (happens B T) (insert B2PTurn p2c_events) s1 (\<lambda>s'. transit s' = [] \<and>
      \<not> p2c_broken (p2c_downstream_conn s') \<and>
      from_backend (b2p_downstream_conn s') = from_backend (b2p_downstream_conn s))"
      by (rule leads_trans [OF leads_mono [OF p2c_drains]])
        (use s1 assms(3) in \<open>auto simp: transit_def intro: leads_now\<close>)
  qed simp
  from leads_reached [OF this assms(1)] show ?thesis
    using down.always by (force simp: down_ok_def)
qed

lemma down_ok_reached: "reachable B T s \<Longrightarrow> down_ok s"
  by (rule down.always)

lemma down_refines:
  assumes "reachable B T s" and "run B T evs s = Some s'"
  shows "run_events pipe_step (List.map_filter down_view evs) (down_pipe s) = Some (down_pipe s')"
  using down_pipe.runs_simulated [of s "down_pipe s" evs s'] down_ok_reached [OF assms(1)] assms(2) by auto

end

end
