(* ===== verification/Connection_End.thy ===== *)
theory Connection_End
  imports Up_Path Down_Path
begin

text \<open>
  How a connection ends: which events end it, with which result of \<open>handle_conn\<close>, and what is
  lost then, because \<open>select!\<close> drops the other loops with all they hold.
\<close>

section \<open>What ends a connection\<close>

text \<open>
  The turns that end it: a read fails, the backend has shut its side down and all it sent is in
  the channel, or the upstream loop meets the end of the requests or a frame it cannot read.
\<close>

definition ends_with :: "bytes_crate \<Rightarrow> event \<Rightarrow> connection \<Rightarrow> (unit, ZkError) result option" where
  "ends_with B ev s =
     (case ev of
        ClientReadFails \<Rightarrow> Some (Inr ())
      | BackendReadFails \<Rightarrow> Some (Inr ())
      | B2PTurn \<Rightarrow>
          if b2p_eof (b2p_downstream_conn s) \<and> b2p_buf (b2p_downstream_conn s) = [] then Some (Inr ()) else None
      | UpstreamTurn takes \<Rightarrow>
          (case ServerPacketCodec_decode B (c2p_framed (upstream_conn s)) (c2p_buf (upstream_conn s)) of
             (Inr (Some p), _) \<Rightarrow> None
           | (Inr None, _) \<Rightarrow> if c2p_eof (upstream_conn s) then Some (Inr ()) else None
           | (Inl f, _) \<Rightarrow> Some (ending_of (Inl f :: (unit, ZkError) result)))
      | _ \<Rightarrow> None)"

text \<open>
  The result is \<open>Ok(())\<close> or a panic that a frame of the client has caused, never an error: what
  \<open>ZkServer::start\<close> would print cannot occur.
\<close>

definition result_ok :: "connection \<Rightarrow> bool" where
  "result_ok s \<longleftrightarrow> handled s \<in> {None, Some (Inr ())} \<union>
     (\<lambda>p. Some (Inl (Panic p))) ` {BufUnderflow, CapacityOverflow, Unreachable, AssertFailed, ExplicitPanic}"

lemma ending_of_Inl: "ending_of (Inl f :: ('a, ZkError) result) = ending_of (Inl f :: ('b, ZkError) result)"
  by (cases f) simp_all

context proxy_laws
begin

lemma upstream_turn_ends:
  "snd (UpStreamConnection_pipe B T takes (upstream_conn s)) = ends_with B (UpstreamTurn takes) s"
proof (rule upstream_turnE [of "upstream_conn s" takes])
  fix out c buf
  assume "ServerPacketCodec_decode B (c2p_framed (upstream_conn s)) (c2p_buf (upstream_conn s)) = (out, c, buf)"
    "out = Inr None \<and> c2p_eof (upstream_conn s) \<or> (\<exists>f. out = Inl f)"
    "UpStreamConnection_pipe B T takes (upstream_conn s) =
      ((upstream_conn s)\<lparr>c2p_framed := c, c2p_buf := buf\<rparr>, Some (ending_of out))"
  then show ?thesis by (auto simp: ends_with_def intro: ending_of_Inl)
qed (auto simp: ends_with_def)

lemma b2p_turn_ends: "snd (snd (B2PDownStreamConnection_pipe T (b2p_downstream_conn s))) = ends_with B B2PTurn s"
  using bytes_decode_Some [of "b2p_buf (b2p_downstream_conn s)"]
    bytes_decode_None [of "b2p_buf (b2p_downstream_conn s)"]
  by (auto simp: B2PDownStreamConnection_pipe_def ends_with_def split: prod.split option.split)

lemma handled_after:
  assumes "happens B T ev s = Some s'"
  shows "handled s' = ends_with B ev s"
  using assms
proof (cases rule: happensE)
  case (upstream u r)
  have "r = ends_with B ev s"
  proof (cases ev)
    case (UpstreamTurn takes)
    then show ?thesis
      using upstream(2) upstream_turn_ends [of takes s] by (auto simp: upstream_happens_def split: if_splits)
  qed (use upstream(2) in \<open>auto simp: upstream_happens_def ends_with_def split: if_splits\<close>)
  with upstream(3) show ?thesis by simp
next
  case (b2p b sent r)
  have "r = ends_with B ev s"
  proof (cases ev)
    case B2PTurn
    then show ?thesis using b2p(2) b2p_turn_ends [of s] by (auto simp: b2p_happens_def)
  qed (use b2p(2) in \<open>auto simp: b2p_happens_def ends_with_def split: if_splits\<close>)
  with b2p(3) show ?thesis by simp
next
  case (p2c d rest)
  then show ?thesis by (cases ev) (auto simp: p2c_happens_def ends_with_def)
qed

lemma ending_result:
  assumes "frame_fault f \<or> f = fault.Err DecodeError"
  shows "ending_of (Inl f :: (unit, ZkError) result) \<in> insert (Inr ())
    ((\<lambda>p. Inl (Panic p)) ` {BufUnderflow, CapacityOverflow, Unreachable, AssertFailed, ExplicitPanic})"
  using assms by (cases f) (auto simp: frame_fault_def request_fault_def wire_fault_def)

lemma reading_codec_ok:
  assumes "reading_ok B s" and "handled s = None"
  shows "codec_ok (ServerPacketCodec.inner (c2p_framed (upstream_conn s)))"
proof -
  have "reads (ServerPacketCodec_decode B) new_server (upstream_reader (upstream_conn s))"
    using assms by (auto simp: reading_ok_def)
  from server_reads.reads_invariant [OF this codec_ok_new_server] show ?thesis
    by (simp add: upstream_reader_def)
qed

lemma result_kept:
  assumes "reading_ok B s" and "happens B T ev s = Some s'"
  shows "result_ok s'"
proof -
  let ?dec = "ServerPacketCodec_decode B (c2p_framed (upstream_conn s)) (c2p_buf (upstream_conn s))"
  have "result_ok s'" if dec: "?dec = (Inl f, c, buf)" "ev = UpstreamTurn takes" for f c buf takes
  proof -
    have "frame_fault f \<or> f = fault.Err DecodeError"
      using server_decode_faults [OF reading_codec_ok [OF assms(1) happens_running [OF assms(2)]] dec(1)] .
    from ending_result [OF this] show ?thesis
      using dec handled_after [OF assms(2)] by (auto simp: result_ok_def ends_with_def)
  qed
  then show ?thesis
    using handled_after [OF assms(2)]
    by (auto simp: ends_with_def result_ok_def split: event.splits prod.splits sum.splits option.splits if_splits)
qed

end

sublocale proxy_laws \<subseteq> results: invariant accepted "happens B T" "\<lambda>s. reading_ok B s \<and> result_ok s"
proof
  show "accepted s \<Longrightarrow> reading_ok B s \<and> result_ok s" for s
    using reading.starts by (simp add: result_ok_def new_conn_def)
qed (use reading_kept result_kept in blast)

context proxy_laws
begin

lemma result_reached: "reachable B T s \<Longrightarrow> result_ok s"
  using results.always by blast

end

section \<open>What the end costs\<close>

text \<open>
  When the client shuts its side down, the next turn of the upstream loop that finds no frame
  ends the connection; when the backend does, the turn of the reader behind its last bytes. All
  bytes on the way to the client are dropped, and nothing happens any more.
\<close>

context proxy_laws
begin

lemma end_of_requests:
  assumes "handled s = None" and "c2p_eof (upstream_conn s)"
    and "p2b_broken (upstream_conn s) \<or> p2b_buf (upstream_conn s) = []"
    and "ServerPacketCodec_decode B (c2p_framed (upstream_conn s)) (c2p_buf (upstream_conn s)) = (Inr None, c, buf)"
  shows "\<exists>s'. happens B T (UpstreamTurn True) s = Some s' \<and> handled s' = Some (Inr ()) \<and>
    down_pipe s' = down_pipe s \<and> transit s' = transit s \<and>
    to_backend (upstream_conn s') = to_backend (upstream_conn s)"
proof -
  have "UpStreamConnection_pipe B T True (upstream_conn s) =
      ((upstream_conn s)\<lparr>c2p_framed := c, c2p_buf := buf\<rparr>, Some (Inr ()))"
    by (rule upstream_turnE [of "upstream_conn s" True]) (use assms(2,4) in auto)
  then have "happens B T (UpstreamTurn True) s =
      Some (s\<lparr>upstream_conn := (upstream_conn s)\<lparr>c2p_framed := c, c2p_buf := buf\<rparr>, handled := Some (Inr ())\<rparr>)"
    using assms(1,3) by (auto simp: happens_def upstream_happens_def)
  then show ?thesis by (simp add: down_pipe_def transit_def)
qed

lemma end_of_replies:
  assumes "handled s = None" and "b2p_eof (b2p_downstream_conn s)" and "b2p_buf (b2p_downstream_conn s) = []"
  shows "\<exists>s'. happens B T B2PTurn s = Some s' \<and> handled s' = Some (Inr ()) \<and>
    down_pipe s' = down_pipe s \<and> transit s' = transit s"
proof -
  obtain b sent r where b: "B2PDownStreamConnection_pipe T (b2p_downstream_conn s) = (b, sent, r)"
    by (metis prod_cases3)
  then have happens: "happens B T B2PTurn s =
      Some (s\<lparr>b2p_downstream_conn := b, channel := channel s @ sent, handled := r\<rparr>)"
    using assms(1) by (simp add: happens_def upstream_happens_def b2p_happens_def)
  from handled_after [OF this] have "r = Some (Inr ())"
    using assms(2,3) by (simp add: ends_with_def)
  moreover have "sent = []" "b = b2p_downstream_conn s"
    using b assms(3) by (auto simp: B2PDownStreamConnection_pipe_def)
  ultimately show ?thesis
    using happens assms(3) by (simp add: down_pipe_def transit_def)
qed

text \<open>
  So a client that sends its requests, shuts its side down and waits can be left without any of
  the replies, though its requests have been sent on and the replies have arrived at the proxy.
\<close>

lemma frames_drain:
  assumes "handled s = None" and "\<not> p2b_broken (upstream_conn s)" and "\<forall>p \<in> set ps. canonical p"
    and "c2p_framed (upstream_conn s) = new_server"
    and "c2p_buf (upstream_conn s) = concat (map packet_frame ps)"
  shows "leads_to (happens B T) up_events s (\<lambda>s'. s' = s\<lparr>upstream_conn := upstream_conn s'\<rparr> \<and>
    c2p_framed (upstream_conn s') = new_server \<and> c2p_buf (upstream_conn s') = [] \<and>
    p2b_buf (upstream_conn s') = [] \<and> c2p_eof (upstream_conn s') = c2p_eof (upstream_conn s) \<and>
    to_backend (upstream_conn s') =
      to_backend (upstream_conn s) @ p2b_buf (upstream_conn s) @ concat (map packet_frame ps))"
  using assms
proof (induction ps arbitrary: s)
  case Nil
  show ?case
    by (rule leads_step [of "happens B T", OF p2b_writes_all [OF Nil(1,2)]], simp, rule leads_now)
      (use Nil in simp)
next
  case (Cons p ps)
  let ?s1 = "s\<lparr>upstream_conn := (upstream_conn s)\<lparr>p2b_buf := [],
      to_backend := to_backend (upstream_conn s) @ p2b_buf (upstream_conn s)\<rparr>\<rparr>"
  define u where "u = pass_on True p new_server (concat (map packet_frame ps)) (upstream_conn ?s1)"
  have "ServerPacketCodec_decode B (c2p_framed (upstream_conn s)) (c2p_buf (upstream_conn s)) =
      (Inr (Some p), new_server, concat (map packet_frame ps))"
    using decode_packet_frame [of p new_server "concat (map packet_frame ps)"] Cons.prems(3-5)
    by (simp add: new_server_def)
  then have turn: "happens B T (UpstreamTurn True) ?s1 = Some (s\<lparr>upstream_conn := u\<rparr>)"
    using Cons.prems(1) by (simp add: u_def happens_def upstream_happens_def upstream_turn_forwards)
  have u: "\<not> p2b_broken u" "c2p_framed u = new_server" "c2p_buf u = concat (map packet_frame ps)"
    "p2b_buf u = packet_frame p" "c2p_eof u = c2p_eof (upstream_conn s)"
    "to_backend u = to_backend (upstream_conn s) @ p2b_buf (upstream_conn s)"
    using Cons.prems(2) by (simp_all add: u_def pass_on_def Let_def)
  show ?case
    using Cons.IH [of "s\<lparr>upstream_conn := u\<rparr>"] Cons.prems(1,3)
    by (intro leads_step [of "happens B T", OF p2b_writes_all [OF Cons.prems(1,2)]]
        leads_step [of "happens B T", OF turn]) (simp_all add: u)
qed

lemma nothing_decoded: "ServerPacketCodec_decode B new_server [] = (Inr None, new_server, [])"
proof -
  have "LengthDelimitedCodec_decode B ready [] = (Inr None, ready, [])"
    by (rule decode_nothing [OF codec_ok_ready]) (simp add: ready_def)
  then show ?thesis by (simp add: ServerPacketCodec_decode_def new_server_def)
qed

lemma replies_are_lost:
  assumes "\<forall>p \<in> set ps. canonical p"
  shows "\<exists>es s'. set es \<subseteq> insert (ClientSends (concat (map packet_frame ps))) up_events \<and>
    run B T (es @ [BackendSends replies, ClientCloses, UpstreamTurn True]) new_conn = Some s' \<and>
    handled s' = Some (Inr ()) \<and>
    to_backend (upstream_conn s') = concat (map packet_frame ps) \<and>
    from_backend (b2p_downstream_conn s') = replies \<and> to_client (p2c_downstream_conn s') = []"
proof -
  let ?reqs = "concat (map packet_frame ps)"
  let ?s1 = "new_conn\<lparr>upstream_conn := new_upstream\<lparr>c2p_buf := ?reqs, from_client := ?reqs\<rparr>\<rparr>"
  have run1: "run B T [ClientSends ?reqs] new_conn = Some ?s1"
    by (simp add: happens_def upstream_happens_def new_conn_def new_upstream_def)
  from frames_drain [of ?s1 ps] assms obtain es s2 where
    s2: "set es \<subseteq> up_events" "run B T es ?s1 = Some s2" "s2 = ?s1\<lparr>upstream_conn := upstream_conn s2\<rparr>"
    "c2p_framed (upstream_conn s2) = new_server" "c2p_buf (upstream_conn s2) = []"
    "p2b_buf (upstream_conn s2) = []" "to_backend (upstream_conn s2) = ?reqs"
    by (auto simp: leads_to_def new_conn_def new_upstream_def)
  let ?s3 = "s2\<lparr>upstream_conn := (upstream_conn s2)\<lparr>c2p_eof := True\<rparr>,
      b2p_downstream_conn := (b2p_downstream_conn s2)\<lparr>b2p_buf := replies, from_backend := replies\<rparr>\<rparr>"
  from s2(3) have down2: "handled s2 = None" "b2p_downstream_conn s2 = B2PDownStreamConnection_new"
    "p2c_downstream_conn s2 = P2CDownStreamConnection_new"
    by (simp_all add: new_conn_def) (metis connection.select_convs connection.surjective connection.update_convs)+
  have run3: "run B T [BackendSends replies, ClientCloses] s2 = Some ?s3"
    using down2 by (simp add: happens_def upstream_happens_def b2p_happens_def B2PDownStreamConnection_new_def)
  obtain s4 where s4: "happens B T (UpstreamTurn True) ?s3 = Some s4" "handled s4 = Some (Inr ())"
    "down_pipe s4 = down_pipe ?s3" "to_backend (upstream_conn s4) = ?reqs"
    using end_of_requests [of ?s3 new_server "[]"] down2 s2(4-7) nothing_decoded by auto
  have "run B T [UpstreamTurn True] ?s3 = Some s4" using s4(1) by simp
  then have "run B T ([ClientSends ?reqs] @ es @ [BackendSends replies, ClientCloses] @ [UpstreamTurn True]) new_conn =
      Some s4"
    by (intro run_appendI [OF run1] run_appendI [OF s2(2)] run_appendI [OF run3])
  then have "run B T ((ClientSends ?reqs # es) @ [BackendSends replies, ClientCloses, UpstreamTurn True]) new_conn =
      Some s4" by simp
  moreover have "from_backend (b2p_downstream_conn s4) = replies" "to_client (p2c_downstream_conn s4) = []"
    using s4(3) down2 by (simp_all add: down_pipe_def P2CDownStreamConnection_new_def)
  moreover have "set (ClientSends ?reqs # es) \<subseteq> insert (ClientSends ?reqs) up_events"
    using s2(1) by auto
  ultimately show ?thesis using s4(2,4) by blast
qed

end

end
