(* ===== verification/Fair_Runs.thy ===== *)
theory Fair_Runs
  imports Event_Systems
begin

text \<open>
  Infinite runs of an event system under weak fairness: a class of events that stays possible
  happens in the end. A run may pause at any moment, so one that has come to its end is a run
  that pauses for ever, and a part of a larger system runs at the pace of the whole. The locale
  \<open>fair_execution\<close> has the rule by which progress is proved: in each state some fair class of
  events helps, its events bring a measure down, and no other event brings it up. Runs and their
  fairness carry over along a simulation. A run that ends in a loop is shown to be such a run,
  which gives concrete ones.
\<close>

section \<open>Infinite runs\<close>

text \<open>At each moment an event happens, or nothing does.\<close>

definition pausing :: "('e, 's) event_step \<Rightarrow> ('e option, 's) event_step" where
  "pausing step now s = (case now of None \<Rightarrow> Some s | Some ev \<Rightarrow> step ev s)"

definition execution :: "('e, 's) event_step \<Rightarrow> (nat \<Rightarrow> 'e option) \<Rightarrow> (nat \<Rightarrow> 's) \<Rightarrow> bool" where
  "execution step es ss \<longleftrightarrow> (\<forall>i. pausing step (es i) (ss i) = Some (ss (Suc i)))"

definition enabled :: "('e, 's) event_step \<Rightarrow> 'e set \<Rightarrow> 's \<Rightarrow> bool" where
  "enabled step E s \<longleftrightarrow> (\<exists>ev \<in> E. step ev s \<noteq> None)"

definition weakly_fair ::
  "('e, 's) event_step \<Rightarrow> 'e set \<Rightarrow> (nat \<Rightarrow> 'e option) \<Rightarrow> (nat \<Rightarrow> 's) \<Rightarrow> bool" where
  "weakly_fair step E es ss \<longleftrightarrow>
     (\<forall>i. (\<forall>j\<ge>i. enabled step E (ss j)) \<longrightarrow> (\<exists>j\<ge>i. es j \<in> Some ` E))"

text \<open>Whenever \<open>P\<close> holds, \<open>Q\<close> holds then or later.\<close>

definition follows :: "(nat \<Rightarrow> 's) \<Rightarrow> ('s \<Rightarrow> bool) \<Rightarrow> ('s \<Rightarrow> bool) \<Rightarrow> bool" where
  "follows ss P Q \<longleftrightarrow> (\<forall>i. P (ss i) \<longrightarrow> (\<exists>j\<ge>i. Q (ss j)))"

lemma pausing_simps [simp]:
  "pausing step None s = Some s" "pausing step (Some ev) s = step ev s"
  by (simp_all add: pausing_def)

lemma follows_unless:
  assumes "follows ss P (\<lambda>s. D s \<or> Q s)" and "follows ss Q (\<lambda>s. D s \<or> R s)"
  shows "follows ss P (\<lambda>s. D s \<or> R s)"
  using assms unfolding follows_def by (meson order.trans)

lemma execution_step: "execution step es ss \<Longrightarrow> es i = Some ev \<Longrightarrow> step ev (ss i) = Some (ss (Suc i))"
  unfolding execution_def by (metis pausing_simps(2))

lemma execution_pause: "execution step es ss \<Longrightarrow> es i = None \<Longrightarrow> ss (Suc i) = ss i"
  unfolding execution_def by (metis option.inject pausing_simps(1))

text \<open>What relates the states before and after each event relates all later states.\<close>

lemma execution_related:
  assumes run: "execution step es ss" and "i \<le> j"
    and "\<And>s. R s s" and "\<And>s s' s''. R s s' \<Longrightarrow> R s' s'' \<Longrightarrow> R s s''"
    and event: "\<And>ev s s'. step ev s = Some s' \<Longrightarrow> R s s'"
  shows "R (ss i) (ss j)"
  using assms(2)
proof (induction j rule: dec_induct)
  case (step j)
  have "R (ss j) (ss (Suc j))"
    using event [OF execution_step [OF run]] execution_pause [OF run, of j] assms(3) by (cases "es j") auto
  with step.IH show ?case by (rule assms(4))
qed (rule assms(3))

lemma execution_reached:
  assumes "execution step es ss" and "reached init step (ss 0)"
  shows "reached init step (ss i)"
  using execution_related [OF assms(1), of 0 i "\<lambda>s s'. reached init step s \<longrightarrow> reached init step s'"]
    assms(2) by (auto intro: reached.event)

lemma execution_suffix: "execution step es ss \<Longrightarrow> execution step (\<lambda>j. es (i + j)) (\<lambda>j. ss (i + j))"
  by (simp add: execution_def)

lemma weakly_fair_suffix:
  assumes "weakly_fair step E es ss"
  shows "weakly_fair step E (\<lambda>j. es (i + j)) (\<lambda>j. ss (i + j))"
  unfolding weakly_fair_def
proof (intro allI impI)
  fix k assume on: "\<forall>j\<ge>k. enabled step E (ss (i + j))"
  have "enabled step E (ss j)" if "i + k \<le> j" for j
    using on [rule_format, of "j - i"] that by simp
  then obtain j where "i + k \<le> j" "es j \<in> Some ` E"
    using assms unfolding weakly_fair_def by blast
  then show "\<exists>j\<ge>k. es (i + j) \<in> Some ` E" by (intro exI [of _ "j - i"]) simp
qed

section \<open>Progress\<close>

locale fair_execution =
  fixes step :: "('e, 's) event_step" and es :: "nat \<Rightarrow> 'e option" and ss :: "nat \<Rightarrow> 's"
    and fair :: "'e set set" and inv :: "'s \<Rightarrow> bool"
  assumes runs: "execution step es ss"
    and fairly: "E \<in> fair \<Longrightarrow> weakly_fair step E es ss"
    and always: "inv (ss i)"
begin

text \<open>Without progress, what helps goes on helping; so it happens, which is progress.\<close>

lemma improves:
  assumes "P (ss i)" and "\<forall>j\<ge>i. \<not> Q (ss j)"
    and helps: "\<And>s. inv s \<Longrightarrow> P s \<Longrightarrow> \<not> Q s \<Longrightarrow> agent s \<in> fair \<and> enabled step (agent s) s"
    and steps: "\<And>s ev s'. inv s \<Longrightarrow> inv s' \<Longrightarrow> P s \<Longrightarrow> \<not> Q s \<Longrightarrow> step ev s = Some s' \<Longrightarrow>
      Q s' \<or> P s' \<and> ((m s', m s) \<in> r \<or> m s' = m s \<and> agent s' = agent s \<and> ev \<notin> agent s)"
  shows "\<exists>j\<ge>i. P (ss j) \<and> (m (ss j), m (ss i)) \<in> r"
proof (rule ccontr)
  assume no: "\<not> ?thesis"
  have next_one: "P (ss (Suc j)) \<and> ((m (ss (Suc j)), m (ss j)) \<in> r \<or>
      m (ss (Suc j)) = m (ss j) \<and> agent (ss (Suc j)) = agent (ss j) \<and> es j \<notin> Some ` agent (ss j))"
    if "P (ss j)" "i \<le> j" for j
  proof (cases "es j")
    case None
    then show ?thesis using execution_pause [OF runs None] that(1) by auto
  next
    case (Some ev)
    then show ?thesis
      using steps [OF always always that(1) _ execution_step [OF runs Some]] assms(2) that(2)
      by (metis image_iff le_SucI option.inject)
  qed
  have same: "P (ss j) \<and> m (ss j) = m (ss i) \<and> agent (ss j) = agent (ss i)" if "i \<le> j" for j
    using that
  proof (induction j rule: dec_induct)
    case (step j)
    then show ?case using next_one [of j] no by (metis le_SucI)
  qed (simp add: assms(1))
  then have "\<forall>j\<ge>i. enabled step (agent (ss i)) (ss j)"
    using helps [OF always] assms(2) by metis
  moreover have "agent (ss i) \<in> fair" using helps [OF always assms(1)] assms(2) by blast
  ultimately obtain j where "i \<le> j" "es j \<in> Some ` agent (ss i)"
    using fairly unfolding weakly_fair_def by blast
  then show False using next_one [of j] same [of j] no by (metis le_SucI)
qed

lemma progress:
  assumes "wf r"
    and "\<And>s. inv s \<Longrightarrow> P s \<Longrightarrow> \<not> Q s \<Longrightarrow> agent s \<in> fair \<and> enabled step (agent s) s"
    and "\<And>s ev s'. inv s \<Longrightarrow> inv s' \<Longrightarrow> P s \<Longrightarrow> \<not> Q s \<Longrightarrow> step ev s = Some s' \<Longrightarrow>
      Q s' \<or> P s' \<and> ((m s', m s) \<in> r \<or> m s' = m s \<and> agent s' = agent s \<and> ev \<notin> agent s)"
  shows "follows ss P Q"
proof -
  have "\<exists>j\<ge>i. Q (ss j)" if "P (ss i)" "m (ss i) = x" for i x
    using assms(1) that
  proof (induction x arbitrary: i rule: wf_induct_rule)
    case (less x)
    show ?case
    proof (rule ccontr)
      assume none: "\<not> ?case"
      then have "\<exists>j\<ge>i. P (ss j) \<and> (m (ss j), m (ss i)) \<in> r"
        using improves [OF less.prems(1) _ assms(2,3)] by blast
      then obtain j where "i \<le> j" "P (ss j)" "(m (ss j), x) \<in> r" using less.prems(2) by blast
      with less.IH [of "m (ss j)" j] none show False by (meson order.trans)
    qed
  qed
  then show ?thesis unfolding follows_def by blast
qed

text \<open>Progress unless something comes in between.\<close>

lemma progress_unless:
  assumes "wf r"
    and "\<And>s. inv s \<Longrightarrow> \<not> over s \<Longrightarrow> P s \<Longrightarrow> \<not> Q s \<Longrightarrow> agent s \<in> fair \<and> enabled step (agent s) s"
    and "\<And>s ev s'. inv s \<Longrightarrow> inv s' \<Longrightarrow> \<not> over s \<Longrightarrow> \<not> over s' \<Longrightarrow> P s \<Longrightarrow> \<not> Q s \<Longrightarrow>
      step ev s = Some s' \<Longrightarrow>
      Q s' \<or> P s' \<and> ((m s', m s) \<in> r \<or> m s' = m s \<and> agent s' = agent s \<and> ev \<notin> agent s)"
  shows "follows ss P (\<lambda>s. over s \<or> Q s)"
  by (rule progress [of r P "\<lambda>s. over s \<or> Q s" agent m]) (use assms in blast)+

end

section \<open>Runs along a simulation\<close>

context simulation
begin

lemma executions_simulated:
  assumes run: "execution step es ss" and "rel (ss 0) a"
  shows "\<exists>as. as 0 = a \<and> execution astep (\<lambda>i. Option.bind (es i) view) as \<and> (\<forall>i. rel (ss i) (as i))"
proof -
  have "\<exists>as. \<forall>i. (rel (ss i) (as i) \<and> (i = 0 \<longrightarrow> as i = a)) \<and>
      pausing astep (Option.bind (es i) view) (as i) = Some (as (Suc i))"
  proof (rule dependent_nat_choice)
    fix b i assume b: "rel (ss i) b \<and> (i = 0 \<longrightarrow> b = a)"
    show "\<exists>b'. (rel (ss (Suc i)) b' \<and> (Suc i = 0 \<longrightarrow> b' = a)) \<and>
        pausing astep (Option.bind (es i) view) b = Some b'"
    proof (cases "es i")
      case None
      then show ?thesis using b execution_pause [OF run None] by simp
    next
      case (Some ev)
      show ?thesis
      proof (cases "view ev")
        case None
        then show ?thesis using unseen [OF conjunct1 [OF b] execution_step [OF run Some]] Some by simp
      next
        case (Some f)
        then show ?thesis
          using seen [OF conjunct1 [OF b] execution_step [OF run \<open>es i = Some ev\<close>] Some] \<open>es i = Some ev\<close>
          by auto
      qed
    qed
  qed (use assms(2) in simp)
  then show ?thesis unfolding execution_def by blast
qed

lemma fairness_simulated:
  assumes "weakly_fair step E es ss" and "\<And>i. enabled astep F (as i) \<Longrightarrow> enabled step E (ss i)"
    and "\<And>ev. ev \<in> E \<Longrightarrow> view ev \<in> Some ` F"
  shows "weakly_fair astep F (\<lambda>i. Option.bind (es i) view) as"
  unfolding weakly_fair_def
proof (intro allI impI)
  fix i assume "\<forall>j\<ge>i. enabled astep F (as j)"
  then obtain j ev where "i \<le> j" "es j = Some ev" "ev \<in> E"
    using assms(1,2) unfolding weakly_fair_def by (metis imageE)
  then show "\<exists>j\<ge>i. Option.bind (es j) view \<in> Some ` F"
    using assms(3) by (intro exI [of _ j]) simp
qed

end

section \<open>Runs that end in a loop\<close>

text \<open>The loop is an event that happens for ever, or the pause.\<close>

definition lasso_events :: "'e list \<Rightarrow> 'e option \<Rightarrow> nat \<Rightarrow> 'e option" where
  "lasso_events evs now i = (if i < length evs then Some (evs ! i) else now)"

fun lasso_states :: "('e, 's) event_step \<Rightarrow> 'e list \<Rightarrow> 'e option \<Rightarrow> 's \<Rightarrow> nat \<Rightarrow> 's" where
  "lasso_states step evs now s 0 = s"
| "lasso_states step evs now s (Suc i) =
     (case pausing step (lasso_events evs now i) (lasso_states step evs now s i) of
        None \<Rightarrow> lasso_states step evs now s i | Some s' \<Rightarrow> s')"

lemma lasso_prefix:
  assumes "run_events step evs s = Some s'" and "i \<le> length evs"
  shows "run_events step (drop i evs) (lasso_states step evs now s i) = Some s'"
  using assms(2)
proof (induction i)
  case (Suc i)
  then have "drop i evs = evs ! i # drop (Suc i) evs" by (simp add: Cons_nth_drop_Suc)
  with Suc show ?case by (auto simp: lasso_events_def split: option.splits)
qed (simp add: assms(1))

lemma lasso_loop:
  assumes "run_events step evs s = Some s'" and "pausing step now s' = Some s'" and "length evs \<le> i"
  shows "lasso_states step evs now s i = s'"
  using assms(3)
proof (induction i rule: dec_induct)
  case base
  then show ?case using lasso_prefix [OF assms(1) order.refl, of now] by simp
next
  case (step i)
  then show ?case using assms(2) by (simp add: lasso_events_def)
qed

lemma lasso_execution:
  assumes "run_events step evs s = Some s'" and "pausing step now s' = Some s'"
  shows "execution step (lasso_events evs now) (lasso_states step evs now s)"
  unfolding execution_def
proof
  fix i
  show "pausing step (lasso_events evs now i) (lasso_states step evs now s i) =
      Some (lasso_states step evs now s (Suc i))"
  proof (cases "i < length evs")
    case True
    then have "drop i evs = evs ! i # drop (Suc i) evs" by (simp add: Cons_nth_drop_Suc)
    then show ?thesis
      using lasso_prefix [OF assms(1), of i now] True by (auto simp: lasso_events_def split: option.splits)
  next
    case False
    then show ?thesis using lasso_loop [OF assms, of i] assms(2) by (simp add: lasso_events_def)
  qed
qed

lemma lasso_fair:
  assumes "run_events step evs s = Some s'" and "pausing step now s' = Some s'"
    and "now \<in> Some ` E \<or> \<not> enabled step E s'"
  shows "weakly_fair step E (lasso_events evs now) (lasso_states step evs now s)"
proof -
  have "\<exists>j\<ge>i. lasso_events evs now j \<in> Some ` E" if "now \<in> Some ` E" for i
    using that by (intro exI [of _ "i + length evs"]) (simp add: lasso_events_def)
  moreover have "\<exists>j\<ge>i. \<not> enabled step E (lasso_states step evs now s j)" if "\<not> enabled step E s'" for i
    using that lasso_loop [OF assms(1,2), of "i + length evs"]
    by (intro exI [of _ "i + length evs"]) simp
  ultimately show ?thesis using assms(3) unfolding weakly_fair_def by blast
qed

end
