(* ===== verification/Listener.thy ===== *)
theory Listener
  imports Connection_End Fair_Runs
begin

text \<open>
  The accept loop \<open>ZkServer::start\<close> (\<open>src/src/server.rs\<close>) and the program entry
  (\<open>src/src/main.rs\<close>). Each accepted client gets a task of its own that runs \<open>handle_conn\<close>; the
  tasks share nothing, and a panic of one is caught at its task. When \<open>start\<close> ends, \<open>main\<close> ends,
  and the runtime drops all tasks.
\<close>

section \<open>The accept loop\<close>

text \<open>
  \<open>tasks\<close> holds the result of \<open>handle_conn\<close> up to \<open>select!\<close> for each accepted client, and the
  connection as it is since; \<open>started\<close> is what \<open>start\<close> has ended with, if it has.
\<close>

record ZkServer =
  tasks :: "(connection, ZkError) result list"
  started :: ending

definition ZkServer_start :: "bool \<Rightarrow> ZkServer" where
  "ZkServer_start binds =
     \<lparr>tasks = [], started = (if binds then None else Some (Inl (Panic UnwrapErr)))\<rparr>"

text \<open>
  \<open>Accepts connects\<close> is a turn of the loop, \<open>connects\<close> whether the new task reaches the backend;
  \<open>AcceptFails\<close> is the \<open>unwrap\<close> of a failed \<open>accept\<close>; \<open>Task i ev\<close> is an event of a connection.
\<close>

datatype server_event = Accepts bool | AcceptFails | Task nat event

definition serves :: "bytes_crate \<Rightarrow> tokio \<Rightarrow> (server_event, ZkServer) event_step" where
  "serves B T ev s =
     (if started s \<noteq> None then None
      else case ev of
        Accepts connects \<Rightarrow> Some (s\<lparr>tasks := tasks s @ [handle_conn connects]\<rparr>)
      | AcceptFails \<Rightarrow> Some (s\<lparr>started := Some (Inl (Panic UnwrapErr))\<rparr>)
      | Task i ev' \<Rightarrow>
          if i < length (tasks s)
          then case tasks s ! i of
              Inl f \<Rightarrow> None
            | Inr c \<Rightarrow> map_option (\<lambda>c'. s\<lparr>tasks := (tasks s)[i := Inr c']\<rparr>) (happens B T ev' c)
          else None)"

text \<open>What a task prints when \<open>handle_conn\<close> returns an error.\<close>

definition printed :: "(connection, ZkError) result \<Rightarrow> ZkError option" where
  "printed task =
     (case task of
        Inl (fault.Err e) \<Rightarrow> Some e
      | Inl _ \<Rightarrow> None
      | Inr c \<Rightarrow> (case handled c of Some (Inl (fault.Err e)) \<Rightarrow> Some e | _ \<Rightarrow> None))"

text \<open>\<open>main\<close>: \<open>zk_server.start().await.unwrap(); Ok(())\<close>.\<close>

definition main :: "ZkServer \<Rightarrow> ending" where
  "main s = map_option (\<lambda>r. case r of Inl (fault.Err e) \<Rightarrow> Inl (Panic UnwrapErr) | r \<Rightarrow> r) (started s)"

abbreviation serving :: "bytes_crate \<Rightarrow> tokio \<Rightarrow> ZkServer \<Rightarrow> bool" where
  "serving B T \<equiv> reached (\<lambda>s. \<exists>binds. s = ZkServer_start binds) (serves B T)"

lemma serves_Task:
  "serves B T (Task i ev) s = Some s' \<longleftrightarrow> started s = None \<and> i < length (tasks s) \<and>
    (\<exists>c c'. tasks s ! i = Inr c \<and> happens B T ev c = Some c' \<and> s' = s\<lparr>tasks := (tasks s)[i := Inr c']\<rparr>)"
  by (auto simp: serves_def split: sum.splits)

lemma serves_other:
  "serves B T (Accepts connects) s = Some s' \<longleftrightarrow>
    started s = None \<and> s' = s\<lparr>tasks := tasks s @ [handle_conn connects]\<rparr>"
  "serves B T AcceptFails s = Some s' \<longleftrightarrow>
    started s = None \<and> s' = s\<lparr>started := Some (Inl (Panic UnwrapErr))\<rparr>"
  by (auto simp: serves_def)

section \<open>Tasks do not disturb each other\<close>

text \<open>
  What the accept loop does for task \<open>i\<close> is, from the moment it exists, a run of one connection
  with the events addressed to \<open>i\<close>.
\<close>

definition addressed :: "nat \<Rightarrow> server_event \<Rightarrow> event option" where
  "addressed i ev = (case ev of Task j ev' \<Rightarrow> if j = i then Some ev' else None | _ \<Rightarrow> None)"

definition task_is :: "nat \<Rightarrow> ZkServer \<Rightarrow> connection \<Rightarrow> bool" where
  "task_is i s c \<longleftrightarrow> i < length (tasks s) \<and> tasks s ! i = Inr c"

lemma addressed_simps [simp]:
  "addressed i (Accepts connects) = None" "addressed i AcceptFails = None"
  "addressed i (Task j ev) = (if j = i then Some ev else None)"
  by (simp_all add: addressed_def)

interpretation task: simulation "serves B T" "happens B T" "addressed i" "task_is i"
  for B T i
proof
  fix s c ev s' f
  assume "task_is i s c" "serves B T ev s = Some s'" "addressed i ev = Some f"
  then show "\<exists>c'. happens B T f c = Some c' \<and> task_is i s' c'"
    by (cases ev) (auto simp: serves_Task task_is_def split: if_splits)
next
  fix s c ev s'
  assume "task_is i s c" "serves B T ev s = Some s'" "addressed i ev = None"
  then show "task_is i s' c"
    by (cases ev) (auto simp: serves_Task serves_other task_is_def nth_append split: if_splits)
qed

lemma task_functional: "task_is i s c \<Longrightarrow> task_is i s c' \<Longrightarrow> c = c'"
  by (simp add: task_is_def)

section \<open>The server is the product of its connections\<close>

text \<open>
  A sequence of events makes sense if each goes to a client that has been accepted by then; a
  task takes the events of its connection, if it has one.
\<close>

fun timely :: "nat \<Rightarrow> server_event list \<Rightarrow> bool" where
  "timely n [] = True"
| "timely n (Accepts connects # evs) = timely (Suc n) evs"
| "timely n (AcceptFails # evs) = timely n evs"
| "timely n (Task i ev # evs) = (i < n \<and> timely n evs)"

fun accepts_in :: "server_event list \<Rightarrow> (connection, ZkError) result list" where
  "accepts_in [] = []"
| "accepts_in (Accepts connects # evs) = handle_conn connects # accepts_in evs"
| "accepts_in (AcceptFails # evs) = accepts_in evs"
| "accepts_in (Task i ev # evs) = accepts_in evs"

definition task_run ::
  "bytes_crate \<Rightarrow> tokio \<Rightarrow> event list \<Rightarrow> (connection, ZkError) result \<Rightarrow> (connection, ZkError) result option" where
  "task_run B T evs task =
     (case task of
        Inl f \<Rightarrow> if evs = [] then Some (Inl f) else None
      | Inr c \<Rightarrow> map_option Inr (run B T evs c))"

lemma task_run_Nil [simp]: "task_run B T [] task = Some task"
  by (simp add: task_run_def split: sum.split)

lemma task_run_Cons:
  "task_run B T (ev # evs) task = Some task' \<longleftrightarrow>
    (\<exists>c c'. task = Inr c \<and> happens B T ev c = Some c' \<and> task_run B T evs (Inr c') = Some task')"
  by (auto simp: task_run_def split: sum.splits option.splits)

lemma addressed_Cons:
  "List.map_filter (addressed i) (ev # evs) =
    (case addressed i ev of None \<Rightarrow> [] | Some f \<Rightarrow> [f]) @ List.map_filter (addressed i) evs"
  by (simp add: List.map_filter_simps split: option.split)

text \<open>The tasks \<open>ts\<close> with their events \<open>evs\<close> end as \<open>ts'\<close>, each on its own.\<close>

definition each_alone ::
  "bytes_crate \<Rightarrow> tokio \<Rightarrow> server_event list \<Rightarrow> (connection, ZkError) result list \<Rightarrow>
    (connection, ZkError) result list \<Rightarrow> bool" where
  "each_alone B T evs ts ts' \<longleftrightarrow> length ts' = length ts \<and>
     (\<forall>i < length ts. task_run B T (List.map_filter (addressed i) evs) (ts ! i) = Some (ts' ! i))"

lemma each_alone_Task:
  assumes "j < length ts"
  shows "each_alone B T (Task j f # evs) ts ts' \<longleftrightarrow>
    (\<exists>c c'. ts ! j = Inr c \<and> happens B T f c = Some c' \<and> each_alone B T evs (ts[j := Inr c']) ts')"
    (is "?L \<longleftrightarrow> ?R")
proof
  assume L: ?L
  then have "task_run B T (f # List.map_filter (addressed j) evs) (ts ! j) = Some (ts' ! j)"
    using assms by (auto simp: each_alone_def addressed_Cons)
  then obtain c c' where c: "ts ! j = Inr c" "happens B T f c = Some c'"
    "task_run B T (List.map_filter (addressed j) evs) (Inr c') = Some (ts' ! j)"
    by (auto simp: task_run_Cons)
  have "each_alone B T evs (ts[j := Inr c']) ts'"
    unfolding each_alone_def
  proof (intro conjI allI impI)
    show "length ts' = length (ts[j := Inr c'])" using L by (simp add: each_alone_def)
    fix i assume "i < length (ts[j := Inr c'])"
    then show "task_run B T (List.map_filter (addressed i) evs) (ts[j := Inr c'] ! i) = Some (ts' ! i)"
      using L c(3) by (cases "i = j") (auto simp: each_alone_def addressed_Cons)
  qed
  with c show ?R by blast
next
  assume ?R
  then obtain c c' where c: "ts ! j = Inr c" "happens B T f c = Some c'" "each_alone B T evs (ts[j := Inr c']) ts'"
    by blast
  show ?L
    unfolding each_alone_def
  proof (intro conjI allI impI)
    show "length ts' = length ts" using c(3) by (simp add: each_alone_def)
    fix i assume i: "i < length ts"
    then have here: "task_run B T (List.map_filter (addressed i) evs) (ts[j := Inr c'] ! i) = Some (ts' ! i)"
      using c(3) by (simp add: each_alone_def)
    show "task_run B T (List.map_filter (addressed i) (Task j f # evs)) (ts ! i) = Some (ts' ! i)"
    proof (cases "i = j")
      case True
      then show ?thesis using here i c(1,2) by (simp add: addressed_Cons task_run_Cons)
    next
      case False
      then show ?thesis using here by (simp add: addressed_Cons)
    qed
  qed
qed

lemma server_is_product:
  assumes "started s = None" and "AcceptFails \<notin> set evs"
  shows "run_events (serves B T) evs s = Some s' \<longleftrightarrow>
    timely (length (tasks s)) evs \<and> started s' = None \<and>
    each_alone B T evs (tasks s @ accepts_in evs) (tasks s')"
  using assms
proof (induction evs arbitrary: s)
  case Nil
  have "s = s' \<longleftrightarrow> started s' = None \<and> tasks s' = tasks s"
    using Nil by (auto intro: ZkServer.equality)
  moreover have "each_alone B T [] (tasks s) (tasks s') \<longleftrightarrow> tasks s' = tasks s"
    by (auto simp: each_alone_def List.map_filter_simps list_eq_iff_nth_eq)
  ultimately show ?case by simp
next
  case (Cons ev evs)
  show ?case
  proof (cases ev)
    case (Accepts connects)
    let ?s = "s\<lparr>tasks := tasks s @ [handle_conn connects]\<rparr>"
    have "serves B T ev s = Some ?s" using Accepts Cons.prems by (simp add: serves_other)
    moreover have "each_alone B T (ev # evs) ts ts' = each_alone B T evs ts ts'" for ts ts'
      by (simp add: each_alone_def addressed_Cons Accepts)
    ultimately show ?thesis using Cons.IH [of ?s] Cons.prems Accepts by simp
  next
    case AcceptFails
    then show ?thesis using Cons.prems by simp
  next
    case (Task j f)
    let ?s = "\<lambda>c'. s\<lparr>tasks := (tasks s)[j := Inr c']\<rparr>"
    have "run_events (serves B T) (ev # evs) s = Some s' \<longleftrightarrow> j < length (tasks s) \<and>
        (\<exists>c c'. tasks s ! j = Inr c \<and> happens B T f c = Some c' \<and> run_events (serves B T) evs (?s c') = Some s')"
    proof -
      have "run_events (serves B T) (ev # evs) s = Some s' \<longleftrightarrow>
          (\<exists>s1. serves B T ev s = Some s1 \<and> run_events (serves B T) evs s1 = Some s')"
        by (auto split: option.splits)
      then show ?thesis using Cons.prems by (auto simp: Task serves_Task)
    qed
    moreover have "run_events (serves B T) evs (?s c') = Some s' \<longleftrightarrow>
        timely (length (tasks s)) evs \<and> started s' = None \<and>
        each_alone B T evs ((tasks s)[j := Inr c'] @ accepts_in evs) (tasks s')" for c'
      using Cons.IH [of "?s c'"] Cons.prems by simp
    moreover have "(tasks s @ accepts_in evs) ! j = tasks s ! j"
      "(tasks s @ accepts_in evs)[j := Inr c'] = (tasks s)[j := Inr c'] @ accepts_in evs"
      "j < length (tasks s @ accepts_in evs)" if "j < length (tasks s)" for c'
      using that by (simp_all add: nth_append list_update_append)
    ultimately show ?thesis
      using each_alone_Task [of j "tasks s @ accepts_in evs" B T f evs "tasks s'"] by (auto simp: Task)
  qed
qed

section \<open>The state of the server\<close>

text \<open>Each task is a connection in a reachable state, or was refused by the backend.\<close>

definition tasks_ok :: "bytes_crate \<Rightarrow> tokio \<Rightarrow> ZkServer \<Rightarrow> bool" where
  "tasks_ok B T s \<longleftrightarrow>
     (\<forall>task \<in> set (tasks s). task = Inl (Panic UnwrapErr) \<or> (\<exists>c. task = Inr c \<and> reachable B T c)) \<and>
     started s \<in> {None, Some (Inl (Panic UnwrapErr))}"

lemma tasks_kept:
  assumes "tasks_ok B T s" and "serves B T ev s = Some s'"
  shows "tasks_ok B T s'"
proof (cases ev)
  case (Task i ev')
  then obtain c c' where c: "i < length (tasks s)" "tasks s ! i = Inr c" "happens B T ev' c = Some c'"
    "s' = s\<lparr>tasks := (tasks s)[i := Inr c']\<rparr>"
    using assms(2) by (auto simp: serves_Task)
  have "Inr c \<in> set (tasks s)" using nth_mem [OF c(1)] c(2) by simp
  then have "reachable B T c" using assms(1) by (auto simp: tasks_ok_def)
  then have "reachable B T c'" using c(3) by (rule reached.event)
  then show ?thesis
    using assms(1) c(4) by (auto simp: tasks_ok_def dest!: set_update_subset_insert [THEN subsetD])
qed (use assms new_conn_reachable in \<open>auto simp: serves_other tasks_ok_def handle_conn_eq\<close>)

interpretation server: invariant "\<lambda>s. \<exists>binds. s = ZkServer_start binds" "serves B T" "tasks_ok B T"
  for B T
proof
  fix s
  assume "\<exists>binds. s = ZkServer_start binds"
  then obtain binds where "s = ZkServer_start binds" ..
  then show "tasks_ok B T s" by (cases binds) (simp_all add: ZkServer_start_def tasks_ok_def)
qed (rule tasks_kept)

text \<open>The accept loop goes on, whatever happens to the tasks, until \<open>accept\<close> fails.\<close>

lemma started_after:
  assumes "serves B T ev s = Some s'"
  shows "started s' = (if ev = AcceptFails then Some (Inl (Panic UnwrapErr)) else None)"
  using assms by (cases ev) (auto simp: serves_Task serves_other)

lemma stopped: "started s \<noteq> None \<Longrightarrow> serves B T ev s = None"
  by (simp add: serves_def)

lemma accepts_always: "started s = None \<Longrightarrow> serves B T (Accepts connects) s \<noteq> None"
  by (simp add: serves_def)

end
