(* ===== verification/Request_Stream.thy ===== *)
theory Request_Stream
  imports Connection_End
begin

text \<open>
  What the upstream side computes, as a function on all bytes of the client: split them into
  frames, read the frames one by one, stop at the first that is refused. The decoder with its
  states, the buffer, the chunks and the turns of the loop are an implementation of this function.
\<close>

section \<open>The specification\<close>

function split_frames :: "bytes \<Rightarrow> bytes list" where
  "split_frames src =
     (let n = be_nat (take 4 src)
      in if length src < 4 \<or> 1048576 < n \<or> length src < 4 + n then []
         else take n (drop 4 src) # split_frames (drop (4 + n) src))"
  by auto

termination
  by (relation "measure length") auto

declare split_frames.simps [simp del]

fun read_frames :: "('a option, ZkError) deserializer \<Rightarrow> bytes list \<Rightarrow> 'a list" where
  "read_frames m [] = []"
| "read_frames m (body # bodies) =
     (case m body of
        Inr (Some x, _) \<Rightarrow> x # read_frames m bodies
      | _ \<Rightarrow> [])"

definition requests_in :: "bytes_crate \<Rightarrow> bytes \<Rightarrow> RequestPacket list" where
  "requests_in B src = read_frames (decode_inner B) (split_frames src)"

definition replies_in :: "bytes_crate \<Rightarrow> (i32 \<rightharpoonup> OpCodes) \<Rightarrow> bytes \<Rightarrow> ResponsePacket list" where
  "replies_in B m src = read_frames (decode_reply B m) (split_frames src)"

section \<open>The decoders implement it\<close>

text \<open>
  A decoder that hands each frame to a reader, and has nothing to hand on when the buffer does
  not start with a frame, delivers what the specification says.
\<close>

definition starts_with_frame :: "bytes \<Rightarrow> bool" where
  "starts_with_frame src \<longleftrightarrow> 4 \<le> length src \<and> be_nat (take 4 src) \<le> 1048576 \<and>
     4 + be_nat (take 4 src) \<le> length src"

locale frame_decoder =
  fixes dec :: "('c, 'a, ZkError) decoder" and c :: 'c and inner :: "('a option, ZkError) deserializer"
  assumes on_frame: "length body \<le> 1048576 \<Longrightarrow> dec c (be_bytes 4 (length body) @ body @ rest) =
      (case inner body of Inl f \<Rightarrow> Inl f | Inr (x, _) \<Rightarrow> Inr x, c, rest)"
    and on_other: "\<not> starts_with_frame src \<Longrightarrow> dec c src \<noteq> (Inr (Some x), c', rest)"
begin

lemma delivers: "deliver dec k c src = take k (read_frames inner (split_frames src))"
proof (induction k arbitrary: src)
  case (Suc k)
  let ?n = "be_nat (take 4 src)"
  show ?case
  proof (cases "starts_with_frame src")
    case False
    then have "deliver dec (Suc k) c src = []"
      using on_other by (auto split: prod.split sum.split option.split)
    moreover have "split_frames src = []"
      using False by (subst split_frames.simps) (auto simp: Let_def starts_with_frame_def)
    ultimately show ?thesis by simp
  next
    case True
    let ?body = "take ?n (drop 4 src)" and ?rest = "drop (4 + ?n) src"
    have "take 4 src = be_bytes 4 ?n"
      using be_bytes_be_nat [of "take 4 src"] True by (simp add: starts_with_frame_def min_absorb2)
    moreover have len: "length ?body = ?n"
      using True by (simp add: starts_with_frame_def min_def) arith
    moreover have "take 4 src @ ?body @ ?rest = src"
      by (simp only: add.commute [of 4] drop_drop [symmetric] append_take_drop_id)
    ultimately have src: "be_bytes 4 (length ?body) @ ?body @ ?rest = src" by (simp only:)
    have "length ?body \<le> 1048576" using True len by (simp add: starts_with_frame_def)
    from on_frame [OF this, of ?rest] have
      "dec c src = (case inner ?body of Inl f \<Rightarrow> Inl f | Inr (x, _) \<Rightarrow> Inr x, c, ?rest)"
      by (simp only: src)
    moreover have "split_frames src = ?body # split_frames ?rest"
      using True by (subst split_frames.simps) (simp add: Let_def starts_with_frame_def)
    ultimately show ?thesis
      using Suc.IH [of ?rest] by (auto split: sum.split option.split)
  qed
qed simp

end

context bytes_laws
begin

lemma ready_decoded_frame:
  assumes "LengthDelimitedCodec_decode B ready src = (Inr (Some x), c, rest)"
  shows "starts_with_frame src"
proof -
  have "length (fst x) \<le> 1048576" "src = be_bytes 4 (length (fst x)) @ fst x @ rest"
    using ready_decoded [of src "fst x" "snd x" c rest] assms by simp_all
  then show ?thesis by (auto simp: starts_with_frame_def be_nat_be_bytes)
qed

end

sublocale bytes_laws \<subseteq> request_frames: frame_decoder "ServerPacketCodec_decode B" new_server "decode_inner B"
proof
  fix src x c' rest
  assume "\<not> starts_with_frame src"
  then show "ServerPacketCodec_decode B new_server src \<noteq> (Inr (Some x), c', rest)"
    by (auto simp: ServerPacketCodec_decode_def new_server_def dest: ready_decoded_frame
        split: prod.splits sum.splits option.splits)
qed (rule server_decode_frame, simp_all add: new_server_def)

definition client_with :: "(i32 \<rightharpoonup> OpCodes) \<Rightarrow> ClientPacketCodec" where
  "client_with m = \<lparr>ClientPacketCodec.inner = ready, requests_by_xid = m\<rparr>"

sublocale bytes_laws \<subseteq> reply_frames: frame_decoder "ClientPacketCodec_decode B" "client_with m" "decode_reply B m"
  for m
proof
  fix src x c' rest
  assume "\<not> starts_with_frame src"
  then show "ClientPacketCodec_decode B (client_with m) src \<noteq> (Inr (Some x), c', rest)"
    by (auto simp: ClientPacketCodec_decode_def client_with_def dest: ready_decoded_frame
        split: prod.splits sum.splits option.splits)
next
  fix body rest :: bytes
  assume "length body \<le> 1048576"
  then show "ClientPacketCodec_decode B (client_with m) (be_bytes 4 (length body) @ body @ rest) =
      (case decode_reply B m body of Inl f \<Rightarrow> Inl f | Inr (x, _) \<Rightarrow> Inr x, client_with m, rest)"
    using client_decode_frame [of "client_with m" body rest] by (simp add: client_with_def)
qed

context bytes_laws
begin

lemma deliver_requests: "deliver (ServerPacketCodec_decode B) k new_server src = take k (requests_in B src)"
  using request_frames.delivers by (simp add: requests_in_def)

lemma deliver_replies: "deliver (ClientPacketCodec_decode B) k (client_with m) src = take k (replies_in B m src)"
  using reply_frames.delivers by (simp add: replies_in_def)

lemma new_codecs_read:
  "reads (ServerPacketCodec_decode B) new_server r \<Longrightarrow>
    delivered r = take (length (delivered r)) (requests_in B (received r))"
  "reads (ClientPacketCodec_decode B) (client_with m) q \<Longrightarrow>
    delivered q = take (length (delivered q)) (replies_in B m (received q))"
proof -
  have "codec_ok (ClientPacketCodec.inner (client_with m))" by (simp add: client_with_def codec_ok_ready)
  then show "reads (ServerPacketCodec_decode B) new_server r \<Longrightarrow>
      delivered r = take (length (delivered r)) (requests_in B (received r))"
    and "reads (ClientPacketCodec_decode B) (client_with m) q \<Longrightarrow>
      delivered q = take (length (delivered q)) (replies_in B m (received q))"
    using server_chunks [of new_server r] client_chunks [of "client_with m" q]
    by (simp_all add: codec_ok_new_server deliver_requests deliver_replies)
qed

end

section \<open>The upstream side implements it\<close>

context proxy_laws
begin

lemma upstream_prefix:
  assumes "reachable B T s" and "u = upstream_conn s"
  shows "prefix (forwarded u) (requests_in B (from_client u))"
  using forwarded_eq [OF assms(1), of "[]"] deliver_requests take_is_prefix
  by (metis append.right_neutral assms(2))

text \<open>A turn that does not forward a packet shows that there is none to forward.\<close>

lemma upstream_complete:
  assumes "reachable B T s" and "happens B T (UpstreamTurn takes) s = Some s'"
    and "forwarded (upstream_conn s') = forwarded (upstream_conn s)"
  shows "forwarded (upstream_conn s) = requests_in B (from_client (upstream_conn s))"
proof -
  let ?dec = "ServerPacketCodec_decode B" and ?u = "upstream_conn s"
  let ?k = "length (forwarded ?u)" and ?l = "length (requests_in B (from_client ?u))"
  have "\<forall>r c buf. ?dec (c2p_framed ?u) (c2p_buf ?u) \<noteq> (Inr (Some r), c, buf)"
  proof (intro allI notI)
    fix r c buf
    assume "?dec (c2p_framed ?u) (c2p_buf ?u) = (Inr (Some r), c, buf)"
    from upstream_turn_forwards [OF this] have "forwarded (upstream_conn s') = forwarded ?u @ [r]"
      using assms(2)
      by (auto simp: happens_def upstream_happens_def b2p_happens_def p2c_happens_def pass_on_def Let_def
          split: if_splits)
    with assms(3) show False by simp
  qed
  then have none: "deliver ?dec k (c2p_framed ?u) (c2p_buf ?u) = []" for k
    by (cases k) (auto split: prod.split sum.split option.split)
  have "reads ?dec new_server (upstream_reader ?u)"
    using reading.always [OF assms(1)] happens_running [OF assms(2)] by (auto simp: reading_ok_def)
  from server_reads.reads_invariant [OF this codec_ok_new_server, THEN conjunct2, rule_format, of ?l "[]"]
  have "take (?k + ?l) (requests_in B (from_client ?u)) = forwarded ?u"
    by (simp add: upstream_reader_def none deliver_requests)
  then show ?thesis by simp
qed

lemma upstream_specified:
  assumes "reachable B T s" and "u = upstream_conn s"
  shows "prefix (forwarded u) (requests_in B (from_client u)) \<and>
    (\<forall>takes s'. happens B T (UpstreamTurn takes) s = Some s' \<and> forwarded (upstream_conn s') = forwarded u \<longrightarrow>
      forwarded u = requests_in B (from_client u)) \<and>
    prefix (to_backend u) (concat (map packet_frame (forwarded u))) \<and>
    (\<not> p2b_broken u \<longrightarrow> to_backend u @ p2b_buf u = concat (map packet_frame (forwarded u)))"
  using upstream_prefix [OF assms] upstream_complete [OF assms(1)] upstream_refines [OF assms]
  by (auto simp: assms(2))

text \<open>The table of a connection and what it makes of a reply.\<close>

lemma last_entry:
  assumes "known p = Some (x, op)" and "\<forall>q \<in> set qs. \<forall>op'. known q \<noteq> Some (x, op')"
  shows "map_of (rev (List.map_filter known (ps @ p # qs))) x = Some op"
proof -
  have "x \<notin> fst ` set (List.map_filter known qs)"
    using assms(2) by (auto simp: List.map_filter_def)
  then have "map_of (rev (List.map_filter known qs)) x = None"
    by (simp add: map_of_eq_None_iff)
  then show ?thesis
    using assms(1) by (simp add: List.map_filter_def map_add_def)
qed

lemma table_entry:
  assumes "reachable B T s" and "u = upstream_conn s" and "\<not> p2b_broken u"
    and "forwarded u = ps @ p # qs" and "known p = Some (x, op)" and "\<forall>q \<in> set qs. \<forall>op'. known q \<noteq> Some (x, op')"
  shows "requests_by_xid (p2b_framed u) x = Some op"
  using table_of_forwarded [OF assms(1,2)] last_entry [OF assms(5,6), of ps] assms(3,4) by simp

lemma reply_read_by_table:
  assumes "m x = Some op" and "XidCodes_from_i32 x = None" and "ReplyHeader.xid h = x"
    and "ReplyHeader.err h = 0" and "reply_for op r" and "jute_ok (ZkResponse_jute r)"
    and "jute_size (ZkResponse_jute r) < 2 ^ 30"
  shows "decode_reply B m (jute_bytes (ReplyHeader_jute h) @ jute_bytes (ZkResponse_jute r)) =
    Inr (Some \<lparr>response_header = Some h, response = r\<rparr>, [])"
proof -
  have "length (jute_bytes (ReplyHeader_jute h) @ jute_bytes (ZkResponse_jute r)) < 2 ^ 31"
    using assms(7) by (simp add: length_jute_bytes ReplyHeader_jute_def)
  then show ?thesis
    using assms by (simp add: decode_reply_iff reply_ok_def ResponsePacket_jute_def)
qed

end

end
