(* ===== verification/Fair_Delivery.thy ===== *)
theory Fair_Delivery
  imports Fair_Runs Request_Stream Down_Path
begin

text \<open>
  A connection delivers everything, unless it ends or a write fails. The scheduler is weakly fair
  to the turns of the loops and the network to the writes that take bytes. Then each byte of the
  backend reaches the client, and each request that can be read reaches the backend, whatever
  else happens in between.
\<close>

section \<open>What the scheduler and the network owe\<close>

definition b2p_turns :: "event set" where
  "b2p_turns = {B2PTurn}"

definition p2c_turns :: "event set" where
  "p2c_turns = range P2CTurn"

definition p2c_writes :: "event set" where
  "p2c_writes = P2CWrites ` {0<..}"

definition upstream_turns :: "event set" where
  "upstream_turns = range UpstreamTurn"

definition p2b_writes :: "event set" where
  "p2b_writes = P2BWrites ` {0<..}"

section \<open>The way down\<close>

text \<open>No chunk in the channel is empty.\<close>

definition chunks_ok :: "connection \<Rightarrow> bool" where
  "chunks_ok s \<longleftrightarrow> [] \<notin> set (channel s)"

context proxy_laws
begin

lemma b2p_sends:
  assumes "b2p_happens T ev b = Some (b', sent, r)"
  shows "[] \<notin> set sent"
  using assms bytes_decode_Some [of "b2p_buf b"]
  by (auto simp: b2p_happens_def B2PDownStreamConnection_pipe_def
      split: event.splits if_splits prod.splits option.splits)

lemma chunks_kept:
  assumes "chunks_ok s" and "happens B T ev s = Some s'"
  shows "chunks_ok s'"
  using assms(2)
proof (cases rule: happensE)
  case (upstream u r)
  then show ?thesis using assms(1) by (simp add: chunks_ok_def)
next
  case (b2p b sent r)
  then show ?thesis using assms(1) b2p_sends [OF b2p(2)] by (simp add: chunks_ok_def)
next
  case (p2c d rest)
  then have "set rest \<subseteq> set (channel s)"
    by (auto simp: p2c_happens_def split: event.splits if_splits list.splits)
  then show ?thesis using assms(1) p2c(3) by (auto simp: chunks_ok_def)
qed

end

sublocale proxy_laws \<subseteq> chunks: invariant accepted "happens B T" chunks_ok
proof
  show "accepted s \<Longrightarrow> chunks_ok s" for s by (simp add: new_conn_def chunks_ok_def)
qed (rule chunks_kept)

text \<open>How many bytes have left the proxy, and how many the reader of the backend.\<close>

abbreviation client_got :: "connection \<Rightarrow> nat" where
  "client_got s \<equiv> length (to_client (p2c_downstream_conn s))"

definition queued :: "connection \<Rightarrow> nat" where
  "queued s = client_got s + length (p2c_buf (p2c_downstream_conn s)) + length (concat (channel s))"

definition down_over :: "connection \<Rightarrow> bool" where
  "down_over s \<longleftrightarrow> handled s \<noteq> None \<or> p2c_broken (p2c_downstream_conn s)"

locale down_run = proxy_laws +
  fixes es :: "nat \<Rightarrow> event option" and ss :: "nat \<Rightarrow> connection"
  assumes down_starts: "reachable B T (ss 0)"
    and down_runs: "execution (happens B T) es ss"
    and down_fair: "weakly_fair (happens B T) b2p_turns es ss" "weakly_fair (happens B T) p2c_turns es ss"
      "weakly_fair (happens B T) p2c_writes es ss"

sublocale down_run \<subseteq> down_fair: fair_execution "happens B T" es ss "{b2p_turns, p2c_turns, p2c_writes}"
    "reachable B T"
  by unfold_locales (rule down_runs, use down_fair in blast, rule execution_reached [OF down_runs down_starts])

context proxy_laws
begin

lemma down_bytes:
  assumes "reachable B T s" and "\<not> down_over s"
  shows "queued s + length (b2p_buf (b2p_downstream_conn s)) = length (from_backend (b2p_downstream_conn s))"
proof -
  have "to_client (p2c_downstream_conn s) @ transit s = from_backend (b2p_downstream_conn s)"
    using assms down.always by (auto simp: down_over_def down_ok_def)
  from arg_cong [OF this, of length] show ?thesis by (simp add: queued_def transit_def)
qed

text \<open>What an event does to the bytes on the way.\<close>

lemma down_event:
  assumes "happens B T ev s = Some s'" and "\<not> p2c_broken (p2c_downstream_conn s')"
  shows "(ev = B2PTurn \<and> b2p_buf (b2p_downstream_conn s) \<noteq> [] \<and> queued s < queued s' \<or>
      ev \<notin> b2p_turns \<and> queued s' = queued s \<or> b2p_buf (b2p_downstream_conn s) = [] \<and> queued s' = queued s)"
  using assms(1)
proof (cases rule: happensE)
  case (upstream u r)
  then show ?thesis
    by (auto simp: queued_def b2p_turns_def upstream_happens_def)
next
  case (b2p b sent r)
  show ?thesis
  proof (cases "ev = B2PTurn \<and> b2p_buf (b2p_downstream_conn s) \<noteq> []")
    case True
    then obtain chunk left where "bytes_codec_decode T (b2p_buf (b2p_downstream_conn s)) = (Some chunk, left)"
      "chunk \<noteq> []" using bytes_decode_Cons by blast
    then show ?thesis
      using b2p True by (auto simp: b2p_happens_def B2PDownStreamConnection_pipe_def queued_def)
  next
    case False
    then show ?thesis
      using b2p by (auto simp: b2p_happens_def B2PDownStreamConnection_pipe_def queued_def b2p_turns_def
          split: event.splits if_splits)
  qed
next
  case (p2c d rest)
  with assms(2) p2c_keeps [OF p2c(2)]
  have "length (to_client d @ p2c_buf d @ concat rest) = length (to_client (p2c_downstream_conn s) @
      p2c_buf (p2c_downstream_conn s) @ concat (channel s))" by simp
  moreover have "ev \<notin> b2p_turns" using p2c(2) by (auto simp: p2c_happens_def b2p_turns_def)
  ultimately show ?thesis using p2c(3) by (simp add: queued_def)
qed

lemma received_grows:
  assumes "happens B T ev s = Some s'"
  shows "prefix (from_backend (b2p_downstream_conn s)) (from_backend (b2p_downstream_conn s'))"
  using assms
proof (cases rule: happensE)
  case (b2p b sent r)
  then show ?thesis using b2p_keeps [OF b2p(2)] by (auto simp: prefix_def)
qed simp_all

end

context down_run
begin

text \<open>First stage: the reader hands on all it has.\<close>

lemma into_channel:
  "follows ss (\<lambda>s. n \<le> length (from_backend (b2p_downstream_conn s))) 
    (\<lambda>s. down_over s \<or> n \<le> queued s)"
proof (rule down_fair.progress_unless [where m = "\<lambda>s. n - queued s" and r = less_than and agent = "\<lambda>_. b2p_turns"])
  fix s assume "\<not> down_over s"
  then have "happens B T B2PTurn s \<noteq> None"
    by (simp add: down_over_def happens_def upstream_happens_def b2p_happens_def split: prod.splits)
  then show "b2p_turns \<in> {b2p_turns, p2c_turns, p2c_writes} \<and> enabled (happens B T) b2p_turns s"
    by (auto simp: enabled_def b2p_turns_def)
next
  fix s ev s'
  assume inv: "reachable B T s" and on: "\<not> down_over s" "\<not> down_over s'"
    and P: "n \<le> length (from_backend (b2p_downstream_conn s))"
    and Q: "\<not> n \<le> queued s" and step: "happens B T ev s = Some s'"
  have "b2p_buf (b2p_downstream_conn s) \<noteq> []"
    using down_bytes [OF inv on(1)] P Q by auto
  then have "queued s < queued s' \<or> queued s' = queued s \<and> ev \<notin> b2p_turns"
    using down_event [OF step] on(2) by (auto simp: down_over_def)
  moreover have "n \<le> length (from_backend (b2p_downstream_conn s'))"
    using prefix_length_le [OF received_grows [OF step]] P by simp
  ultimately show "n \<le> queued s' \<or> n \<le> length (from_backend (b2p_downstream_conn s')) \<and>
      ((n - queued s', n - queued s) \<in> less_than \<or> n - queued s' = n - queued s \<and> b2p_turns = b2p_turns \<and> ev \<notin> b2p_turns)"
    using Q by auto
qed simp

text \<open>Second stage: the channel is emptied through the writer, one chunk after the other.\<close>

lemma down_enabled:
  assumes "\<not> down_over s"
  shows "p2c_buf (p2c_downstream_conn s) \<noteq> [] \<Longrightarrow> enabled (happens B T) p2c_writes s"
    and "p2c_buf (p2c_downstream_conn s) = [] \<Longrightarrow> channel s \<noteq> [] \<Longrightarrow> enabled (happens B T) p2c_turns s"
proof -
  have "happens B T (P2CWrites 1) s \<noteq> None" if "p2c_buf (p2c_downstream_conn s) \<noteq> []"
    using assms that
    by (simp add: down_over_def happens_def upstream_happens_def b2p_happens_def p2c_happens_def Suc_le_eq)
  then show "p2c_buf (p2c_downstream_conn s) \<noteq> [] \<Longrightarrow> enabled (happens B T) p2c_writes s"
    unfolding enabled_def p2c_writes_def by (blast intro: zero_less_one)
  have "happens B T (P2CTurn True) s \<noteq> None" if "p2c_buf (p2c_downstream_conn s) = []" "channel s \<noteq> []"
    using assms that
    by (simp add: down_over_def happens_def upstream_happens_def b2p_happens_def p2c_happens_def split: list.split)
  then show "p2c_buf (p2c_downstream_conn s) = [] \<Longrightarrow> channel s \<noteq> [] \<Longrightarrow> enabled (happens B T) p2c_turns s"
    unfolding enabled_def p2c_turns_def by blast
qed

lemma writer_event:
  assumes "happens B T ev s = Some s'" and "reachable B T s" and "\<not> down_over s" and "\<not> down_over s'"
  shows "client_got s \<le> client_got s' \<and>
    (if p2c_buf (p2c_downstream_conn s) \<noteq> []
     then client_got s < client_got s' \<or>
       p2c_buf (p2c_downstream_conn s') = p2c_buf (p2c_downstream_conn s) \<and> ev \<notin> p2c_writes
     else p2c_buf (p2c_downstream_conn s') \<noteq> [] \<or> ev \<notin> p2c_turns)"
  using assms(1)
proof (cases rule: happensE)
  case (upstream u r)
  then show ?thesis by (auto simp: upstream_happens_def p2c_writes_def p2c_turns_def)
next
  case (b2p b sent r)
  then show ?thesis by (auto simp: b2p_happens_def p2c_writes_def p2c_turns_def)
next
  case (p2c d rest)
  have "[] \<notin> set (channel s)" "\<not> p2c_broken (p2c_downstream_conn s)"
    using assms(2,3) chunks.always by (auto simp: chunks_ok_def down_over_def)
  then show ?thesis
    using p2c by (auto simp: p2c_happens_def p2c_writes_def p2c_turns_def P2CDownStreamConnection_pipe_def
        bytes_encode_law split: event.splits if_splits list.splits)
qed

lemma to_client:
  "follows ss (\<lambda>s. n \<le> queued s) (\<lambda>s. down_over s \<or> n \<le> client_got s)"
proof (rule down_fair.progress_unless [where r = "less_than <*lex*> less_than"
    and m = "\<lambda>s. (n - client_got s, if p2c_buf (p2c_downstream_conn s) = [] then 1 else 0)"
    and agent = "\<lambda>s. if p2c_buf (p2c_downstream_conn s) = [] then p2c_turns else p2c_writes"])
  fix s assume on: "\<not> down_over s" and "n \<le> queued s" "\<not> n \<le> client_got s"
  then have "p2c_buf (p2c_downstream_conn s) \<noteq> [] \<or> channel s \<noteq> []"
    by (auto simp: queued_def)
  then show "(if p2c_buf (p2c_downstream_conn s) = [] then p2c_turns else p2c_writes) \<in>
        {b2p_turns, p2c_turns, p2c_writes} \<and>
      enabled (happens B T) (if p2c_buf (p2c_downstream_conn s) = [] then p2c_turns else p2c_writes) s"
    using down_enabled [OF on] by auto
next
  fix s ev s'
  let ?agent = "\<lambda>s. if p2c_buf (p2c_downstream_conn s) = [] then p2c_turns else p2c_writes"
  let ?m = "\<lambda>s. (n - client_got s, if p2c_buf (p2c_downstream_conn s) = [] then 1 else 0 :: nat)"
  assume inv: "reachable B T s" and on: "\<not> down_over s" "\<not> down_over s'" and P: "n \<le> queued s" and Q: "\<not> n \<le> client_got s"
    and step: "happens B T ev s = Some s'"
  have "queued s \<le> queued s'"
    using down_event [OF step] on(2) by (auto simp: down_over_def)
  with P have "n \<le> queued s'" by simp
  moreover have "(?m s', ?m s) \<in> less_than <*lex*> less_than \<or>
      ?m s' = ?m s \<and> ?agent s' = ?agent s \<and> ev \<notin> ?agent s"
    using writer_event [OF step inv on] Q by (auto split: if_splits)
  ultimately show "n \<le> client_got s' \<or> n \<le> queued s' \<and>
      ((?m s', ?m s) \<in> less_than <*lex*> less_than \<or>
       ?m s' = ?m s \<and> ?agent s' = ?agent s \<and> ev \<notin> ?agent s)" by blast
qed auto

theorem all_bytes_arrive:
  "\<exists>j\<ge>i. down_over (ss j) \<or>
    prefix (from_backend (b2p_downstream_conn (ss i))) (to_client (p2c_downstream_conn (ss j)))"
proof -
  let ?n = "length (from_backend (b2p_downstream_conn (ss i)))"
  obtain j where j: "i \<le> j" "down_over (ss j) \<or> ?n \<le> client_got (ss j)"
    using follows_unless [OF into_channel to_client, of ?n] unfolding follows_def by blast
  have "prefix (from_backend (b2p_downstream_conn (ss i))) (from_backend (b2p_downstream_conn (ss j)))"
    using execution_related [OF down_runs j(1),
        of "\<lambda>s s'. prefix (from_backend (b2p_downstream_conn s)) (from_backend (b2p_downstream_conn s'))"]
      received_grows prefix_order.trans by blast
  moreover have "prefix (to_client (p2c_downstream_conn (ss j))) (from_backend (b2p_downstream_conn (ss j)))"
    using down.always [OF down_fair.always] by (simp add: down_ok_def)
  ultimately show ?thesis using j prefix_length_prefix by blast
qed

end

section \<open>The way up\<close>

definition up_over :: "connection \<Rightarrow> bool" where
  "up_over s \<longleftrightarrow> handled s \<noteq> None \<or> p2b_broken (upstream_conn s)"

locale up_run = proxy_laws +
  fixes es :: "nat \<Rightarrow> event option" and ss :: "nat \<Rightarrow> connection"
  assumes up_starts: "reachable B T (ss 0)"
    and up_runs: "execution (happens B T) es ss"
    and up_fair: "weakly_fair (happens B T) upstream_turns es ss" "weakly_fair (happens B T) p2b_writes es ss"

sublocale up_run \<subseteq> up_fair: fair_execution "happens B T" es ss "{upstream_turns, p2b_writes}" "reachable B T"
  by unfold_locales (rule up_runs, use up_fair in blast, rule execution_reached [OF up_runs up_starts])

context proxy_laws
begin

lemma requests_in_more: "prefix (requests_in B src) (requests_in B (src @ extra))"
proof -
  let ?n = "length (requests_in B src) + length (requests_in B (src @ extra))"
  obtain items where "deliver (ServerPacketCodec_decode B) ?n new_server (src @ extra) =
      deliver (ServerPacketCodec_decode B) ?n new_server src @ items"
    using server_reads.deliver_more [of new_server] codec_ok_new_server by blast
  then show ?thesis by (simp add: deliver_requests)
qed

lemma requests_grow:
  assumes "happens B T ev s = Some s'"
  shows "prefix (requests_in B (from_client (upstream_conn s))) (requests_in B (from_client (upstream_conn s')))"
proof -
  have "\<exists>more_bytes. from_client (upstream_conn s') = from_client (upstream_conn s) @ more_bytes"
    using assms
  proof (cases rule: happensE)
    case (upstream u r)
    then show ?thesis
    proof (cases ev)
      case (UpstreamTurn takes)
      then have "UpStreamConnection_pipe B T takes (upstream_conn s) = (u, r)"
        using upstream(2) by (auto simp: upstream_happens_def split: if_splits)
      then have "from_client u = from_client (upstream_conn s)"
        by (cases rule: upstream_turnE [of "upstream_conn s" takes]) (auto simp: pass_on_def Let_def)
      then show ?thesis using upstream(3) by simp
    qed (auto simp: upstream_happens_def split: if_splits)
  qed simp_all
  then show ?thesis using requests_in_more by metis
qed

lemma up_bytes:
  assumes "reachable B T s"
  shows "\<not> up_over s \<Longrightarrow> to_backend (upstream_conn s) @ p2b_buf (upstream_conn s) =
      concat (map packet_frame (forwarded (upstream_conn s)))"
    and "prefix (forwarded (upstream_conn s)) (requests_in B (from_client (upstream_conn s)))"
  using upstream_refines [OF assms refl] upstream_prefix [OF assms refl] by (auto simp: up_over_def)

lemma up_enabled:
  assumes "\<not> up_over s"
  shows "p2b_buf (upstream_conn s) \<noteq> [] \<Longrightarrow> enabled (happens B T) p2b_writes s"
    and "p2b_buf (upstream_conn s) = [] \<Longrightarrow> enabled (happens B T) upstream_turns s"
proof -
  have "happens B T (P2BWrites 1) s \<noteq> None" if "p2b_buf (upstream_conn s) \<noteq> []"
    using assms that by (simp add: up_over_def happens_def upstream_happens_def Suc_le_eq)
  then show "p2b_buf (upstream_conn s) \<noteq> [] \<Longrightarrow> enabled (happens B T) p2b_writes s"
    unfolding enabled_def p2b_writes_def by (blast intro: zero_less_one)
  have "happens B T (UpstreamTurn True) s \<noteq> None" if "p2b_buf (upstream_conn s) = []"
    using assms that by (simp add: up_over_def happens_def upstream_happens_def split: prod.split)
  then show "p2b_buf (upstream_conn s) = [] \<Longrightarrow> enabled (happens B T) upstream_turns s"
    unfolding enabled_def upstream_turns_def by blast
qed

text \<open>
  A turn forwards a packet if there is one to forward, a write brings bytes out, and nothing else
  changes either.
\<close>

lemma up_event:
  assumes "happens B T ev s = Some s'" and "reachable B T s" and "\<not> up_over s" and "\<not> up_over s'"
  shows "if p2b_buf (upstream_conn s) = []
    then forwarded (upstream_conn s') = forwarded (upstream_conn s) \<and> p2b_buf (upstream_conn s') = [] \<and>
        (ev \<in> upstream_turns \<longrightarrow>
          forwarded (upstream_conn s) = requests_in B (from_client (upstream_conn s))) \<or>
      length (forwarded (upstream_conn s)) < length (forwarded (upstream_conn s'))
    else forwarded (upstream_conn s') = forwarded (upstream_conn s) \<and>
      (p2b_buf (upstream_conn s') = p2b_buf (upstream_conn s) \<and> ev \<notin> p2b_writes \<or>
       length (p2b_buf (upstream_conn s')) < length (p2b_buf (upstream_conn s)))"
  using assms(1)
proof (cases rule: happensE)
  case (upstream u r)
  have whole: "\<not> p2b_broken (upstream_conn s)" "reachable B T s" using assms(2,3) by (auto simp: up_over_def)
  show ?thesis
  proof (cases ev)
    case (UpstreamTurn takes)
    then have turn: "UpStreamConnection_pipe B T takes (upstream_conn s) = (u, r)" and
      here: "takes" "p2b_buf (upstream_conn s) = []"
      using upstream(2) whole(1) by (auto simp: upstream_happens_def split: if_splits)
    show ?thesis
    proof (cases rule: upstream_turnE [of "upstream_conn s" takes])
      case (forwards p c buf)
      then show ?thesis using turn upstream(3) here by (auto simp: pass_on_def Let_def)
    qed (use turn upstream(3) here upstream_complete [OF whole(2), of takes s'] assms(1) UpstreamTurn in
        \<open>auto simp: upstream_turns_def\<close>)
  next
    case (P2BWrites n)
    then show ?thesis
      using upstream whole(1)
      by (cases n) (auto simp: upstream_happens_def p2b_writes_def upstream_turns_def split: if_splits)
  qed (use upstream in \<open>auto simp: upstream_happens_def p2b_writes_def upstream_turns_def split: if_splits\<close>)
next
  case (b2p b sent r)
  then show ?thesis by (auto simp: b2p_happens_def p2b_writes_def upstream_turns_def)
next
  case (p2c d rest)
  then show ?thesis by (auto simp: p2c_happens_def p2b_writes_def upstream_turns_def)
qed

end

context proxy_laws
begin

lemma canonical_requests_in:
  assumes "\<forall>p \<in> set ps. canonical p"
  shows "requests_in B (concat (map packet_frame ps)) = ps"
proof -
  have "requests_in B [] = []"
    by (simp add: requests_in_def split_frames.simps)
  then have "take k (requests_in B (concat (map packet_frame ps))) = take k ps" for k
    using deliver_packets [OF assms, of k "[]"] by (simp add: deliver_requests)
  from this [of "length ps + length (requests_in B (concat (map packet_frame ps)))"] show ?thesis by simp
qed

end

text \<open>The requests \<open>rs\<close> have arrived when their frames have been written.\<close>

definition arrived :: "RequestPacket list \<Rightarrow> connection \<Rightarrow> bool" where
  "arrived rs s \<longleftrightarrow> prefix (concat (map packet_frame rs)) (to_backend (upstream_conn s))"

definition missing :: "RequestPacket list \<Rightarrow> connection \<Rightarrow> nat \<times> nat" where
  "missing rs s =
     (length rs - length (forwarded (upstream_conn s)), length (p2b_buf (upstream_conn s)))"

context up_run
begin

lemma idle_before_arrival:
  assumes "reachable B T s" and "prefix rs (requests_in B (from_client (upstream_conn s)))"
    and "\<not> arrived rs s" and "p2b_buf (upstream_conn s) = []" and "\<not> up_over s"
  shows "length (forwarded (upstream_conn s)) < length rs"
proof (rule ccontr)
  assume "\<not> ?thesis"
  then have "prefix rs (forwarded (upstream_conn s))"
    using prefix_length_prefix [OF assms(2) up_bytes(2) [OF assms(1)]] by simp
  then have "prefix (concat (map packet_frame rs)) (concat (map packet_frame (forwarded (upstream_conn s))))"
    by (auto simp: prefix_def)
  with assms(3,4) up_bytes(1) [OF assms(1,5)] show False by (simp add: arrived_def)
qed

lemma requests_follow:
  "follows ss (\<lambda>s. prefix rs (requests_in B (from_client (upstream_conn s)))) (\<lambda>s. up_over s \<or> arrived rs s)"
proof (rule up_fair.progress_unless [where r = "less_than <*lex*> less_than" and m = "missing rs"
    and agent = "\<lambda>s. if p2b_buf (upstream_conn s) = [] then upstream_turns else p2b_writes"])
  fix s assume on: "\<not> up_over s"
  then show "(if p2b_buf (upstream_conn s) = [] then upstream_turns else p2b_writes) \<in> {upstream_turns, p2b_writes} \<and>
      enabled (happens B T) (if p2b_buf (upstream_conn s) = [] then upstream_turns else p2b_writes) s"
    using up_enabled [OF on] by auto
next
  fix s ev s'
  let ?agent = "\<lambda>s. if p2b_buf (upstream_conn s) = [] then upstream_turns else p2b_writes"
  assume inv: "reachable B T s" and on: "\<not> up_over s" "\<not> up_over s'" and P: "prefix rs (requests_in B (from_client (upstream_conn s)))"
    and Q: "\<not> arrived rs s" and step: "happens B T ev s = Some s'"
  have "prefix rs (requests_in B (from_client (upstream_conn s')))"
    using P requests_grow [OF step] prefix_order.trans by blast
  moreover have "(missing rs s', missing rs s) \<in> less_than <*lex*> less_than \<or>
      missing rs s' = missing rs s \<and> ?agent s' = ?agent s \<and> ev \<notin> ?agent s"
  proof (cases "p2b_buf (upstream_conn s) = []")
    case True
    then have "length (forwarded (upstream_conn s)) < length rs"
      by (rule idle_before_arrival [OF inv P Q _ on(1)])
    then show ?thesis
      using up_event [OF step inv on] True prefix_length_le [OF P] by (auto simp: missing_def)
  next
    case False
    then show ?thesis using up_event [OF step inv on] by (auto simp: missing_def)
  qed
  ultimately show "arrived rs s' \<or> prefix rs (requests_in B (from_client (upstream_conn s'))) \<and>
      ((missing rs s', missing rs s) \<in> less_than <*lex*> less_than \<or>
       missing rs s' = missing rs s \<and> ?agent s' = ?agent s \<and> ev \<notin> ?agent s)" by blast
qed auto

theorem all_requests_arrive:
  "\<exists>j\<ge>i. up_over (ss j) \<or> arrived (requests_in B (from_client (upstream_conn (ss i)))) (ss j)"
  using requests_follow unfolding follows_def by blast

text \<open>Canonical requests arrive as they were sent.\<close>

lemma canonical_arrive:
  assumes "\<forall>p \<in> set ps. canonical p" and "from_client (upstream_conn (ss i)) = concat (map packet_frame ps)"
  shows "\<exists>j\<ge>i. up_over (ss j) \<or> prefix (from_client (upstream_conn (ss i))) (to_backend (upstream_conn (ss j)))"
  using all_requests_arrive [of i] assms by (simp add: arrived_def canonical_requests_in)

end

section \<open>What is over stays over\<close>

context proxy_laws
begin

lemma up_over_stays:
  assumes "happens B T ev s = Some s'" and "up_over s"
  shows "up_over s'"
  using assms(1)
proof (cases rule: happensE)
  case (upstream u r)
  then have broken: "p2b_broken (upstream_conn s)" using assms(2) by (simp add: up_over_def)
  have "p2b_broken u"
  proof (cases ev)
    case (UpstreamTurn takes)
    then have "UpStreamConnection_pipe B T takes (upstream_conn s) = (u, r)"
      using upstream(2) by (auto simp: upstream_happens_def split: if_splits)
    then show ?thesis
      using broken by (cases rule: upstream_turnE [of "upstream_conn s" takes]) (auto simp: pass_on_def Let_def)
  qed (use upstream(2) broken in \<open>auto simp: upstream_happens_def split: if_splits\<close>)
  then show ?thesis using upstream(3) by (simp add: up_over_def)
qed (use assms(2) in \<open>simp_all add: up_over_def\<close>)

lemma down_over_stays:
  assumes "happens B T ev s = Some s'" and "down_over s"
  shows "down_over s'"
  using assms(1)
proof (cases rule: happensE)
  case (p2c d rest)
  then have "p2c_broken (p2c_downstream_conn s)" using assms(2) by (simp add: down_over_def)
  then show ?thesis
    using p2c(2,3) by (auto simp: down_over_def p2c_happens_def P2CDownStreamConnection_pipe_def
        split: event.splits if_splits list.splits)
qed (use assms(2) in \<open>simp_all add: down_over_def\<close>)

text \<open>So a run that is on at the end was on all the time.\<close>

lemma not_over_before:
  assumes "execution (happens B T) es ss" and "i \<le> j"
  shows "\<not> up_over (ss j) \<Longrightarrow> \<not> up_over (ss i)" and "\<not> down_over (ss j) \<Longrightarrow> \<not> down_over (ss i)"
  using execution_related [OF assms, of "\<lambda>s s'. up_over s \<longrightarrow> up_over s'"]
    execution_related [OF assms, of "\<lambda>s s'. down_over s \<longrightarrow> down_over s'"] up_over_stays down_over_stays
  by blast+

end

end
