(* ===== verification/Closing.thy ===== *)
theory Closing
  imports Fair_Delivery
begin

text \<open>
  A connection does not outlive its peers: once the client or the backend has shut its side
  down, the connection ends, if the loop that reads from there gets its turns and, for the
  client, writes to the backend take bytes or fail. And what the loop that ends it has read is
  sent on by then.
\<close>

section \<open>The client has shut its side down\<close>

text \<open>What the upstream loop has left to do, and who has to act next.\<close>

definition up_left :: "bytes_crate \<Rightarrow> UpStreamConnection \<Rightarrow> nat \<times> nat \<times> nat" where
  "up_left B u =
     (if p2b_broken u then 0 else 1,
      length (requests_in B (from_client u)) - length (forwarded u),
      if p2b_broken u then 0 else length (p2b_buf u))"

definition up_next :: "UpStreamConnection \<Rightarrow> event set" where
  "up_next u = (if p2b_broken u \<or> p2b_buf u = [] then upstream_turns else p2b_writes)"

abbreviation up_order :: "((nat \<times> nat \<times> nat) \<times> nat \<times> nat \<times> nat) set" where
  "up_order \<equiv> less_than <*lex*> less_than <*lex*> less_than"

context proxy_laws
begin

lemma up_next_enabled:
  assumes "handled s = None"
  shows "enabled (happens B T) (up_next (upstream_conn s)) s"
proof (cases "p2b_broken (upstream_conn s) \<or> p2b_buf (upstream_conn s) = []")
  case True
  then have "happens B T (UpstreamTurn True) s \<noteq> None"
    using assms by (auto simp: happens_def upstream_happens_def split: prod.split)
  then show ?thesis using True by (auto simp: enabled_def up_next_def upstream_turns_def)
next
  case False
  then show ?thesis using up_enabled(1) [of s] assms by (simp add: up_over_def up_next_def)
qed

lemma turn_at_eof:
  assumes "happens B T (UpstreamTurn takes) s = Some s'" and "handled s' = None"
    and "c2p_eof (upstream_conn s)"
  obtains r c buf where "upstream_conn s' = pass_on takes r c buf (upstream_conn s)"
  using assms(1)
proof (cases rule: happensE)
  case (upstream u r)
  then have turn: "UpStreamConnection_pipe B T takes (upstream_conn s) = (u, r)"
    by (auto simp: upstream_happens_def split: if_splits)
  have "r = None" using upstream(3) assms(2) by simp
  with turn obtain p c buf where "u = pass_on takes p c buf (upstream_conn s)"
    using assms(3) by (cases rule: upstream_turnE [of "upstream_conn s" takes]) auto
  then show thesis using that upstream(3) by simp
qed (simp_all add: b2p_happens_def p2c_happens_def)

lemma up_turn_left:
  assumes "length (forwarded u) < length (requests_in B (from_client u))"
  shows "(up_left B (pass_on takes r c buf u), up_left B u) \<in> up_order"
proof (cases "p2b_broken u")
  case True
  then show ?thesis using assms by (simp add: up_left_def pass_on_def Let_def)
next
  case False
  then show ?thesis using assms by (simp add: up_left_def pass_on_def Let_def)
qed

lemma up_event_left:
  assumes "upstream_happens B T ev u = Some (u', None)" and "c2p_eof u" and "ev \<notin> upstream_turns"
  shows "c2p_eof u' \<and> ((up_left B u', up_left B u) \<in> up_order \<or> u' = u \<and> ev \<notin> p2b_writes)"
proof (cases ev)
  case (P2BWrites n)
  then have "\<not> p2b_broken u" "n \<le> length (p2b_buf u)"
    "u' = u\<lparr>p2b_buf := drop n (p2b_buf u), to_backend := to_backend u @ take n (p2b_buf u)\<rparr>"
    using assms(1) by (simp_all add: upstream_happens_def split: if_splits)
  then show ?thesis using P2BWrites assms(2) by (cases n) (auto simp: up_left_def p2b_writes_def)
next
  case P2BBreaks
  then have "u' = u\<lparr>p2b_broken := True\<rparr>" using assms(1) by (simp add: upstream_happens_def)
  then show ?thesis
    using P2BBreaks assms(2) by (cases "p2b_broken u") (auto simp: up_left_def p2b_writes_def)
qed (use assms in \<open>auto simp: upstream_happens_def upstream_turns_def p2b_writes_def\<close>)

lemma up_step_at_eof:
  assumes "happens B T ev s = Some s'" and "reachable B T s'" and "handled s' = None"
    and "c2p_eof (upstream_conn s)"
  shows "c2p_eof (upstream_conn s') \<and>
    ((up_left B (upstream_conn s'), up_left B (upstream_conn s)) \<in> up_order \<or>
     up_left B (upstream_conn s') = up_left B (upstream_conn s) \<and>
     up_next (upstream_conn s') = up_next (upstream_conn s) \<and> ev \<notin> up_next (upstream_conn s))"
proof (cases "ev \<in> upstream_turns")
  case True
  then obtain takes r c buf where u': "upstream_conn s' = pass_on takes r c buf (upstream_conn s)"
    using turn_at_eof assms unfolding upstream_turns_def by (metis imageE)
  have "length (forwarded (upstream_conn s')) \<le> length (requests_in B (from_client (upstream_conn s')))"
    by (rule prefix_length_le [OF up_bytes(2) [OF assms(2)]])
  then have "length (forwarded (upstream_conn s)) < length (requests_in B (from_client (upstream_conn s)))"
    by (simp add: u' pass_on_def Let_def split: if_splits)
  from up_turn_left [OF this] show ?thesis
    using assms(4) by (simp add: u') (simp add: pass_on_def Let_def)
next
  case False
  have same: ?thesis if "upstream_conn s' = upstream_conn s" "ev \<notin> p2b_writes"
    using that False assms(4) by (simp add: up_next_def)
  show ?thesis
    using assms(1)
  proof (cases rule: happensE)
    case (upstream u r)
    then have "upstream_happens B T ev (upstream_conn s) = Some (upstream_conn s', None)"
      using assms(3) by simp
    from up_event_left [OF this assms(4) False] show ?thesis using False by (auto simp: up_next_def)
  next
    case (b2p b sent r)
    then show ?thesis by (intro same) (auto simp: b2p_happens_def p2b_writes_def)
  next
    case (p2c d rest)
    then show ?thesis by (intro same) (auto simp: p2c_happens_def p2b_writes_def)
  qed
qed

end

context up_run
begin

theorem client_closing_ends:
  assumes "c2p_eof (upstream_conn (ss i))"
  shows "\<exists>j\<ge>i. handled (ss j) \<noteq> None"
proof -
  have "follows ss (\<lambda>s. c2p_eof (upstream_conn s)) (\<lambda>s. handled s \<noteq> None \<or> False)"
  proof (rule up_fair.progress_unless [where r = up_order and m = "\<lambda>s. up_left B (upstream_conn s)" and agent = "\<lambda>s. up_next (upstream_conn s)"])
    fix s :: connection assume "\<not> handled s \<noteq> None"
    then show "up_next (upstream_conn s) \<in> {upstream_turns, p2b_writes} \<and> enabled (happens B T) (up_next (upstream_conn s)) s"
      using up_next_enabled [of s] by (simp add: up_next_def [of "upstream_conn s"])
  qed (use up_step_at_eof in auto)
  then show ?thesis using assms unfolding follows_def by blast
qed

end

section \<open>The backend has shut its side down\<close>

context proxy_laws
begin

lemma down_step_at_eof:
  assumes "happens B T ev s = Some s'" and "handled s' = None" and "b2p_eof (b2p_downstream_conn s)"
  shows "b2p_eof (b2p_downstream_conn s') \<and>
    (length (b2p_buf (b2p_downstream_conn s')) < length (b2p_buf (b2p_downstream_conn s)) \<or>
     length (b2p_buf (b2p_downstream_conn s')) = length (b2p_buf (b2p_downstream_conn s)) \<and> ev \<notin> b2p_turns)"
  using assms(1)
proof (cases rule: happensE)
  case (upstream u r)
  then show ?thesis using assms(3) by (auto simp: upstream_happens_def b2p_turns_def)
next
  case (b2p b sent r)
  show ?thesis
  proof (cases ev)
    case B2PTurn
    have "b2p_buf (b2p_downstream_conn s) \<noteq> []"
      using handled_after [OF assms(1)] assms(2,3) B2PTurn by (auto simp: ends_with_def)
    then obtain chunk left where "bytes_codec_decode T (b2p_buf (b2p_downstream_conn s)) = (Some chunk, left)"
      "chunk \<noteq> []" and buf: "chunk @ left = b2p_buf (b2p_downstream_conn s)" by (rule bytes_decode_Cons)
    moreover have "length left < length (b2p_buf (b2p_downstream_conn s))"
      using arg_cong [OF buf, of length] \<open>chunk \<noteq> []\<close> by (cases chunk) auto
    ultimately show ?thesis
      using b2p(2,3) B2PTurn assms(3)
      by (auto simp: b2p_happens_def B2PDownStreamConnection_pipe_def)
  qed (use b2p(2,3) assms(3) in \<open>auto simp: b2p_happens_def b2p_turns_def\<close>)
next
  case (p2c d rest)
  then show ?thesis using assms(3) by (auto simp: p2c_happens_def b2p_turns_def)
qed

theorem backend_closing_ends:
  assumes "reachable B T (ss 0)" and "execution (happens B T) es ss"
    and "weakly_fair (happens B T) b2p_turns es ss" and "b2p_eof (b2p_downstream_conn (ss i))"
  shows "\<exists>j\<ge>i. handled (ss j) \<noteq> None"
proof -
  have run: "fair_execution (happens B T) es ss {b2p_turns} (reachable B T)"
    by unfold_locales (rule assms(2), use assms(3) in blast, rule execution_reached [OF assms(2,1)])
  have "follows ss (\<lambda>s. b2p_eof (b2p_downstream_conn s)) (\<lambda>s. handled s \<noteq> None \<or> False)"
  proof (rule fair_execution.progress_unless [OF run, where r = less_than and
        m = "\<lambda>s. length (b2p_buf (b2p_downstream_conn s))" and agent = "\<lambda>_. b2p_turns"])
    fix s :: connection assume "\<not> handled s \<noteq> None"
    then have "happens B T B2PTurn s \<noteq> None"
      by (simp add: happens_def upstream_happens_def b2p_happens_def split: prod.split)
    then show "b2p_turns \<in> {b2p_turns} \<and> enabled (happens B T) b2p_turns s"
      by (auto simp: enabled_def b2p_turns_def)
  qed (use down_step_at_eof in auto)
  then show ?thesis using assms(4) unfolding follows_def by blast
qed

end

section \<open>The client is not waited for\<close>

text \<open>
  When the client has shut its side down and its requests have been read and written, the
  upstream loop can take its next turn, which ends the connection, whatever is on the way down.
\<close>

context proxy_laws
begin

lemma end_drops_replies:
  assumes "reachable B T s" and "handled s = None" and "c2p_eof (upstream_conn s)"
    and "forwarded (upstream_conn s) = requests_in B (from_client (upstream_conn s))"
    and "p2b_buf (upstream_conn s) = []"
  shows "\<exists>s'. happens B T (UpstreamTurn True) s = Some s' \<and> handled s' \<noteq> None \<and>
    p2c_downstream_conn s' = p2c_downstream_conn s \<and> channel s' = channel s \<and>
    (\<forall>ev. happens B T ev s' = None)"
proof -
  obtain u r where turn: "UpStreamConnection_pipe B T True (upstream_conn s) = (u, r)"
    by (metis surj_pair)
  let ?s = "s\<lparr>upstream_conn := u, handled := r\<rparr>"
  have step: "happens B T (UpstreamTurn True) s = Some ?s"
    using assms(2,5) turn by (simp add: happens_def upstream_happens_def)
  have "handled ?s \<noteq> None"
  proof
    assume "handled ?s = None"
    then obtain q c buf where "upstream_conn ?s = pass_on True q c buf (upstream_conn s)"
      using turn_at_eof [OF step _ assms(3)] by metis
    then have "length (forwarded u) = Suc (length (requests_in B (from_client u)))"
      using assms(4) by (simp add: pass_on_def Let_def)
    moreover have "prefix (forwarded u) (requests_in B (from_client u))"
      using up_bytes(2) [OF reached.event [OF assms(1) step]] by simp
    ultimately show False using prefix_length_le by fastforce
  qed
  with step show ?thesis by (intro exI [of _ ?s]) (simp add: nothing_after_the_end)
qed

end

section \<open>What has been done by then\<close>

context proxy_laws
begin

lemma upstream_done_at_end:
  assumes "reachable B T s" and "happens B T ev s = Some s'" and "handled s' \<noteq> None"
    and "ev \<in> upstream_turns" and "\<not> p2b_broken (upstream_conn s')"
  shows "to_backend (upstream_conn s') =
    concat (map packet_frame (requests_in B (from_client (upstream_conn s'))))"
  using assms(2)
proof (cases rule: happensE)
  case (upstream u r)
  obtain takes where ev: "ev = UpstreamTurn takes" using assms(4) by (auto simp: upstream_turns_def)
  then have turn: "UpStreamConnection_pipe B T takes (upstream_conn s) = (u, r)"
    and idle: "p2b_broken (upstream_conn s) \<or> p2b_buf (upstream_conn s) = []"
    using upstream(2) by (auto simp: upstream_happens_def split: if_splits)
  have "r \<noteq> None" using upstream(3) assms(3) by simp
  with turn obtain c buf where "u = (upstream_conn s)\<lparr>c2p_framed := c, c2p_buf := buf\<rparr>"
    by (cases rule: upstream_turnE [of "upstream_conn s" takes]) auto
  then have same: "forwarded (upstream_conn s') = forwarded (upstream_conn s)"
    "to_backend (upstream_conn s') = to_backend (upstream_conn s)"
    "from_client (upstream_conn s') = from_client (upstream_conn s)"
    "p2b_broken (upstream_conn s') = p2b_broken (upstream_conn s)"
    using upstream(3) by simp_all
  have "\<not> up_over s" using same(4) assms(5) upstream(1) by (simp add: up_over_def)
  from up_bytes(1) [OF assms(1) this] show ?thesis
    using upstream_complete [OF assms(1) assms(2) [unfolded ev] same(1)] same idle assms(5) by simp
qed (use assms(4) in \<open>auto simp: b2p_happens_def p2c_happens_def upstream_turns_def\<close>)

lemma reader_done_at_end:
  assumes "reachable B T s" and "happens B T ev s = Some s'" and "handled s' \<noteq> None"
    and "ev \<in> b2p_turns" and "\<not> p2c_broken (p2c_downstream_conn s')"
  shows "to_client (p2c_downstream_conn s') @ p2c_buf (p2c_downstream_conn s') @ concat (channel s') =
    from_backend (b2p_downstream_conn s')"
proof -
  have ev: "ev = B2PTurn" using assms(4) by (simp add: b2p_turns_def)
  have nil: "b2p_buf (b2p_downstream_conn s) = []"
    using handled_after [OF assms(2)] assms(3) ev by (auto simp: ends_with_def split: if_splits)
  then have "b2p_buf (b2p_downstream_conn s') = []"
    using assms(2) ev by (auto simp: happens_def upstream_happens_def b2p_happens_def
        B2PDownStreamConnection_pipe_def split: if_splits)
  moreover have "down_ok s'" using down.always [OF reached.event [OF assms(1,2)]] .
  ultimately show ?thesis using assms(5) by (simp add: down_ok_def transit_def)
qed

end

end
