(* ===== verification/Fair_Serving.thy ===== *)
theory Fair_Serving
  imports Listener Closing
begin

text \<open>
  The accept loop and fairness. In a run of the whole program each connection goes, from any
  moment on, through a run of its own, at the pace of the whole; a scheduler that is fair to the
  tasks is fair to the loops of each connection. So each connection delivers what it would
  deliver alone, however many others there are and whatever happens to them.
\<close>

section \<open>A connection in a run of the program\<close>

text \<open>The events of the \<open>n\<close>-th task, from moment \<open>i\<close> on.\<close>

definition task_events :: "nat \<Rightarrow> nat \<Rightarrow> (nat \<Rightarrow> server_event option) \<Rightarrow> nat \<Rightarrow> event option" where
  "task_events n i es j = Option.bind (es (i + j)) (addressed n)"

lemma task_enabled:
  assumes "task_is n s c" and "started s = None" and "enabled (happens B T) E c"
  shows "enabled (serves B T) (Task n ` E) s"
proof -
  obtain ev c' where ev: "ev \<in> E" "happens B T ev c = Some c'"
    using assms(3) unfolding enabled_def by blast
  then have "serves B T (Task n ev) s = Some (s\<lparr>tasks := (tasks s)[n := Inr c']\<rparr>)"
    using assms(1,2) by (simp add: serves_Task task_is_def)
  then show ?thesis using ev(1) unfolding enabled_def by blast
qed

lemma task_reachable:
  assumes "serving B T s" and "task_is n s c"
  shows "reachable B T c"
  using server.always [OF assms(1)] assms(2) nth_mem [of n "tasks s"]
  by (force simp: tasks_ok_def task_is_def)

lemma connection_run:
  assumes "serving B T (ss 0)" and "execution (serves B T) es ss" and "task_is n (ss i) c"
  obtains cs where "cs 0 = c" "reachable B T c" "execution (happens B T) (task_events n i es) cs"
    "\<And>j. task_is n (ss (i + j)) (cs j)"
    "\<And>E. \<forall>j\<ge>i. started (ss j) = None \<Longrightarrow> weakly_fair (serves B T) (Task n ` E) es ss \<Longrightarrow>
      weakly_fair (happens B T) E (task_events n i es) cs"
proof -
  from task.executions_simulated [OF execution_suffix [OF assms(2), of i], of n c] assms(3)
  obtain cs where cs: "cs 0 = c" "execution (happens B T) (task_events n i es) cs"
    "\<And>j. task_is n (ss (i + j)) (cs j)"
    unfolding task_events_def by auto
  have "weakly_fair (happens B T) E (task_events n i es) cs"
    if on: "\<forall>j\<ge>i. started (ss j) = None" and fair: "weakly_fair (serves B T) (Task n ` E) es ss" for E
    unfolding task_events_def
  proof (rule task.fairness_simulated [OF weakly_fair_suffix [OF fair]])
    show "enabled (serves B T) (Task n ` E) (ss (i + j))" if "enabled (happens B T) E (cs j)" for j
      using task_enabled [OF cs(3)] on that by simp
  qed auto
  with that cs show thesis
    using task_reachable [OF execution_reached [OF assms(2,1)] assms(3)] by blast
qed

text \<open>What holds sooner or later of each connection alone holds of it in the program.\<close>

lemma served:
  assumes "serving B T (ss 0)" and "execution (serves B T) es ss" and "task_is n (ss i) c"
    and fair: "\<And>E. E \<in> classes \<Longrightarrow> weakly_fair (serves B T) (Task n ` E) es ss"
    and alone: "\<And>es cs. cs 0 = c \<Longrightarrow> reachable B T (cs 0) \<Longrightarrow> execution (happens B T) es cs \<Longrightarrow>
      (\<And>E. E \<in> classes \<Longrightarrow> weakly_fair (happens B T) E es cs) \<Longrightarrow> \<exists>j. Q (cs j)"
  shows "\<exists>j\<ge>i. started (ss j) \<noteq> None \<or> (\<exists>c'. task_is n (ss j) c' \<and> Q c')"
proof (cases "\<forall>j\<ge>i. started (ss j) = None")
  case True
  obtain cs where cs: "cs 0 = c" "reachable B T c" "execution (happens B T) (task_events n i es) cs"
    "\<And>j. task_is n (ss (i + j)) (cs j)"
    "\<And>E. weakly_fair (serves B T) (Task n ` E) es ss \<Longrightarrow> weakly_fair (happens B T) E (task_events n i es) cs"
    using connection_run [OF assms(1-3)] True by metis
  from alone [OF cs(1) _ cs(3)] cs(1,2,5) fair obtain j where "Q (cs j)" by metis
  with cs(4) show ?thesis by (meson le_add1)
qed blast

section \<open>What each connection gets\<close>

context proxy_laws
begin

theorem served_upstream:
  assumes "serving B T (ss 0)" and "execution (serves B T) es ss" and "task_is n (ss i) c"
    and "weakly_fair (serves B T) (Task n ` upstream_turns) es ss"
    and "weakly_fair (serves B T) (Task n ` p2b_writes) es ss"
  shows "\<exists>j\<ge>i. started (ss j) \<noteq> None \<or> (\<exists>c'. task_is n (ss j) c' \<and>
    (up_over c' \<or> arrived (requests_in B (from_client (upstream_conn c))) c'))"
proof (rule served [OF assms(1-3), of "{upstream_turns, p2b_writes}"])
  fix es cs
  assume cs: "cs 0 = c" "reachable B T (cs 0)" "execution (happens B T) es cs"
    "\<And>E. E \<in> {upstream_turns, p2b_writes} \<Longrightarrow> weakly_fair (happens B T) E es cs"
  then have "up_run B T es cs"
    using proxy_laws_axioms by (simp add: up_run_def up_run_axioms_def)
  from up_run.all_requests_arrive [OF this, of 0] cs(1)
  show "\<exists>j. up_over (cs j) \<or> arrived (requests_in B (from_client (upstream_conn c))) (cs j)" by auto
qed (use assms(4,5) in auto)

theorem served_downstream:
  assumes "serving B T (ss 0)" and "execution (serves B T) es ss" and "task_is n (ss i) c"
    and "weakly_fair (serves B T) (Task n ` b2p_turns) es ss"
    and "weakly_fair (serves B T) (Task n ` p2c_turns) es ss"
    and "weakly_fair (serves B T) (Task n ` p2c_writes) es ss"
  shows "\<exists>j\<ge>i. started (ss j) \<noteq> None \<or> (\<exists>c'. task_is n (ss j) c' \<and>
    (down_over c' \<or>
     prefix (from_backend (b2p_downstream_conn c)) (to_client (p2c_downstream_conn c'))))"
proof (rule served [OF assms(1-3), of "{b2p_turns, p2c_turns, p2c_writes}"])
  fix es cs
  assume cs: "cs 0 = c" "reachable B T (cs 0)" "execution (happens B T) es cs"
    "\<And>E. E \<in> {b2p_turns, p2c_turns, p2c_writes} \<Longrightarrow> weakly_fair (happens B T) E es cs"
  then have "down_run B T es cs"
    using proxy_laws_axioms by (simp add: down_run_def down_run_axioms_def)
  from down_run.all_bytes_arrive [OF this, of 0] cs(1)
  show "\<exists>j. down_over (cs j) \<or>
      prefix (from_backend (b2p_downstream_conn c)) (to_client (p2c_downstream_conn (cs j)))" by auto
qed (use assms(4-6) in auto)

theorem served_to_the_end:
  assumes "serving B T (ss 0)" and "execution (serves B T) es ss" and "task_is n (ss i) c"
    and "c2p_eof (upstream_conn c) \<and> weakly_fair (serves B T) (Task n ` upstream_turns) es ss \<and>
        weakly_fair (serves B T) (Task n ` p2b_writes) es ss \<or>
      b2p_eof (b2p_downstream_conn c) \<and> weakly_fair (serves B T) (Task n ` b2p_turns) es ss"
  shows "\<exists>j\<ge>i. started (ss j) \<noteq> None \<or> (\<exists>c'. task_is n (ss j) c' \<and> handled c' \<noteq> None)"
  using assms(4)
proof
  assume closed: "c2p_eof (upstream_conn c) \<and> weakly_fair (serves B T) (Task n ` upstream_turns) es ss \<and>
    weakly_fair (serves B T) (Task n ` p2b_writes) es ss"
  show ?thesis
  proof (rule served [OF assms(1-3), of "{upstream_turns, p2b_writes}"])
    fix es cs
    assume cs: "cs 0 = c" "reachable B T (cs 0)" "execution (happens B T) es cs"
      "\<And>E. E \<in> {upstream_turns, p2b_writes} \<Longrightarrow> weakly_fair (happens B T) E es cs"
    then have "up_run B T es cs"
      using proxy_laws_axioms by (simp add: up_run_def up_run_axioms_def)
    from up_run.client_closing_ends [OF this, of 0] cs(1) closed show "\<exists>j. handled (cs j) \<noteq> None" by auto
  qed (use closed in auto)
next
  assume closed: "b2p_eof (b2p_downstream_conn c) \<and> weakly_fair (serves B T) (Task n ` b2p_turns) es ss"
  show ?thesis
  proof (rule served [OF assms(1-3), of "{b2p_turns}"])
    fix es cs
    assume cs: "cs 0 = c" "reachable B T (cs 0)" "execution (happens B T) es cs"
      "\<And>E. E \<in> {b2p_turns} \<Longrightarrow> weakly_fair (happens B T) E es cs"
    from backend_closing_ends [OF cs(2,3), of 0] cs(1,4) closed show "\<exists>j. handled (cs j) \<noteq> None" by auto
  qed (use closed in auto)
qed

text \<open>A connection that is on at some moment was on before, and so was the accept loop.\<close>

lemma task_over_stays:
  assumes "serves B T ev s = Some s'" and "task_is n s c" and "up_over c"
  shows "\<exists>c'. task_is n s' c' \<and> up_over c'"
proof (cases "addressed n ev")
  case None
  then show ?thesis using task.unseen [OF assms(2,1)] assms(3) by blast
next
  case (Some f)
  then show ?thesis using task.seen [OF assms(2,1)] up_over_stays assms(3) by blast
qed

lemma served_before:
  assumes "execution (serves B T) es ss" and "i \<le> j"
    and "started (ss j) = None" and "task_is n (ss j) d" and "\<not> up_over d"
  shows "started (ss i) = None" and "task_is n (ss i) c \<Longrightarrow> \<not> up_over c"
proof -
  have stays: "started s' \<noteq> None" if "started s \<noteq> None" "serves B T ev s = Some s'" for ev s s'
    using that stopped by simp
  show "started (ss i) = None"
    using execution_related [OF assms(1,2), of "\<lambda>s s'. started s \<noteq> None \<longrightarrow> started s' \<noteq> None"]
      stays assms(3) by blast
  show "\<not> up_over c" if "task_is n (ss i) c"
    using execution_related [OF assms(1,2), of "\<lambda>s s'. \<forall>c. task_is n s c \<and> up_over c \<longrightarrow>
        (\<exists>c'. task_is n s' c' \<and> up_over c')"] task_over_stays assms(4,5) that task_functional by blast
qed

end

end
