(* ===== verification/Buffers.thy ===== *)
theory Buffers
  imports Request_Stream Down_Path
begin

text \<open>
  How much the proxy holds. Upstream it takes the next request only when the last one has been
  written, so it holds at most one frame, of bounded length, for the backend. Downstream nothing
  holds the backend back: the channel takes whatever arrives.
\<close>

section \<open>One frame for the backend\<close>

definition throttled :: "connection \<Rightarrow> bool" where
  "throttled s \<longleftrightarrow> (let u = upstream_conn s in \<not> p2b_broken u \<longrightarrow> p2b_buf u \<noteq> [] \<longrightarrow>
     forwarded u \<noteq> [] \<and> suffix (p2b_buf u) (packet_frame (last (forwarded u))))"

context proxy_laws
begin

lemma throttled_kept:
  assumes "throttled s" and "happens B T ev s = Some s'"
  shows "throttled s'"
  using assms(2)
proof (cases rule: happensE)
  case (upstream u r)
  show ?thesis
  proof (cases ev)
    case (UpstreamTurn takes)
    then have turn: "UpStreamConnection_pipe B T takes (upstream_conn s) = (u, r)" and
      here: "p2b_broken (upstream_conn s) \<or> takes \<and> p2b_buf (upstream_conn s) = []"
      using upstream(2) by (auto simp: upstream_happens_def split: if_splits)
    show ?thesis
      by (cases rule: upstream_turnE [of "upstream_conn s" takes])
        (use turn here upstream(3) in \<open>auto simp: throttled_def pass_on_def Let_def\<close>)
  next
    case (P2BWrites n)
    then show ?thesis
      using upstream assms(1)
      by (auto simp: upstream_happens_def throttled_def Let_def split: if_splits
          intro: suffix_order.trans [OF suffix_drop])
  qed (use upstream assms(1) in \<open>auto simp: upstream_happens_def throttled_def Let_def split: if_splits\<close>)
qed (use assms(1) in \<open>simp_all add: throttled_def\<close>)

end

sublocale proxy_laws \<subseteq> throttled: invariant accepted "happens B T" throttled
proof
  show "accepted s \<Longrightarrow> throttled s" for s by (simp add: new_conn_def new_upstream_def throttled_def)
qed (rule throttled_kept)

text \<open>The frames of a stream are within the limit, and what is read from one is hardly longer.\<close>

lemma split_frames_limit: "body \<in> set (split_frames src) \<Longrightarrow> length body \<le> 1048576"
proof (induction src rule: split_frames.induct)
  case (1 src)
  then show ?case
    by (subst (asm) split_frames.simps) (auto simp: Let_def split: if_splits)
qed

lemma read_frames_from: "x \<in> set (read_frames m bodies) \<Longrightarrow> \<exists>body \<in> set bodies. \<exists>left. m body = Inr (Some x, left)"
proof (induction bodies)
  case (Cons body bodies)
  show ?case
  proof (cases "\<exists>y left. m body = Inr (Some y, left)")
    case True
    then show ?thesis using Cons by auto
  next
    case False
    then have "read_frames m (body # bodies) = []"
      by (auto split: sum.split option.split)
    with Cons.prems show ?thesis by (simp only: list.set empty_iff)
  qed
qed simp

context bytes_laws
begin

lemma decoded_length:
  assumes "decode_inner B body = Inr (Some p, left)" and "length body \<le> 1048576"
  shows "length (jute_bytes (RequestPacket_jute p)) \<le> length body + 1"
proof (cases "request_header p")
  case (Some h)
  then show ?thesis using assms by (auto simp: decode_inner_iff)
next
  case None
  then obtain c where c: "request p = Request.Connect c" "ConnectRequest_deserialize B body = Inr (c, left)"
    using assms by (auto simp: decode_inner_iff)
  then have "length (jute_bytes (ConnectRequest_head c)) \<le> length body"
    by (auto simp: ConnectRequest_read_iff)
  then show ?thesis using None c(1) by (simp add: RequestPacket_jute_def ConnectRequest_jute_bytes)
qed

lemma request_frame_limit:
  assumes "p \<in> set (requests_in B src)"
  shows "length (packet_frame p) \<le> 4 + 1048577"
proof -
  obtain body left where "body \<in> set (split_frames src)" "decode_inner B body = Inr (Some p, left)"
    using read_frames_from assms unfolding requests_in_def by metis
  then have "length (jute_bytes (RequestPacket_jute p)) \<le> length body + 1" "length body \<le> 1048576"
    using decoded_length split_frames_limit by blast+
  then show ?thesis by (simp add: packet_frame_def Let_def)
qed

end

section \<open>No bound for the client\<close>

context proxy_laws
begin

lemma upstream_held:
  assumes "reachable B T s" and "\<not> p2b_broken (upstream_conn s)" and "p2b_buf (upstream_conn s) \<noteq> []"
  shows "suffix (p2b_buf (upstream_conn s)) (packet_frame (last (forwarded (upstream_conn s))))"
    and "length (p2b_buf (upstream_conn s)) \<le> 1048581"
proof -
  let ?u = "upstream_conn s"
  have some: "forwarded ?u \<noteq> []" and suffix: "suffix (p2b_buf ?u) (packet_frame (last (forwarded ?u)))"
    using throttled.always [OF assms(1)] assms(2,3) by (auto simp: throttled_def Let_def)
  show "suffix (p2b_buf ?u) (packet_frame (last (forwarded ?u)))" by (rule suffix)
  have "last (forwarded ?u) \<in> set (requests_in B (from_client ?u))"
    using set_mono_prefix [OF upstream_prefix [OF assms(1) refl]] last_in_set [OF some] by blast
  then show "length (p2b_buf ?u) \<le> 1048581"
    using request_frame_limit suffix_length_le [OF suffix] by force
qed

text \<open>The reader of the backend waits for nobody: what it has goes into the channel.\<close>

lemma reader_never_waits:
  assumes "handled s = None" and "b2p_buf (b2p_downstream_conn s) \<noteq> []"
  shows "\<exists>s' chunk. happens B T B2PTurn s = Some s' \<and> handled s' = None \<and> chunk \<noteq> [] \<and>
    channel s' = channel s @ [chunk] \<and>
    b2p_buf (b2p_downstream_conn s) = chunk @ b2p_buf (b2p_downstream_conn s')"
proof -
  from assms(2) obtain chunk left where
    "bytes_codec_decode T (b2p_buf (b2p_downstream_conn s)) = (Some chunk, left)"
    "chunk \<noteq> []" "chunk @ left = b2p_buf (b2p_downstream_conn s)" by (rule bytes_decode_Cons)
  then show ?thesis
    using assms(1)
    by (simp add: happens_def upstream_happens_def b2p_happens_def B2PDownStreamConnection_pipe_def)
qed

lemma held_exactly:
  assumes "reachable B T s" and "\<not> p2c_broken (p2c_downstream_conn s)"
  shows "length (p2c_buf (p2c_downstream_conn s)) + length (concat (channel s)) +
    length (b2p_buf (b2p_downstream_conn s)) + length (to_client (p2c_downstream_conn s)) =
    length (from_backend (b2p_downstream_conn s))"
proof -
  have "to_client (p2c_downstream_conn s) @ transit s = from_backend (b2p_downstream_conn s)"
    using down.always [OF assms(1)] assms(2) by (simp add: down_ok_def)
  from arg_cong [OF this, of length] show ?thesis by (simp add: transit_def)
qed

lemma downstream_held:
  assumes "handled s = None" and "\<not> b2p_eof (b2p_downstream_conn s)"
  shows "\<exists>evs s'. set evs \<subseteq> {BackendSends bs, B2PTurn} \<and> run B T evs s = Some s' \<and> handled s' = None \<and>
    p2c_downstream_conn s' = p2c_downstream_conn s \<and>
    concat (channel s') = concat (channel s) @ b2p_buf (b2p_downstream_conn s) @ bs"
proof -
  let ?b = "b2p_downstream_conn s"
  let ?s = "s\<lparr>b2p_downstream_conn := ?b\<lparr>b2p_buf := b2p_buf ?b @ bs, from_backend := from_backend ?b @ bs\<rparr>\<rparr>"
  have sent: "happens B T (BackendSends bs) s = Some ?s"
    using assms by (simp add: happens_def upstream_happens_def b2p_happens_def)
  obtain evs s' where "set evs \<subseteq> {B2PTurn}" "run B T evs ?s = Some s'" "handled s' = None"
    "p2c_downstream_conn s' = p2c_downstream_conn s"
    "concat (channel s') = concat (channel s) @ b2p_buf ?b @ bs"
    using b2p_drains [of ?s] assms(1) by (auto simp: leads_to_def)
  with sent show ?thesis
    by (intro exI [of _ "BackendSends bs # evs"] exI [of _ s']) auto
qed

end

end
