(* ===== verification/Framing_Examples.thy ===== *)
theory Framing_Examples
  imports Length_Codec
begin

text \<open>
  The examples in the module documentation of \<open>src/src/length_codec.rs\<close>: seven configurations of
  a reader and two of a writer. Each is shown for one frame with the payload \<open>Hello world\<close>; here
  each is stated for all payloads and heads, whatever follows the frame, in both byte orders and
  with any limit. The examples 2, 5, 6 and 7 and both of the writer are right. In the examples 1,
  3 and 4, which keep the head of the frame (\<open>num_skip(0)\<close>), the adjusted length is that of the
  payload, so as many bytes as the head has are missing at the end.
\<close>

section \<open>Codecs and frames\<close>

text \<open>
  A codec as the examples make it: \<open>builder().length_field_offset(..)\<close>, then the length of the
  field, by its type or as a number, the adjustment, and \<open>num_skip\<close> or nothing. They leave the
  byte order and the limit as they are by default; here these are set first.
\<close>

definition settings :: "bool \<Rightarrow> nat \<Rightarrow> Builder" where
  "settings big limit = Builder_max_frame_length limit
     ((if big then Builder_big_endian else Builder_little_endian) LengthDelimitedCodec_builder)"

definition example_codec ::
  "Builder \<Rightarrow> nat \<Rightarrow> (Builder \<Rightarrow> (Builder, io_error) result) \<Rightarrow> int \<Rightarrow> (Builder \<Rightarrow> Builder) \<Rightarrow>
    (LengthDelimitedCodec, io_error) result" where
  "example_codec b offset field adjustment skip =
     (case field (Builder_length_field_offset offset b) of
        Inl f \<Rightarrow> Inl f
      | Inr b' \<Rightarrow> Inr (Builder_new_codec (skip (Builder_length_adjustment adjustment b'))))"

lemma default_settings: "settings True 8388608 = LengthDelimitedCodec_builder"
  by (simp add: settings_def LengthDelimitedCodec_builder_def builder_defs)

text \<open>The number \<open>n\<close> in a field of \<open>k\<close> bytes.\<close>

definition number :: "bool \<Rightarrow> nat \<Rightarrow> nat \<Rightarrow> bytes" where
  "number big k n = (if big then be_bytes k n else rev (be_bytes k n))"

lemma length_number [simp]: "length (number big k n) = k"
  by (simp add: number_def)

lemma be_nat_number: "be_nat (if big then number big k n else rev (number big k n)) = n mod 256 ^ k"
  by (simp add: number_def be_nat_be_bytes)

text \<open>
  A buffer whose length field holds \<open>n\<close> is read as an item, with a rest, unless \<open>n\<close> is above the
  limit: then it is refused and nothing is consumed.
\<close>

definition decodes ::
  "bytes_crate \<Rightarrow> (LengthDelimitedCodec, io_error) result \<Rightarrow> nat \<Rightarrow> bytes \<Rightarrow> bytes \<Rightarrow> bytes \<Rightarrow> bool" where
  "decodes B codec n src item rest \<longleftrightarrow>
     (case codec of
        Inl f \<Rightarrow> False
      | Inr c \<Rightarrow> LengthDelimitedCodec_decode B c src =
          (if max_frame_length c < n then (Inl (Err (IoError InvalidData LengthDelimitedCodecError)), c, src)
           else (Inr (Some (item, length item)), c, rest)))"

definition encodes ::
  "bytes_crate \<Rightarrow> (LengthDelimitedCodec, io_error) result \<Rightarrow> bytes \<Rightarrow> bytes \<Rightarrow> bytes \<Rightarrow> bool" where
  "encodes B codec payload dst out \<longleftrightarrow>
     (case codec of
        Inl f \<Rightarrow> False
      | Inr c \<Rightarrow> LengthDelimitedCodec_encode B c payload dst =
          (if max_frame_length c < length payload
           then Inl (Err (IoError InvalidInput LengthDelimitedCodecError)) else Inr out))"

lemma example_codec_eq:
  "example_codec b offset (Builder_length_field_length k) adjustment skip =
    (if 0 < k \<and> k \<le> 8
     then Inr \<lparr>builder = skip (b\<lparr>length_field_offset := offset, length_field_len := k,
       length_adjustment := adjustment\<rparr>), state = Head\<rparr>
     else Inl (Panic AssertFailed))"
  "example_codec b offset (Builder_length_field_type T) adjustment skip =
    example_codec b offset (Builder_length_field_length (mem_size_of T)) adjustment skip"
  by (simp_all add: example_codec_def builder_defs Builder_new_codec_def)

lemma settings_eq:
  "settings big limit = \<lparr>max_frame_len = limit, length_field_len = 4, length_field_offset = 0,
     length_adjustment = 0, num_skip = None, length_field_is_big_endian = big\<rparr>"
  by (simp add: settings_def LengthDelimitedCodec_builder_def builder_defs)

section \<open>Reading\<close>

context bytes_laws
begin

text \<open>What a buffer is read as whose length field holds \<open>v\<close>, for every configuration.\<close>

lemma decodes_layout:
  assumes "codec_ok c" and "state c = Head"
    and "take (length_field_len (builder c)) (drop (length_field_offset (builder c)) src) =
      number (length_field_is_big_endian (builder c)) (length_field_len (builder c)) v"
    and "v < 256 ^ length_field_len (builder c)"
    and "num_head_bytes (builder c) \<le> length src" and "adjusted (builder c) v = Some n"
    and "drop (get_num_skip (builder c)) src = item @ rest" and "length item = n"
  shows "decodes B (Inr c) v src item rest"
proof -
  have "length_field (builder c) src = v"
    using assms(3,4) be_nat_number [of "length_field_is_big_endian (builder c)" "length_field_len (builder c)" v]
    by (simp add: length_field_def Let_def)
  then show ?thesis
    using assms(1,2,5-8) by (simp add: decodes_def decode_eq decode_payload_eq max_frame_length_def)
qed

lemmas layout_simps =
  example_codec_eq settings_eq Builder_num_skip_def codec_ok_def builder_ok_def num_head_bytes_def
  get_num_skip_def adjusted_def checked_add_def checked_sub_def

lemma right_examples:
  assumes "limit < 2 ^ 64"
  shows "length p < 2 ^ 16 \<Longrightarrow>
      decodes B (example_codec (settings big limit) 0 (Builder_length_field_type Field_u16) 0 id) (length p)
        (number big 2 (length p) @ p @ rest) p rest"
    and "length p < 2 ^ 16 \<Longrightarrow>
      decodes B (example_codec (settings big limit) 1 (Builder_length_field_type Field_u16) 1 (Builder_num_skip 3))
        (length p) ([hdr1] @ number big 2 (length p) @ [hdr2] @ p @ rest) ([hdr2] @ p) rest"
    and "length p + 4 < 2 ^ 16 \<Longrightarrow>
      decodes B (example_codec (settings big limit) 1 (Builder_length_field_type Field_u16) (- 3) (Builder_num_skip 3))
        (length p + 4) ([hdr1] @ number big 2 (length p + 4) @ [hdr2] @ p @ rest) ([hdr2] @ p) rest"
    and "length p < 2 ^ 24 \<Longrightarrow>
      decodes B (example_codec (settings big limit) 0 (Builder_length_field_length 3) 0 (Builder_num_skip 4))
        (length p) (number big 3 (length p) @ [unused] @ p @ rest) p rest"
  using assms
  by (simp_all add: example_codec_eq)
    ((rule decodes_layout [where n = "length p"]; simp add: layout_simps),
     (rule decodes_layout [where n = "length p + 1"]; simp add: layout_simps),
     (rule decodes_layout [where n = "length p + 1"]; simp add: layout_simps),
     (rule decodes_layout [where n = "length p"]; simp add: layout_simps))

text \<open>A reader that skips nothing yields the start of the frame, head included.\<close>

lemma decodes_whole:
  assumes "codec_ok c" and "state c = Head" and "length_field_offset (builder c) = 0"
    and "num_skip (builder c) = Some 0" and "length_field_len (builder c) \<le> length whole"
    and "take (length_field_len (builder c)) whole =
      number (length_field_is_big_endian (builder c)) (length_field_len (builder c)) v"
    and "v < 256 ^ length_field_len (builder c)" and "adjusted (builder c) v = Some n" and "n \<le> length whole"
  shows "decodes B (Inr c) v (whole @ rest) (take n whole) (drop n whole @ rest)"
proof (rule decodes_layout [OF assms(1,2) _ assms(7) _ assms(8)])
  show "drop (get_num_skip (builder c)) (whole @ rest) = take n whole @ drop n whole @ rest"
    using assms(4) by (simp add: get_num_skip_def)
qed (use assms in \<open>simp_all add: num_head_bytes_def\<close>)

lemma other_examples:
  assumes "limit < 2 ^ 64"
  shows "length p < 2 ^ 16 \<Longrightarrow> whole = number big 2 (length p) @ p \<Longrightarrow>
      decodes B (example_codec (settings big limit) 0 (Builder_length_field_type Field_u16) 0 (Builder_num_skip 0))
        (length p) (whole @ rest) (take (length p) whole) (drop (length p) whole @ rest)"
    and "length p + 2 < 2 ^ 16 \<Longrightarrow> whole = number big 2 (length p + 2) @ p \<Longrightarrow>
      decodes B (example_codec (settings big limit) 0 (Builder_length_field_type Field_u16) (- 2) (Builder_num_skip 0))
        (length p + 2) (whole @ rest) (take (length p) whole) (drop (length p) whole @ rest)"
    and "length p < 2 ^ 24 \<Longrightarrow> whole = number big 3 (length p) @ [hdr1, hdr2] @ p \<Longrightarrow>
      decodes B (example_codec (settings big limit) 0 (Builder_length_field_length 3) 2 (Builder_num_skip 0))
        (length p) (whole @ rest) (take (length p + 2) whole) (drop (length p + 2) whole @ rest)"
proof -
  let ?c = "\<lambda>k adjustment. \<lparr>builder = \<lparr>max_frame_len = limit, length_field_len = k, length_field_offset = 0,
      length_adjustment = adjustment, num_skip = Some 0, length_field_is_big_endian = big\<rparr>, state = Head\<rparr>"
  have codecs: "example_codec (settings big limit) 0 (Builder_length_field_type Field_u16) adjustment
      (Builder_num_skip 0) = Inr (?c 2 adjustment)"
    "example_codec (settings big limit) 0 (Builder_length_field_length 3) adjustment
      (Builder_num_skip 0) = Inr (?c 3 adjustment)" for adjustment
    by (simp_all add: layout_simps)
  note whole = decodes_whole [where c = "?c 2 0"] decodes_whole [where c = "?c 2 (- 2)"]
    decodes_whole [where c = "?c 3 2"]
  show "decodes B (example_codec (settings big limit) 0 (Builder_length_field_type Field_u16) 0 (Builder_num_skip 0))
      (length p) (whole @ rest) (take (length p) whole) (drop (length p) whole @ rest)"
    if "length p < 2 ^ 16" "whole = number big 2 (length p) @ p"
    unfolding codecs by (rule whole(1)) (use assms that in \<open>simp_all add: layout_simps\<close>)
  show "decodes B (example_codec (settings big limit) 0 (Builder_length_field_type Field_u16) (- 2) (Builder_num_skip 0))
      (length p + 2) (whole @ rest) (take (length p) whole) (drop (length p) whole @ rest)"
    if "length p + 2 < 2 ^ 16" "whole = number big 2 (length p + 2) @ p"
    unfolding codecs by (rule whole(2)) (use assms that in \<open>simp_all add: layout_simps\<close>)
  show "decodes B (example_codec (settings big limit) 0 (Builder_length_field_length 3) 2 (Builder_num_skip 0))
      (length p) (whole @ rest) (take (length p + 2) whole) (drop (length p + 2) whole @ rest)"
    if "length p < 2 ^ 24" "whole = number big 3 (length p) @ [hdr1, hdr2] @ p"
    unfolding codecs by (rule whole(3)) (use assms that in \<open>simp_all add: layout_simps\<close>)
qed

section \<open>Writing\<close>

lemma writer_examples:
  shows "encodes B (Inr LengthDelimitedCodec_new) p dst (dst @ number True 4 (length p) @ p)"
    and "limit < 2 ^ 64 \<Longrightarrow>
      encodes B (example_codec (settings big limit) 0 (Builder_length_field_type Field_u16) 0 id) p dst
        (dst @ number big 2 (length p) @ p)"
proof -
  have "codec_ok LengthDelimitedCodec_new"
    by (simp add: LengthDelimitedCodec_new_def Builder_new_def codec_ok_def builder_ok_def)
  then show "encodes B (Inr LengthDelimitedCodec_new) p dst (dst @ number True 4 (length p) @ p)"
    by (simp add: encodes_def encode_eq max_frame_length_def)
      (simp add: LengthDelimitedCodec_new_def Builder_new_def field_value_def frame_def checked_sub_def number_def)
  show "encodes B (example_codec (settings big limit) 0 (Builder_length_field_type Field_u16) 0 id) p dst
      (dst @ number big 2 (length p) @ p)" if "limit < 2 ^ 64"
    using that by (simp add: example_codec_eq settings_eq encodes_def encode_eq codec_ok_def builder_ok_def
        max_frame_length_def) (simp add: field_value_def frame_def checked_sub_def number_def)
qed

end

section \<open>The payload of the documentation\<close>

text \<open>The bytes of \<open>Hello world\<close>.\<close>

definition Hello_world :: bytes where
  "Hello_world = [72, 101, 108, 108, 111, 32, 119, 111, 114, 108, 100]"

end
