(* ===== verification/Proto_Txns.thy ===== *)
theory Proto_Txns
  imports Proto_Base
begin

text \<open>
  The structs of \<open>src/src/proto.rs\<close> for the traffic between ZooKeeper servers and for the
  transaction log. The proxy itself does not send them; they obey the same contract.
\<close>

section \<open>LearnerInfo\<close>

record LearnerInfo =
  serverid :: i64
  protocol_version :: i32
  config_version :: i64

definition LearnerInfo_jute :: "LearnerInfo \<Rightarrow> jute" where
  "LearnerInfo_jute x = JRecord [JLong (serverid x), JInt (protocol_version x),
     JLong (config_version x)]"

definition LearnerInfo_serialize_into :: "bytes_crate \<Rightarrow> LearnerInfo \<Rightarrow> ZkError serializer" where
  "LearnerInfo_serialize_into B self =
     seq (put_i64 B (serverid self))
    (seq (put_i32 B (protocol_version self))
    (seq (put_i64 B (config_version self))
     finish))"

definition LearnerInfo_size :: "LearnerInfo \<Rightarrow> nat" where
  "LearnerInfo_size self = 8 + 4 + 8"

definition LearnerInfo_deserialize :: "bytes_crate \<Rightarrow> (LearnerInfo, ZkError) deserializer" where
  "LearnerInfo_deserialize B =
     bind (get_i64 B) (\<lambda>serverid.
     bind (get_i32 B) (\<lambda>protocol_version.
     bind (get_i64 B) (\<lambda>config_version.
     Ok \<lparr>serverid = serverid, protocol_version = protocol_version,
       config_version = config_version\<rparr>)))"

sublocale bytes_laws \<subseteq> LearnerInfo: jute_record
    "LearnerInfo_serialize_into B" LearnerInfo_size LearnerInfo_jute "LearnerInfo_deserialize B"
  by (rule jute_recordI)
    (auto simp: codec LearnerInfo_jute_def LearnerInfo_serialize_into_def LearnerInfo_size_def LearnerInfo_deserialize_def
      bind_def intro!: faults split: sum.split_asm prod.split_asm)

section \<open>QuorumPacket\<close>

record QuorumPacket =
  r_type :: i32
  zxid :: i64
  data :: bytes
  authinfo :: "Id list"

definition QuorumPacket_jute :: "QuorumPacket \<Rightarrow> jute" where
  "QuorumPacket_jute x = JRecord [JInt (r_type x), JLong (zxid x), Bytes_jute (data x),
     Vec_jute Id_jute (authinfo x)]"

definition QuorumPacket_serialize_into :: "bytes_crate \<Rightarrow> QuorumPacket \<Rightarrow> ZkError serializer" where
  "QuorumPacket_serialize_into B self =
     seq (put_i32 B (r_type self))
    (seq (put_i64 B (zxid self))
    (seq (Bytes_serialize_into B (data self))
    (seq (put_i32 B (usize_as_i32 (length (authinfo self))))
    (seq (for_each (Id_serialize_into B) (authinfo self))
     finish))))"

definition QuorumPacket_size :: "QuorumPacket \<Rightarrow> nat" where
  "QuorumPacket_size self = 4 + 8 + Bytes_size (data self) + Vec_size Id_size (authinfo self)"

definition QuorumPacket_deserialize :: "bytes_crate \<Rightarrow> (QuorumPacket, ZkError) deserializer" where
  "QuorumPacket_deserialize B =
     bind (get_i32 B) (\<lambda>r_type.
     bind (get_i64 B) (\<lambda>zxid.
     bind (Bytes_deserialize B) (\<lambda>data.
     bind (Vec_deserialize B (Id_deserialize B)) (\<lambda>authinfo.
     Ok \<lparr>r_type = r_type, zxid = zxid, data = data, authinfo = authinfo\<rparr>))))"

sublocale bytes_laws \<subseteq> QuorumPacket: jute_record
    "QuorumPacket_serialize_into B" QuorumPacket_size QuorumPacket_jute "QuorumPacket_deserialize B"
  by (rule jute_recordI)
    (auto simp: codec QuorumPacket_jute_def QuorumPacket_serialize_into_def QuorumPacket_size_def QuorumPacket_deserialize_def
      bind_def intro!: faults split: sum.split_asm prod.split_asm)

section \<open>QuorumAuthPacket\<close>

record QuorumAuthPacket =
  magic :: i64
  status :: i32
  token :: bytes

definition QuorumAuthPacket_jute :: "QuorumAuthPacket \<Rightarrow> jute" where
  "QuorumAuthPacket_jute x = JRecord [JLong (magic x), JInt (status x), Bytes_jute (token x)]"

definition QuorumAuthPacket_serialize_into :: "bytes_crate \<Rightarrow> QuorumAuthPacket \<Rightarrow> ZkError serializer" where
  "QuorumAuthPacket_serialize_into B self =
     seq (put_i64 B (magic self))
    (seq (put_i32 B (status self))
    (seq (Bytes_serialize_into B (token self))
     finish))"

definition QuorumAuthPacket_size :: "QuorumAuthPacket \<Rightarrow> nat" where
  "QuorumAuthPacket_size self = 8 + 4 + Bytes_size (token self)"

definition QuorumAuthPacket_deserialize :: "bytes_crate \<Rightarrow> (QuorumAuthPacket, ZkError) deserializer" where
  "QuorumAuthPacket_deserialize B =
     bind (get_i64 B) (\<lambda>magic.
     bind (get_i32 B) (\<lambda>status.
     bind (Bytes_deserialize B) (\<lambda>token.
     Ok \<lparr>magic = magic, status = status, token = token\<rparr>)))"

sublocale bytes_laws \<subseteq> QuorumAuthPacket: jute_record
    "QuorumAuthPacket_serialize_into B" QuorumAuthPacket_size QuorumAuthPacket_jute "QuorumAuthPacket_deserialize B"
  by (rule jute_recordI)
    (auto simp: codec QuorumAuthPacket_jute_def QuorumAuthPacket_serialize_into_def QuorumAuthPacket_size_def QuorumAuthPacket_deserialize_def
      bind_def intro!: faults split: sum.split_asm prod.split_asm)

section \<open>FileHeader\<close>

record FileHeader =
  magic :: i32
  version :: i32
  dbid :: i64

definition FileHeader_jute :: "FileHeader \<Rightarrow> jute" where
  "FileHeader_jute x = JRecord [JInt (magic x), JInt (version x), JLong (dbid x)]"

definition FileHeader_serialize_into :: "bytes_crate \<Rightarrow> FileHeader \<Rightarrow> ZkError serializer" where
  "FileHeader_serialize_into B self =
     seq (put_i32 B (magic self))
    (seq (put_i32 B (version self))
    (seq (put_i64 B (dbid self))
     finish))"

definition FileHeader_size :: "FileHeader \<Rightarrow> nat" where
  "FileHeader_size self = 4 + 4 + 8"

definition FileHeader_deserialize :: "bytes_crate \<Rightarrow> (FileHeader, ZkError) deserializer" where
  "FileHeader_deserialize B =
     bind (get_i32 B) (\<lambda>magic.
     bind (get_i32 B) (\<lambda>version.
     bind (get_i64 B) (\<lambda>dbid.
     Ok \<lparr>magic = magic, version = version, dbid = dbid\<rparr>)))"

sublocale bytes_laws \<subseteq> FileHeader: jute_record
    "FileHeader_serialize_into B" FileHeader_size FileHeader_jute "FileHeader_deserialize B"
  by (rule jute_recordI)
    (auto simp: codec FileHeader_jute_def FileHeader_serialize_into_def FileHeader_size_def FileHeader_deserialize_def
      bind_def intro!: faults split: sum.split_asm prod.split_asm)

section \<open>TxnDigest\<close>

record TxnDigest =
  version :: i32
  tree_digest :: i64

definition TxnDigest_jute :: "TxnDigest \<Rightarrow> jute" where
  "TxnDigest_jute x = JRecord [JInt (version x), JLong (tree_digest x)]"

definition TxnDigest_serialize_into :: "bytes_crate \<Rightarrow> TxnDigest \<Rightarrow> ZkError serializer" where
  "TxnDigest_serialize_into B self =
     seq (put_i32 B (version self))
    (seq (put_i64 B (tree_digest self))
     finish)"

definition TxnDigest_size :: "TxnDigest \<Rightarrow> nat" where
  "TxnDigest_size self = 4 + 8"

definition TxnDigest_deserialize :: "bytes_crate \<Rightarrow> (TxnDigest, ZkError) deserializer" where
  "TxnDigest_deserialize B =
     bind (get_i32 B) (\<lambda>version.
     bind (get_i64 B) (\<lambda>tree_digest.
     Ok \<lparr>version = version, tree_digest = tree_digest\<rparr>))"

sublocale bytes_laws \<subseteq> TxnDigest: jute_record
    "TxnDigest_serialize_into B" TxnDigest_size TxnDigest_jute "TxnDigest_deserialize B"
  by (rule jute_recordI)
    (auto simp: codec TxnDigest_jute_def TxnDigest_serialize_into_def TxnDigest_size_def TxnDigest_deserialize_def
      bind_def intro!: faults split: sum.split_asm prod.split_asm)

section \<open>TxnHeader\<close>

record TxnHeader =
  client_id :: i64
  cxid :: i32
  zxid :: i64
  time :: i64
  r_type :: i32

definition TxnHeader_jute :: "TxnHeader \<Rightarrow> jute" where
  "TxnHeader_jute x = JRecord [JLong (client_id x), JInt (cxid x), JLong (zxid x),
     JLong (time x), JInt (r_type x)]"

definition TxnHeader_serialize_into :: "bytes_crate \<Rightarrow> TxnHeader \<Rightarrow> ZkError serializer" where
  "TxnHeader_serialize_into B self =
     seq (put_i64 B (client_id self))
    (seq (put_i32 B (cxid self))
    (seq (put_i64 B (zxid self))
    (seq (put_i64 B (time self))
    (seq (put_i32 B (r_type self))
     finish))))"

definition TxnHeader_size :: "TxnHeader \<Rightarrow> nat" where
  "TxnHeader_size self = 8 + 4 + 8 + 8 + 4"

definition TxnHeader_deserialize :: "bytes_crate \<Rightarrow> (TxnHeader, ZkError) deserializer" where
  "TxnHeader_deserialize B =
     bind (get_i64 B) (\<lambda>client_id.
     bind (get_i32 B) (\<lambda>cxid.
     bind (get_i64 B) (\<lambda>zxid.
     bind (get_i64 B) (\<lambda>time.
     bind (get_i32 B) (\<lambda>r_type.
     Ok \<lparr>client_id = client_id, cxid = cxid, zxid = zxid, time = time,
       r_type = r_type\<rparr>)))))"

sublocale bytes_laws \<subseteq> TxnHeader: jute_record
    "TxnHeader_serialize_into B" TxnHeader_size TxnHeader_jute "TxnHeader_deserialize B"
  by (rule jute_recordI)
    (auto simp: codec TxnHeader_jute_def TxnHeader_serialize_into_def TxnHeader_size_def TxnHeader_deserialize_def
      bind_def intro!: faults split: sum.split_asm prod.split_asm)

section \<open>CreateTxnV0\<close>

record CreateTxnV0 =
  path :: rust_string
  data :: bytes
  acl :: "ACL list"
  ephemeral :: u8

definition CreateTxnV0_jute :: "CreateTxnV0 \<Rightarrow> jute" where
  "CreateTxnV0_jute x = JRecord [String_jute (path x), Bytes_jute (data x),
     Vec_jute ACL_jute (acl x), JByte (ephemeral x)]"

definition CreateTxnV0_serialize_into :: "bytes_crate \<Rightarrow> CreateTxnV0 \<Rightarrow> ZkError serializer" where
  "CreateTxnV0_serialize_into B self =
     seq (String_serialize_into B (path self))
    (seq (Bytes_serialize_into B (data self))
    (seq (put_i32 B (usize_as_i32 (length (acl self))))
    (seq (for_each (ACL_serialize_into B) (acl self))
    (seq (put_u8 B (ephemeral self))
     finish))))"

definition CreateTxnV0_size :: "CreateTxnV0 \<Rightarrow> nat" where
  "CreateTxnV0_size self = String_size (path self) + Bytes_size (data self) +
     Vec_size ACL_size (acl self) + 1"

definition CreateTxnV0_deserialize :: "bytes_crate \<Rightarrow> (CreateTxnV0, ZkError) deserializer" where
  "CreateTxnV0_deserialize B =
     bind (String_deserialize B) (\<lambda>path.
     bind (Bytes_deserialize B) (\<lambda>data.
     bind (Vec_deserialize B (ACL_deserialize B)) (\<lambda>acl.
     bind (get_u8 B) (\<lambda>ephemeral.
     Ok \<lparr>path = path, data = data, acl = acl, ephemeral = ephemeral\<rparr>))))"

sublocale bytes_laws \<subseteq> CreateTxnV0: jute_record
    "CreateTxnV0_serialize_into B" CreateTxnV0_size CreateTxnV0_jute "CreateTxnV0_deserialize B"
  by (rule jute_recordI)
    (auto simp: codec CreateTxnV0_jute_def CreateTxnV0_serialize_into_def CreateTxnV0_size_def CreateTxnV0_deserialize_def
      bind_def intro!: faults split: sum.split_asm prod.split_asm)

section \<open>CreateTxn\<close>

record CreateTxn =
  path :: rust_string
  data :: bytes
  acl :: "ACL list"
  ephemeral :: u8
  parent_c_version :: i32

definition CreateTxn_jute :: "CreateTxn \<Rightarrow> jute" where
  "CreateTxn_jute x = JRecord [String_jute (path x), Bytes_jute (data x),
     Vec_jute ACL_jute (acl x), JByte (ephemeral x), JInt (parent_c_version x)]"

definition CreateTxn_serialize_into :: "bytes_crate \<Rightarrow> CreateTxn \<Rightarrow> ZkError serializer" where
  "CreateTxn_serialize_into B self =
     seq (String_serialize_into B (path self))
    (seq (Bytes_serialize_into B (data self))
    (seq (put_i32 B (usize_as_i32 (length (acl self))))
    (seq (for_each (ACL_serialize_into B) (acl self))
    (seq (put_u8 B (ephemeral self))
    (seq (put_i32 B (parent_c_version self))
     finish)))))"

definition CreateTxn_size :: "CreateTxn \<Rightarrow> nat" where
  "CreateTxn_size self = String_size (path self) + Bytes_size (data self) +
     Vec_size ACL_size (acl self) + 1 + 4"

definition CreateTxn_deserialize :: "bytes_crate \<Rightarrow> (CreateTxn, ZkError) deserializer" where
  "CreateTxn_deserialize B =
     bind (String_deserialize B) (\<lambda>path.
     bind (Bytes_deserialize B) (\<lambda>data.
     bind (Vec_deserialize B (ACL_deserialize B)) (\<lambda>acl.
     bind (get_u8 B) (\<lambda>ephemeral.
     bind (get_i32 B) (\<lambda>parent_c_version.
     Ok \<lparr>path = path, data = data, acl = acl, ephemeral = ephemeral,
       parent_c_version = parent_c_version\<rparr>)))))"

sublocale bytes_laws \<subseteq> CreateTxn: jute_record
    "CreateTxn_serialize_into B" CreateTxn_size CreateTxn_jute "CreateTxn_deserialize B"
  by (rule jute_recordI)
    (auto simp: codec CreateTxn_jute_def CreateTxn_serialize_into_def CreateTxn_size_def CreateTxn_deserialize_def
      bind_def intro!: faults split: sum.split_asm prod.split_asm)

section \<open>CreateTTLTxn\<close>

record CreateTTLTxn =
  path :: rust_string
  data :: bytes
  acl :: "ACL list"
  parent_c_version :: i32
  ttl :: i64

definition CreateTTLTxn_jute :: "CreateTTLTxn \<Rightarrow> jute" where
  "CreateTTLTxn_jute x = JRecord [String_jute (path x), Bytes_jute (data x),
     Vec_jute ACL_jute (acl x), JInt (parent_c_version x), JLong (ttl x)]"

definition CreateTTLTxn_serialize_into :: "bytes_crate \<Rightarrow> CreateTTLTxn \<Rightarrow> ZkError serializer" where
  "CreateTTLTxn_serialize_into B self =
     seq (String_serialize_into B (path self))
    (seq (Bytes_serialize_into B (data self))
    (seq (put_i32 B (usize_as_i32 (length (acl self))))
    (seq (for_each (ACL_serialize_into B) (acl self))
    (seq (put_i32 B (parent_c_version self))
    (seq (put_i64 B (ttl self))
     finish)))))"

definition CreateTTLTxn_size :: "CreateTTLTxn \<Rightarrow> nat" where
  "CreateTTLTxn_size self = String_size (path self) + Bytes_size (data self) +
     Vec_size ACL_size (acl self) + 4 + 8"

definition CreateTTLTxn_deserialize :: "bytes_crate \<Rightarrow> (CreateTTLTxn, ZkError) deserializer" where
  "CreateTTLTxn_deserialize B =
     bind (String_deserialize B) (\<lambda>path.
     bind (Bytes_deserialize B) (\<lambda>data.
     bind (Vec_deserialize B (ACL_deserialize B)) (\<lambda>acl.
     bind (get_i32 B) (\<lambda>parent_c_version.
     bind (get_i64 B) (\<lambda>ttl.
     Ok \<lparr>path = path, data = data, acl = acl, parent_c_version = parent_c_version,
       ttl = ttl\<rparr>)))))"

sublocale bytes_laws \<subseteq> CreateTTLTxn: jute_record
    "CreateTTLTxn_serialize_into B" CreateTTLTxn_size CreateTTLTxn_jute "CreateTTLTxn_deserialize B"
  by (rule jute_recordI)
    (auto simp: codec CreateTTLTxn_jute_def CreateTTLTxn_serialize_into_def CreateTTLTxn_size_def CreateTTLTxn_deserialize_def
      bind_def intro!: faults split: sum.split_asm prod.split_asm)

section \<open>CreateContainerTxn\<close>

record CreateContainerTxn =
  path :: rust_string
  data :: bytes
  acl :: "ACL list"
  parent_c_version :: i32

definition CreateContainerTxn_jute :: "CreateContainerTxn \<Rightarrow> jute" where
  "CreateContainerTxn_jute x = JRecord [String_jute (path x), Bytes_jute (data x),
     Vec_jute ACL_jute (acl x), JInt (parent_c_version x)]"

definition CreateContainerTxn_serialize_into :: "bytes_crate \<Rightarrow> CreateContainerTxn \<Rightarrow> ZkError serializer" where
  "CreateContainerTxn_serialize_into B self =
     seq (String_serialize_into B (path self))
    (seq (Bytes_serialize_into B (data self))
    (seq (put_i32 B (usize_as_i32 (length (acl self))))
    (seq (for_each (ACL_serialize_into B) (acl self))
    (seq (put_i32 B (parent_c_version self))
     finish))))"

definition CreateContainerTxn_size :: "CreateContainerTxn \<Rightarrow> nat" where
  "CreateContainerTxn_size self = String_size (path self) + Bytes_size (data self) +
     Vec_size ACL_size (acl self) + 4"

definition CreateContainerTxn_deserialize :: "bytes_crate \<Rightarrow> (CreateContainerTxn, ZkError) deserializer" where
  "CreateContainerTxn_deserialize B =
     bind (String_deserialize B) (\<lambda>path.
     bind (Bytes_deserialize B) (\<lambda>data.
     bind (Vec_deserialize B (ACL_deserialize B)) (\<lambda>acl.
     bind (get_i32 B) (\<lambda>parent_c_version.
     Ok \<lparr>path = path, data = data, acl = acl,
       parent_c_version = parent_c_version\<rparr>))))"

sublocale bytes_laws \<subseteq> CreateContainerTxn: jute_record
    "CreateContainerTxn_serialize_into B" CreateContainerTxn_size CreateContainerTxn_jute "CreateContainerTxn_deserialize B"
  by (rule jute_recordI)
    (auto simp: codec CreateContainerTxn_jute_def CreateContainerTxn_serialize_into_def CreateContainerTxn_size_def CreateContainerTxn_deserialize_def
      bind_def intro!: faults split: sum.split_asm prod.split_asm)

section \<open>DeleteTxn\<close>

record DeleteTxn =
  path :: rust_string

definition DeleteTxn_jute :: "DeleteTxn \<Rightarrow> jute" where
  "DeleteTxn_jute x = JRecord [String_jute (path x)]"

definition DeleteTxn_serialize_into :: "bytes_crate \<Rightarrow> DeleteTxn \<Rightarrow> ZkError serializer" where
  "DeleteTxn_serialize_into B self =
     seq (String_serialize_into B (path self))
     finish"

definition DeleteTxn_size :: "DeleteTxn \<Rightarrow> nat" where
  "DeleteTxn_size self = String_size (path self)"

definition DeleteTxn_deserialize :: "bytes_crate \<Rightarrow> (DeleteTxn, ZkError) deserializer" where
  "DeleteTxn_deserialize B =
     bind (String_deserialize B) (\<lambda>path.
     Ok \<lparr>path = path\<rparr>)"

sublocale bytes_laws \<subseteq> DeleteTxn: jute_record
    "DeleteTxn_serialize_into B" DeleteTxn_size DeleteTxn_jute "DeleteTxn_deserialize B"
  by (rule jute_recordI)
    (auto simp: codec DeleteTxn_jute_def DeleteTxn_serialize_into_def DeleteTxn_size_def DeleteTxn_deserialize_def
      bind_def intro!: faults split: sum.split_asm prod.split_asm)

section \<open>SetDataTxn\<close>

record SetDataTxn =
  path :: rust_string
  data :: bytes
  version :: i32

definition SetDataTxn_jute :: "SetDataTxn \<Rightarrow> jute" where
  "SetDataTxn_jute x = JRecord [String_jute (path x), Bytes_jute (data x), JInt (version x)]"

definition SetDataTxn_serialize_into :: "bytes_crate \<Rightarrow> SetDataTxn \<Rightarrow> ZkError serializer" where
  "SetDataTxn_serialize_into B self =
     seq (String_serialize_into B (path self))
    (seq (Bytes_serialize_into B (data self))
    (seq (put_i32 B (version self))
     finish))"

definition SetDataTxn_size :: "SetDataTxn \<Rightarrow> nat" where
  "SetDataTxn_size self = String_size (path self) + Bytes_size (data self) + 4"

definition SetDataTxn_deserialize :: "bytes_crate \<Rightarrow> (SetDataTxn, ZkError) deserializer" where
  "SetDataTxn_deserialize B =
     bind (String_deserialize B) (\<lambda>path.
     bind (Bytes_deserialize B) (\<lambda>data.
     bind (get_i32 B) (\<lambda>version.
     Ok \<lparr>path = path, data = data, version = version\<rparr>)))"

sublocale bytes_laws \<subseteq> SetDataTxn: jute_record
    "SetDataTxn_serialize_into B" SetDataTxn_size SetDataTxn_jute "SetDataTxn_deserialize B"
  by (rule jute_recordI)
    (auto simp: codec SetDataTxn_jute_def SetDataTxn_serialize_into_def SetDataTxn_size_def SetDataTxn_deserialize_def
      bind_def intro!: faults split: sum.split_asm prod.split_asm)

section \<open>CheckVersionTxn\<close>

record CheckVersionTxn =
  path :: rust_string
  version :: i32

definition CheckVersionTxn_jute :: "CheckVersionTxn \<Rightarrow> jute" where
  "CheckVersionTxn_jute x = JRecord [String_jute (path x), JInt (version x)]"

definition CheckVersionTxn_serialize_into :: "bytes_crate \<Rightarrow> CheckVersionTxn \<Rightarrow> ZkError serializer" where
  "CheckVersionTxn_serialize_into B self =
     seq (String_serialize_into B (path self))
    (seq (put_i32 B (version self))
     finish)"

definition CheckVersionTxn_size :: "CheckVersionTxn \<Rightarrow> nat" where
  "CheckVersionTxn_size self = String_size (path self) + 4"

definition CheckVersionTxn_deserialize :: "bytes_crate \<Rightarrow> (CheckVersionTxn, ZkError) deserializer" where
  "CheckVersionTxn_deserialize B =
     bind (String_deserialize B) (\<lambda>path.
     bind (get_i32 B) (\<lambda>version.
     Ok \<lparr>path = path, version = version\<rparr>))"

sublocale bytes_laws \<subseteq> CheckVersionTxn: jute_record
    "CheckVersionTxn_serialize_into B" CheckVersionTxn_size CheckVersionTxn_jute "CheckVersionTxn_deserialize B"
  by (rule jute_recordI)
    (auto simp: codec CheckVersionTxn_jute_def CheckVersionTxn_serialize_into_def CheckVersionTxn_size_def CheckVersionTxn_deserialize_def
      bind_def intro!: faults split: sum.split_asm prod.split_asm)

section \<open>SetACLTxn\<close>

record SetACLTxn =
  path :: rust_string
  acl :: "ACL list"
  version :: i32

definition SetACLTxn_jute :: "SetACLTxn \<Rightarrow> jute" where
  "SetACLTxn_jute x = JRecord [String_jute (path x), Vec_jute ACL_jute (acl x), JInt (version x)]"

definition SetACLTxn_serialize_into :: "bytes_crate \<Rightarrow> SetACLTxn \<Rightarrow> ZkError serializer" where
  "SetACLTxn_serialize_into B self =
     seq (String_serialize_into B (path self))
    (seq (put_i32 B (usize_as_i32 (length (acl self))))
    (seq (for_each (ACL_serialize_into B) (acl self))
    (seq (put_i32 B (version self))
     finish)))"

definition SetACLTxn_size :: "SetACLTxn \<Rightarrow> nat" where
  "SetACLTxn_size self = String_size (path self) + Vec_size ACL_size (acl self) + 4"

definition SetACLTxn_deserialize :: "bytes_crate \<Rightarrow> (SetACLTxn, ZkError) deserializer" where
  "SetACLTxn_deserialize B =
     bind (String_deserialize B) (\<lambda>path.
     bind (Vec_deserialize B (ACL_deserialize B)) (\<lambda>acl.
     bind (get_i32 B) (\<lambda>version.
     Ok \<lparr>path = path, acl = acl, version = version\<rparr>)))"

sublocale bytes_laws \<subseteq> SetACLTxn: jute_record
    "SetACLTxn_serialize_into B" SetACLTxn_size SetACLTxn_jute "SetACLTxn_deserialize B"
  by (rule jute_recordI)
    (auto simp: codec SetACLTxn_jute_def SetACLTxn_serialize_into_def SetACLTxn_size_def SetACLTxn_deserialize_def
      bind_def intro!: faults split: sum.split_asm prod.split_asm)

section \<open>SetMaxChildrenTxn\<close>

record SetMaxChildrenTxn =
  path :: rust_string
  max_f :: i32

definition SetMaxChildrenTxn_jute :: "SetMaxChildrenTxn \<Rightarrow> jute" where
  "SetMaxChildrenTxn_jute x = JRecord [String_jute (path x), JInt (max_f x)]"

definition SetMaxChildrenTxn_serialize_into :: "bytes_crate \<Rightarrow> SetMaxChildrenTxn \<Rightarrow> ZkError serializer" where
  "SetMaxChildrenTxn_serialize_into B self =
     seq (String_serialize_into B (path self))
    (seq (put_i32 B (max_f self))
     finish)"

definition SetMaxChildrenTxn_size :: "SetMaxChildrenTxn \<Rightarrow> nat" where
  "SetMaxChildrenTxn_size self = String_size (path self) + 4"

definition SetMaxChildrenTxn_deserialize :: "bytes_crate \<Rightarrow> (SetMaxChildrenTxn, ZkError) deserializer" where
  "SetMaxChildrenTxn_deserialize B =
     bind (String_deserialize B) (\<lambda>path.
     bind (get_i32 B) (\<lambda>max_f.
     Ok \<lparr>path = path, max_f = max_f\<rparr>))"

sublocale bytes_laws \<subseteq> SetMaxChildrenTxn: jute_record
    "SetMaxChildrenTxn_serialize_into B" SetMaxChildrenTxn_size SetMaxChildrenTxn_jute "SetMaxChildrenTxn_deserialize B"
  by (rule jute_recordI)
    (auto simp: codec SetMaxChildrenTxn_jute_def SetMaxChildrenTxn_serialize_into_def SetMaxChildrenTxn_size_def SetMaxChildrenTxn_deserialize_def
      bind_def intro!: faults split: sum.split_asm prod.split_asm)

section \<open>CreateSessionTxn\<close>

record CreateSessionTxn =
  time_out :: i32

definition CreateSessionTxn_jute :: "CreateSessionTxn \<Rightarrow> jute" where
  "CreateSessionTxn_jute x = JRecord [JInt (time_out x)]"

definition CreateSessionTxn_serialize_into :: "bytes_crate \<Rightarrow> CreateSessionTxn \<Rightarrow> ZkError serializer" where
  "CreateSessionTxn_serialize_into B self =
     seq (put_i32 B (time_out self))
     finish"

definition CreateSessionTxn_size :: "CreateSessionTxn \<Rightarrow> nat" where
  "CreateSessionTxn_size self = 4"

definition CreateSessionTxn_deserialize :: "bytes_crate \<Rightarrow> (CreateSessionTxn, ZkError) deserializer" where
  "CreateSessionTxn_deserialize B =
     bind (get_i32 B) (\<lambda>time_out.
     Ok \<lparr>time_out = time_out\<rparr>)"

sublocale bytes_laws \<subseteq> CreateSessionTxn: jute_record
    "CreateSessionTxn_serialize_into B" CreateSessionTxn_size CreateSessionTxn_jute "CreateSessionTxn_deserialize B"
  by (rule jute_recordI)
    (auto simp: codec CreateSessionTxn_jute_def CreateSessionTxn_serialize_into_def CreateSessionTxn_size_def CreateSessionTxn_deserialize_def
      bind_def intro!: faults split: sum.split_asm prod.split_asm)

section \<open>CloseSessionTxn\<close>

record CloseSessionTxn =
  paths2_delete :: "rust_string list"

definition CloseSessionTxn_jute :: "CloseSessionTxn \<Rightarrow> jute" where
  "CloseSessionTxn_jute x = JRecord [Vec_jute String_jute (paths2_delete x)]"

definition CloseSessionTxn_serialize_into :: "bytes_crate \<Rightarrow> CloseSessionTxn \<Rightarrow> ZkError serializer" where
  "CloseSessionTxn_serialize_into B self =
     seq (Vec_serialize_into B (String_serialize_into B) (paths2_delete self))
     finish"

definition CloseSessionTxn_size :: "CloseSessionTxn \<Rightarrow> nat" where
  "CloseSessionTxn_size self = Vec_size String_size (paths2_delete self)"

definition CloseSessionTxn_deserialize :: "bytes_crate \<Rightarrow> (CloseSessionTxn, ZkError) deserializer" where
  "CloseSessionTxn_deserialize B =
     bind (Vec_deserialize B (String_deserialize B)) (\<lambda>paths2_delete.
     Ok \<lparr>paths2_delete = paths2_delete\<rparr>)"

sublocale bytes_laws \<subseteq> CloseSessionTxn: jute_record
    "CloseSessionTxn_serialize_into B" CloseSessionTxn_size CloseSessionTxn_jute "CloseSessionTxn_deserialize B"
  by (rule jute_recordI)
    (auto simp: codec CloseSessionTxn_jute_def CloseSessionTxn_serialize_into_def CloseSessionTxn_size_def CloseSessionTxn_deserialize_def
      bind_def intro!: faults split: sum.split_asm prod.split_asm)

section \<open>ErrorTxn\<close>

record ErrorTxn =
  err :: i32

definition ErrorTxn_jute :: "ErrorTxn \<Rightarrow> jute" where
  "ErrorTxn_jute x = JRecord [JInt (err x)]"

definition ErrorTxn_serialize_into :: "bytes_crate \<Rightarrow> ErrorTxn \<Rightarrow> ZkError serializer" where
  "ErrorTxn_serialize_into B self =
     seq (put_i32 B (err self))
     finish"

definition ErrorTxn_size :: "ErrorTxn \<Rightarrow> nat" where
  "ErrorTxn_size self = 4"

definition ErrorTxn_deserialize :: "bytes_crate \<Rightarrow> (ErrorTxn, ZkError) deserializer" where
  "ErrorTxn_deserialize B =
     bind (get_i32 B) (\<lambda>err.
     Ok \<lparr>err = err\<rparr>)"

sublocale bytes_laws \<subseteq> ErrorTxn: jute_record
    "ErrorTxn_serialize_into B" ErrorTxn_size ErrorTxn_jute "ErrorTxn_deserialize B"
  by (rule jute_recordI)
    (auto simp: codec ErrorTxn_jute_def ErrorTxn_serialize_into_def ErrorTxn_size_def ErrorTxn_deserialize_def
      bind_def intro!: faults split: sum.split_asm prod.split_asm)

section \<open>Txn\<close>

record Txn =
  r_type :: i32
  data :: bytes

definition Txn_jute :: "Txn \<Rightarrow> jute" where
  "Txn_jute x = JRecord [JInt (r_type x), Bytes_jute (data x)]"

definition Txn_serialize_into :: "bytes_crate \<Rightarrow> Txn \<Rightarrow> ZkError serializer" where
  "Txn_serialize_into B self =
     seq (put_i32 B (r_type self))
    (seq (Bytes_serialize_into B (data self))
     finish)"

definition Txn_size :: "Txn \<Rightarrow> nat" where
  "Txn_size self = 4 + Bytes_size (data self)"

definition Txn_deserialize :: "bytes_crate \<Rightarrow> (Txn, ZkError) deserializer" where
  "Txn_deserialize B =
     bind (get_i32 B) (\<lambda>r_type.
     bind (Bytes_deserialize B) (\<lambda>data.
     Ok \<lparr>r_type = r_type, data = data\<rparr>))"

sublocale bytes_laws \<subseteq> Txn: jute_record
    "Txn_serialize_into B" Txn_size Txn_jute "Txn_deserialize B"
  by (rule jute_recordI)
    (auto simp: codec Txn_jute_def Txn_serialize_into_def Txn_size_def Txn_deserialize_def
      bind_def intro!: faults split: sum.split_asm prod.split_asm)

sublocale bytes_laws \<subseteq> Txns: jute_record
    "Vec_serialize_into B (Txn_serialize_into B)" "Vec_size Txn_size" "Vec_jute Txn_jute"
    "Vec_deserialize B (Txn_deserialize B)"
  by (rule Vec_record) (rule Txn.jute_record_axioms)

context bytes_laws
begin

lemmas Txns_read [codec] = Vec_read [OF Txn.jute_record_axioms]

end

section \<open>MultiTxn\<close>

record MultiTxn =
  txns :: "Txn list"

definition MultiTxn_jute :: "MultiTxn \<Rightarrow> jute" where
  "MultiTxn_jute x = JRecord [Vec_jute Txn_jute (txns x)]"

definition MultiTxn_serialize_into :: "bytes_crate \<Rightarrow> MultiTxn \<Rightarrow> ZkError serializer" where
  "MultiTxn_serialize_into B self =
     seq (put_i32 B (usize_as_i32 (length (txns self))))
    (seq (for_each (Txn_serialize_into B) (txns self))
     finish)"

definition MultiTxn_size :: "MultiTxn \<Rightarrow> nat" where
  "MultiTxn_size self = Vec_size Txn_size (txns self)"

definition MultiTxn_deserialize :: "bytes_crate \<Rightarrow> (MultiTxn, ZkError) deserializer" where
  "MultiTxn_deserialize B =
     bind (Vec_deserialize B (Txn_deserialize B)) (\<lambda>txns.
     Ok \<lparr>txns = txns\<rparr>)"

sublocale bytes_laws \<subseteq> MultiTxn: jute_record
    "MultiTxn_serialize_into B" MultiTxn_size MultiTxn_jute "MultiTxn_deserialize B"
  by (rule jute_recordI)
    (auto simp: codec MultiTxn_jute_def MultiTxn_serialize_into_def MultiTxn_size_def MultiTxn_deserialize_def
      bind_def intro!: faults split: sum.split_asm prod.split_asm)

section \<open>All of them\<close>

context bytes_laws
begin

lemma txn_structs_hold:
  "jute_record (LearnerInfo_serialize_into B) LearnerInfo_size LearnerInfo_jute (LearnerInfo_deserialize B) \<and>
     jute_record (QuorumPacket_serialize_into B) QuorumPacket_size QuorumPacket_jute (QuorumPacket_deserialize B) \<and>
     jute_record (QuorumAuthPacket_serialize_into B) QuorumAuthPacket_size QuorumAuthPacket_jute (QuorumAuthPacket_deserialize B) \<and>
     jute_record (FileHeader_serialize_into B) FileHeader_size FileHeader_jute (FileHeader_deserialize B) \<and>
     jute_record (TxnDigest_serialize_into B) TxnDigest_size TxnDigest_jute (TxnDigest_deserialize B) \<and>
     jute_record (TxnHeader_serialize_into B) TxnHeader_size TxnHeader_jute (TxnHeader_deserialize B) \<and>
     jute_record (CreateTxnV0_serialize_into B) CreateTxnV0_size CreateTxnV0_jute (CreateTxnV0_deserialize B) \<and>
     jute_record (CreateTxn_serialize_into B) CreateTxn_size CreateTxn_jute (CreateTxn_deserialize B) \<and>
     jute_record (CreateTTLTxn_serialize_into B) CreateTTLTxn_size CreateTTLTxn_jute (CreateTTLTxn_deserialize B) \<and>
     jute_record (CreateContainerTxn_serialize_into B) CreateContainerTxn_size CreateContainerTxn_jute (CreateContainerTxn_deserialize B) \<and>
     jute_record (DeleteTxn_serialize_into B) DeleteTxn_size DeleteTxn_jute (DeleteTxn_deserialize B) \<and>
     jute_record (SetDataTxn_serialize_into B) SetDataTxn_size SetDataTxn_jute (SetDataTxn_deserialize B) \<and>
     jute_record (CheckVersionTxn_serialize_into B) CheckVersionTxn_size CheckVersionTxn_jute (CheckVersionTxn_deserialize B) \<and>
     jute_record (SetACLTxn_serialize_into B) SetACLTxn_size SetACLTxn_jute (SetACLTxn_deserialize B) \<and>
     jute_record (SetMaxChildrenTxn_serialize_into B) SetMaxChildrenTxn_size SetMaxChildrenTxn_jute (SetMaxChildrenTxn_deserialize B) \<and>
     jute_record (CreateSessionTxn_serialize_into B) CreateSessionTxn_size CreateSessionTxn_jute (CreateSessionTxn_deserialize B) \<and>
     jute_record (CloseSessionTxn_serialize_into B) CloseSessionTxn_size CloseSessionTxn_jute (CloseSessionTxn_deserialize B) \<and>
     jute_record (ErrorTxn_serialize_into B) ErrorTxn_size ErrorTxn_jute (ErrorTxn_deserialize B) \<and>
     jute_record (Txn_serialize_into B) Txn_size Txn_jute (Txn_deserialize B) \<and>
     jute_record (Vec_serialize_into B (Txn_serialize_into B)) (Vec_size Txn_size) (Vec_jute Txn_jute) (Vec_deserialize B (Txn_deserialize B)) \<and>
     jute_record (MultiTxn_serialize_into B) MultiTxn_size MultiTxn_jute (MultiTxn_deserialize B)"
  by (intro conjI)
    (rule
    LearnerInfo.jute_record_axioms QuorumPacket.jute_record_axioms
    QuorumAuthPacket.jute_record_axioms FileHeader.jute_record_axioms
    TxnDigest.jute_record_axioms TxnHeader.jute_record_axioms CreateTxnV0.jute_record_axioms
    CreateTxn.jute_record_axioms CreateTTLTxn.jute_record_axioms
    CreateContainerTxn.jute_record_axioms DeleteTxn.jute_record_axioms
    SetDataTxn.jute_record_axioms CheckVersionTxn.jute_record_axioms
    SetACLTxn.jute_record_axioms SetMaxChildrenTxn.jute_record_axioms
    CreateSessionTxn.jute_record_axioms CloseSessionTxn.jute_record_axioms
    ErrorTxn.jute_record_axioms Txn.jute_record_axioms Txns.jute_record_axioms
    MultiTxn.jute_record_axioms)+

end

end
