(* ===== verification/Spec2Isabelle.thy ===== *)
theory Spec2Isabelle
  imports Fair_Serving Buffers Framing_Examples Proto_Txns
begin

text \<open>
  Verification of \<open>zksrv\<close>, a proxy for ZooKeeper written in Rust (\<open>src/src/\<close>).

  \<^bold>\<open>The program.\<close> \<open>main.rs\<close> starts \<open>ZkServer\<close>, which accepts clients and gives each its own
  connection to the backend. Requests are decoded frame by frame and encoded again on the way
  to the backend; replies go back as raw bytes through a channel. The parts, from the bottom:

  \<^item> \<open>proto.rs\<close>, \<open>record.rs\<close>: 72 message structs with hand-written \<open>serialize_into\<close>, \<open>size\<close> and
    \<open>deserialize\<close>;
  \<^item> \<open>constants.rs\<close>, \<open>zk_errcode.rs\<close>, \<open>errors.rs\<close>: opcodes, error codes and the error type;
  \<^item> \<open>length_codec.rs\<close>: the length-delimited framing, a configurable two-state decoder;
  \<^item> \<open>codec.rs\<close>: the enums of requests and replies, transactions, and the codecs
    \<open>ServerPacketCodec\<close> (towards the client) and \<open>ClientPacketCodec\<close> (towards the backend), which
    sit on the framing and, the latter, on a table from transaction ids to opcodes;
  \<^item> \<open>server.rs\<close>: the three loops of a connection, which meet in \<open>select!\<close> and in a channel, and
    the accept loop, which gives each client a task of its own.

  \<^bold>\<open>The theories.\<close> Each definition carries the name of the Rust item it translates
  (\<open>Stat::size\<close> is \<open>Stat_size\<close>).

  \<^item> \<open>Prelude\<close>: bytes and words, outcomes of a call, the \<open>?\<close> operator (\<open>bind\<close>, \<open>seq\<close>), loops,
    big-endian integers; the collections \<open>codec\<close>, \<open>faults\<close> and \<open>evaluate\<close>.
  \<^item> \<open>Rust_Std\<close>: casts, checked arithmetic, the capacity limit and UTF-8 of the standard library.
  \<^item> \<open>Bytes_Api\<close>: the crate \<open>bytes\<close> is not part of the sources, so its operations are fields of
    a record \<open>B\<close> that all definitions take; the locale \<open>bytes_laws\<close> has its documented
    behaviour, \<open>std_bytes\<close> is an instance that computes.
  \<^item> \<open>Errors\<close>, \<open>Constants\<close>: the error type and the numeric codes.
  \<^item> \<open>Jute\<close>: the wire format as a datatype, and the contracts of the traits as the locales
    \<open>jute_serializer\<close>, \<open>jute_message\<close> and \<open>jute_record\<close>, with round trip, exact size,
    unique readability and no confusion of truncated messages proved once.
  \<^item> \<open>Proto_Base\<close>, \<open>Proto_Session\<close>, \<open>Proto_Requests\<close>, \<open>Proto_Responses\<close>, \<open>Proto_Txns\<close>: the
    structs; each is shown to meet the contract by a \<open>sublocale\<close> of \<open>bytes_laws\<close>, which the
    interpretation \<open>std\<close> instantiates.
  \<^item> \<open>Decoder_Contract\<close>: the trait \<open>Decoder\<close> on a growing buffer, as the locale
    \<open>incremental_decoder\<close>: what a decoder owes so that chunks and timing do not matter.
  \<^item> \<open>Length_Codec\<close>: the framing, which meets that contract, with frames, limits and errors.
  \<^item> \<open>Framing_Examples\<close>: the examples in the documentation of the framing, right and wrong ones, for
    all payloads.
  \<^item> \<open>Request_Codec\<close>, \<open>Response_Codec\<close>: requests, replies and transactions of both kinds.
  \<^item> \<open>Packet_Codecs\<close>: the two packet codecs; exact characterisations of what a frame is read as.
  \<^item> \<open>Frame_Faults\<close>: which errors and panics reading a frame can end with, and a frame for each.
  \<^item> \<open>Event_Systems\<close>: systems that advance by events, with the locales \<open>invariant\<close> and
    \<open>simulation\<close>, and what events can bring about; the server theories interpret them.
  \<^item> \<open>Fair_Runs\<close>: infinite runs under weak fairness, which may pause and so may end, with the locale
    \<open>fair_execution\<close> that has the rule for progress; runs and fairness along a \<open>simulation\<close>.
  \<^item> \<open>Tokio_Api\<close>: what the code relies on of \<open>tokio_util\<close>, as fields of a record \<open>T\<close> with the
    locale \<open>tokio_laws\<close>; \<open>std_tokio\<close> is an instance.
  \<^item> \<open>Server\<close>: the three loops with their sockets, \<open>handle_conn\<close>, and what can happen to a
    connection; the locale \<open>proxy_laws\<close> joins both third-party interfaces.
  \<^item> \<open>Down_Path\<close>, \<open>Up_Path\<close>, \<open>Connection_End\<close>: what arrives at the client, what arrives at the
    backend, and how a connection ends.
  \<^item> \<open>Request_Stream\<close>: what the packet codecs and the upstream side compute, as a function on all
    bytes; the locale \<open>frame_decoder\<close> is met by both codecs.
  \<^item> \<open>Fair_Delivery\<close>: in a fair run everything arrives, in both directions, unless the connection
    ends or a write fails; \<open>Closing\<close>: a connection ends when one of its peers has shut its side down.
  \<^item> \<open>Buffers\<close>: how much the proxy holds on the way up, and that nothing bounds the way down.
  \<^item> \<open>Listener\<close>: the accept loop with its tasks, and \<open>main\<close>; the whole program is the product of its
    connections. \<open>Fair_Serving\<close>: what fairness of the
    whole program means for each of its connections.

  This theory states the properties; they rest on the lemmas of the components.

  \<^bold>\<open>How state and effects are modelled.\<close> A \<open>BytesMut\<close> is the list of its bytes; a deserialiser
  returns the value and the rest, a serialiser the buffer it appended to; a codec is a record
  that is returned updated. \<open>Err\<close>, panics and loops that do not return are values (\<open>fault\<close>).
  An \<open>i32\<close> or \<open>i64\<close> is a word; a \<open>usize\<close> is a natural number with its bound written out where
  it matters. A \<open>String\<close> is its bytes, with the UTF-8 check of the standard library. The shared
  \<open>DashMap\<close> is a map in the only codec that uses it. The loops that read transactions are
  given as much fuel as the buffer has bytes and one more; a turn reads a header of nine bytes,
  so they never run out, and more fuel makes no difference (C23).

  Sockets and tasks are events: bytes arrive in any chunks, a peer shuts its side down, a read
  fails, a write takes some bytes or fails, a loop takes a turn, a client is accepted, \<open>accept\<close>
  fails. A theorem about reachable states holds for every order of them. An \<open>await\<close> is a guard:
  a loop takes its next turn when its last \<open>send\<close> is through. A socket that has failed to take
  bytes is taken to take none later, as TCP sockets do.

  \<^bold>\<open>What the properties show.\<close> C1 to C8: a connection passes on canonical requests and all
  replies unchanged, in order, whatever the events and failures; under a fair scheduler all of
  them arrive; nothing gets through behind a frame that is refused, and the table is right. C9:
  how much is held back. C10 to C13: what ends a connection, with which result, what is lost then,
  and that closed connections do end. C14 to C16: connections run at once and on their own, what ends
  the server, and a fair scheduler serves every client. C17 to C24: what a frame is read as,
  exactly; round trips; matching of replies; decoding ends; exactly what can go wrong. C25 to C30:
  streams, framing and its configuration. C31 to C34: transactions, and what is written and how
  long it is. C35 to C39: the structs and the handshake. C40: strings. Theorems without a number
  are further facts in the same vein.

  Several of them show where the code does something it may not mean to: C9 (nothing bounds the
  channel), C12 (replies that have arrived are dropped at the end of a connection), C10 and C15
  (ignored results of writes; a failed \<open>accept\<close> ends the program), C11 (errors are announced but
  cannot occur), C39 (\<open>read_only\<close> is lost when a handshake passes through the proxy),
  C32 and \<open>sync_replies_are_not_read\<close> (replies that cannot be read), C34 (wrong sizes),
  C24 (short frames panic; a reply with an unknown opcode is reported as -1), C19 (bytes behind the
  body of a request are dropped), C27 (\<open>encode\<close> cuts off a length that does not fit its field),
  C28 (three examples of the documentation are wrong).

  \<^bold>\<open>What is not modelled.\<close> Logging; the capacity of buffers (\<open>reserve\<close>), and memory or stack
  running out, apart from the capacity limit of an allocation by a length that was read. Fairness
  of the scheduler is a hypothesis (C3, C4, C13, C16). The constructors of \<open>tokio_util\<close> that the builder calls
  are arguments. The sum of offset and length of a length field and the length of a buffer are
  taken to fit a \<open>usize\<close>, and a length adjustment to be above \<open>isize::MIN\<close>, which has no negative.
\<close>

section \<open>Concrete values for the witnesses\<close>

definition get_packet :: RequestPacket where
  "get_packet = \<lparr>request_header = Some \<lparr>RequestHeader.xid = 7, r_type = 4\<rparr>,
     request = Request.GetData \<lparr>GetDataRequest.path = [47, 97], watch = 1\<rparr>\<rparr>"

definition get_body :: bytes where
  "get_body = [0, 0, 0, 7, 0, 0, 0, 4, 0, 0, 0, 2, 47, 97, 1]"

definition get_frame :: bytes where
  "get_frame = [0, 0, 0, 15] @ get_body"

definition the_tokio :: tokio where
  "the_tokio = std_tokio (SocketError ''bytes remaining on stream'')"

definition conn1 :: connection where
  "conn1 = new_conn\<lparr>upstream_conn := new_upstream\<lparr>c2p_buf := get_frame, from_client := get_frame\<rparr>\<rparr>"

definition conn2 :: connection where
  "conn2 = new_conn\<lparr>upstream_conn := new_upstream\<lparr>p2b_framed := remember get_packet new_client,
     from_client := get_frame, forwarded := [get_packet], to_backend := get_frame\<rparr>\<rparr>"

definition waiting :: connection where
  "waiting = new_conn\<lparr>upstream_conn := (upstream_conn conn2)\<lparr>p2b_buf := get_frame, to_backend := []\<rparr>\<rparr>"

definition down_events :: "event list" where
  "down_events = [BackendSends [1], B2PTurn, P2CTurn True, P2CWrites 1, BackendSends [2], B2PTurn, BackendSends [3]]"

definition conn3 :: connection where
  "conn3 = new_conn\<lparr>p2c_downstream_conn := \<lparr>p2c_buf = [], p2c_broken = False, to_client = [1]\<rparr>,
     b2p_downstream_conn := \<lparr>b2p_buf = [3], b2p_eof = False, from_backend = [1, 2, 3]\<rparr>, channel := [[2]]\<rparr>"

definition server1 :: ZkServer where
  "server1 = \<lparr>tasks = [Inr conn1, Inl (Panic UnwrapErr), Inr new_conn], started = None\<rparr>"
definition children_client :: ClientPacketCodec where
  "children_client = \<lparr>ClientPacketCodec.inner = ready, requests_by_xid = [7 \<mapsto> OpCodes.GetChildren]\<rparr>"

definition children_reply :: ResponsePacket where
  "children_reply = \<lparr>response_header = Some \<lparr>ReplyHeader.xid = 7, zxid = 9, err = 0\<rparr>,
     response = ZkResponse.Strings [[97], [98, 99]]\<rparr>"

definition children_body :: bytes where
  "children_body = [0, 0, 0, 7, 0, 0, 0, 0, 0, 0, 0, 9, 0, 0, 0, 0,
     0, 0, 0, 2, 0, 0, 0, 1, 97, 0, 0, 0, 2, 98, 99]"

definition get_reader :: "(ServerPacketCodec, RequestPacket) reader" where
  "get_reader = \<lparr>codec_of = new_server, buffer = [], received = get_frame, delivered = [get_packet]\<rparr>"

definition short_codec :: LengthDelimitedCodec where
  "short_codec = \<lparr>builder = \<lparr>max_frame_len = 9, length_field_len = 2, length_field_offset = 0,
     length_adjustment = - 1, num_skip = None, length_field_is_big_endian = False\<rparr>, state = Head\<rparr>"

definition small_multi :: MultiRequest where
  "small_multi = MultiRequest
     [(\<lparr>MultiHeader.r_type = 2, done_f = 0, err = - 1\<rparr>,
       Request.Delete \<lparr>DeleteRequest.path = [47], version = - 1\<rparr>)]
     \<lparr>MultiHeader.r_type = - 1, done_f = 1, err = - 1\<rparr>"

definition hello :: ConnectRequest where
  "hello = \<lparr>ConnectRequest.protocol_version = 0, last_zxid_seen = 5, time_out = 30000, session_id = 0,
     passwd = [1, 2], read_only = 1\<rparr>"

definition some_stat :: Stat where
  "some_stat = \<lparr>Stat.czxid = 1, mzxid = 1, ctime = 0, mtime = 0, version = 0, cversion = 0,
     aversion = 0, ephemeral_owner = 0, data_length = 0, num_children = 0, pzxid = 1\<rparr>"

lemmas eval_codes =
  XidCodes_from_i32_def enum_XidCodes_def OpCodes_from_i32_def enum_OpCodes_def

lemmas eval_request =
  get_packet_def get_body_def get_frame_def RequestPacket_jute_def RequestHeader_jute_def
  GetDataRequest_jute_def String_jute_def evaluate

lemmas eval_reply =
  children_client_def children_reply_def children_body_def ResponsePacket_jute_def
  ReplyHeader_jute_def String_jute_def evaluate

lemma minus_one_bytes: "be_bytes 4 4294967295 = [255, 255, 255, 255]"
  by (simp add: evaluate)

lemma be_bytes_small: "be_bytes 4 0 = [0, 0, 0, 0]" "be_bytes 4 (Suc 0) = [0, 0, 0, 1]" "be_bytes 4 5 = [0, 0, 0, 5]"
  by (simp_all add: evaluate)

lemma unat_minus_one: "unat (- 1 :: i32) = 4294967295"
  by (simp add: unsigned_minus_1_eq_mask mask_eq_exp_minus_1)

lemma get_canonical: "canonical get_packet"
  by (simp add: canonical_def header_ok_def eval_codes eval_request)

lemma get_packet_frame: "packet_frame get_packet = get_frame"
  by (simp add: packet_frame_def Let_def eval_request)

lemma get_bytes: "jute_bytes (RequestPacket_jute get_packet) = get_body"
  by (simp add: eval_request)

lemma length_get_frame: "length get_frame = 19"
  by (simp add: get_frame_def get_body_def)

interpretation the_proxy: proxy_laws std_bytes the_tokio
  unfolding the_tokio_def by unfold_locales

lemmas the_laws = the_proxy.proxy_laws_axioms

lemma get_decoded:
  "ServerPacketCodec_decode std_bytes new_server get_frame = (Inr (Some get_packet), new_server, [])"
  using std.decode_packet_frame [OF get_canonical, of new_server "[]"]
  by (simp add: get_packet_frame new_server_def)

lemma conn1_run: "run B T [ClientSends get_frame] new_conn = Some conn1"
  by (simp add: happens_def upstream_happens_def new_conn_def new_upstream_def conn1_def)

lemma conn1_reachable: "reachable B T conn1"
  by (rule run_reached [OF new_conn_reachable conn1_run])

lemma conn1_running [simp]: "handled conn1 = None" "\<not> p2b_broken (upstream_conn conn1)"
  by (simp_all add: conn1_def new_conn_def new_upstream_def)

lemma waiting_run: "happens std_bytes the_tokio (UpstreamTurn True) conn1 = Some waiting"
proof -
  have "UpStreamConnection_pipe std_bytes the_tokio True (upstream_conn conn1) =
      (pass_on True get_packet new_server [] (upstream_conn conn1), None)"
    by (rule the_proxy.upstream_turn_forwards) (simp add: conn1_def new_upstream_def get_decoded)
  moreover have "p2b_buf (upstream_conn conn1) = []" by (simp add: conn1_def new_upstream_def)
  ultimately show ?thesis
    by (simp add: happens_def upstream_happens_def waiting_def pass_on_def conn1_def conn2_def new_conn_def
        new_upstream_def Let_def get_packet_frame)
qed

lemma waiting_reachable: "reachable std_bytes the_tokio waiting"
  by (rule reached.event [OF conn1_reachable waiting_run])

lemma conn2_run:
  "run std_bytes the_tokio [ClientSends get_frame, UpstreamTurn True, P2BWrites 19] new_conn = Some conn2"
proof -
  have "happens std_bytes the_tokio (P2BWrites 19) waiting = Some conn2"
    by (simp add: happens_def upstream_happens_def waiting_def conn2_def new_conn_def new_upstream_def length_get_frame)
  moreover have "happens std_bytes the_tokio (ClientSends get_frame) new_conn = Some conn1"
    using conn1_run [of std_bytes the_tokio] by (simp split: option.splits)
  ultimately show ?thesis using waiting_run by simp
qed

lemma conn2_reachable: "reachable std_bytes the_tokio conn2"
  by (rule run_reached [OF new_conn_reachable conn2_run])

lemma conn3_run: "run std_bytes the_tokio down_events new_conn = Some conn3"
  by (simp add: down_events_def happens_def upstream_happens_def b2p_happens_def p2c_happens_def
      B2PDownStreamConnection_pipe_def P2CDownStreamConnection_pipe_def the_tokio_def std_tokio_def
      new_conn_def B2PDownStreamConnection_new_def P2CDownStreamConnection_new_def conn3_def)

lemma conn3_reachable: "reachable std_bytes the_tokio conn3"
  by (rule run_reached [OF new_conn_reachable conn3_run])

definition serve_events :: "server_event list" where
  "serve_events = [Accepts True, Accepts False, Task 0 (ClientSends get_frame), Accepts True]"

lemma server1_run: "run_events (serves B T) serve_events (ZkServer_start True) = Some server1"
  by (simp add: serve_events_def serves_def ZkServer_start_def handle_conn_eq server1_def
      happens_def upstream_happens_def conn1_def) (simp add: new_conn_def new_upstream_def)

lemma server1_serving: "serving B T server1"
  by (rule run_reached [OF reached.start server1_run]) blast

text \<open>Two runs without an end: a request on its way up, and two bytes on their way down.\<close>

lemma conn2_idle: "happens std_bytes the_tokio (UpstreamTurn True) conn2 = Some conn2"
proof -
  have "LengthDelimitedCodec_decode std_bytes ready [] = (Inr None, ready, [])"
    by (rule std.decode_nothing [OF codec_ok_ready]) (simp add: ready_def)
  then have "ServerPacketCodec_decode std_bytes new_server [] = (Inr None, new_server, [])"
    by (simp add: ServerPacketCodec_decode_def new_server_def)
  then show ?thesis
    by (simp add: happens_def upstream_happens_def UpStreamConnection_pipe_def Let_def conn2_def new_conn_def
        new_upstream_def)
qed

abbreviation up_es :: "nat \<Rightarrow> event option" where
  "up_es \<equiv> lasso_events [ClientSends get_frame, UpstreamTurn True, P2BWrites 19] (Some (UpstreamTurn True))"

abbreviation up_ss :: "nat \<Rightarrow> connection" where
  "up_ss \<equiv> lasso_states (happens std_bytes the_tokio)
     [ClientSends get_frame, UpstreamTurn True, P2BWrites 19] (Some (UpstreamTurn True)) new_conn"

interpretation up_lasso: up_run std_bytes the_tokio up_es up_ss
proof
  have idle: "pausing (happens std_bytes the_tokio) (Some (UpstreamTurn True)) conn2 = Some conn2"
    by (simp add: conn2_idle)
  note lasso = conn2_run idle
  show "reachable std_bytes the_tokio (up_ss 0)"
    by (simp only: lasso_states.simps new_conn_reachable)
  show "weakly_fair (happens std_bytes the_tokio) upstream_turns up_es up_ss"
    by (rule lasso_fair [OF lasso]) (simp add: upstream_turns_def)
  show "weakly_fair (happens std_bytes the_tokio) p2b_writes up_es up_ss"
    by (rule lasso_fair [OF lasso])
      (auto simp: enabled_def p2b_writes_def happens_def upstream_happens_def b2p_happens_def p2c_happens_def
        conn2_def new_conn_def new_upstream_def)
  show "execution (happens std_bytes the_tokio) up_es up_ss"
    by (rule lasso_execution [OF lasso])
qed

text \<open>On these runs nothing ends and no write fails.\<close>

lemma up_lasso_goes_on: "handled (up_ss j) = None" "\<not> p2b_broken (upstream_conn (up_ss j))"
proof -
  have "up_ss (j + 3) = conn2" by (rule lasso_loop [OF conn2_run]) (simp_all add: conn2_idle)
  then have "\<not> up_over (up_ss (j + 3))" by (simp add: up_over_def conn2_def new_conn_def new_upstream_def)
  from the_proxy.not_over_before(1) [OF up_lasso.up_runs _ this, of j]
  show "handled (up_ss j) = None" "\<not> p2b_broken (upstream_conn (up_ss j))" by (simp_all add: up_over_def)
qed

definition conn5 :: connection where
  "conn5 = new_conn\<lparr>p2c_downstream_conn := \<lparr>p2c_buf = [], p2c_broken = False, to_client = [1, 2]\<rparr>,
     b2p_downstream_conn := \<lparr>b2p_buf = [], b2p_eof = False, from_backend = [1, 2]\<rparr>\<rparr>"

lemmas eval_down =
  happens_def upstream_happens_def b2p_happens_def p2c_happens_def B2PDownStreamConnection_pipe_def
  P2CDownStreamConnection_pipe_def the_tokio_def std_tokio_def new_conn_def
  B2PDownStreamConnection_new_def P2CDownStreamConnection_new_def

abbreviation down_es :: "nat \<Rightarrow> event option" where
  "down_es \<equiv> lasso_events [BackendSends [1, 2], B2PTurn, P2CTurn True, P2CWrites 1, P2CWrites 1] (Some B2PTurn)"

abbreviation down_ss :: "nat \<Rightarrow> connection" where
  "down_ss \<equiv> lasso_states (happens std_bytes the_tokio)
     [BackendSends [1, 2], B2PTurn, P2CTurn True, P2CWrites 1, P2CWrites 1] (Some B2PTurn) new_conn"

lemma conn5_run:
  "run std_bytes the_tokio [BackendSends [1, 2], B2PTurn, P2CTurn True, P2CWrites 1, P2CWrites 1] new_conn = Some conn5"
  by (simp add: eval_down conn5_def)

lemma conn5_idle: "happens std_bytes the_tokio B2PTurn conn5 = Some conn5"
  by (simp add: eval_down conn5_def)

interpretation down_lasso: down_run std_bytes the_tokio down_es down_ss
proof
  have idle: "pausing (happens std_bytes the_tokio) (Some B2PTurn) conn5 = Some conn5"
    by (simp add: conn5_idle)
  note lasso = conn5_run idle
  show "reachable std_bytes the_tokio (down_ss 0)"
    by (simp only: lasso_states.simps new_conn_reachable)
  show "weakly_fair (happens std_bytes the_tokio) b2p_turns down_es down_ss"
    by (rule lasso_fair [OF lasso]) (simp add: b2p_turns_def)
  show "weakly_fair (happens std_bytes the_tokio) p2c_turns down_es down_ss"
    by (rule lasso_fair [OF lasso]) (simp add: enabled_def p2c_turns_def conn5_def eval_down)
  show "weakly_fair (happens std_bytes the_tokio) p2c_writes down_es down_ss"
    by (rule lasso_fair [OF lasso]) (simp add: enabled_def p2c_writes_def conn5_def eval_down)
  show "execution (happens std_bytes the_tokio) down_es down_ss"
    by (rule lasso_execution [OF lasso])
qed

lemma down_lasso_goes_on: "handled (down_ss j) = None" "\<not> p2c_broken (p2c_downstream_conn (down_ss j))"
proof -
  have "down_ss (j + 5) = conn5" by (rule lasso_loop [OF conn5_run]) (simp_all add: conn5_idle)
  then have "\<not> down_over (down_ss (j + 5))" by (simp add: down_over_def conn5_def new_conn_def)
  from the_proxy.not_over_before(2) [OF down_lasso.down_runs _ this, of j]
  show "handled (down_ss j) = None" "\<not> p2c_broken (p2c_downstream_conn (down_ss j))"
    by (simp_all add: down_over_def)
qed

text \<open>
  A run that ends: a request passes, the client shuts its side down, the upstream loop meets the
  end, and nothing happens any more.
\<close>

abbreviation closing_events :: "event list" where
  "closing_events \<equiv> [ClientSends get_frame, UpstreamTurn True, P2BWrites 19, ClientCloses, UpstreamTurn True]"

abbreviation closing_es :: "nat \<Rightarrow> event option" where
  "closing_es \<equiv> lasso_events closing_events None"

abbreviation closing_ss :: "nat \<Rightarrow> connection" where
  "closing_ss \<equiv> lasso_states (happens std_bytes the_tokio) closing_events None new_conn"

definition closed2 :: connection where
  "closed2 = conn2\<lparr>upstream_conn := (upstream_conn conn2)\<lparr>c2p_eof := True\<rparr>\<rparr>"

lemma closed2_simps [simp]:
  "c2p_eof (upstream_conn closed2)" "\<not> p2b_broken (upstream_conn closed2)"
  "from_client (upstream_conn closed2) = get_frame"
  by (simp_all add: closed2_def conn2_def new_conn_def new_upstream_def)

lemma closed2_turn:
  "happens std_bytes the_tokio (UpstreamTurn True) closed2 = Some (closed2\<lparr>handled := Some (Inr ())\<rparr>)"
proof -
  let ?u = "upstream_conn closed2"
  have "UpStreamConnection_pipe std_bytes the_tokio True ?u = (?u, Some (Inr ()))"
    by (rule the_proxy.upstream_turnE [of ?u True])
      (use the_proxy.nothing_decoded in \<open>auto simp: closed2_def conn2_def new_upstream_def\<close>)
  then show ?thesis
    by (simp add: happens_def upstream_happens_def)
      (simp add: closed2_def conn2_def new_conn_def new_upstream_def)
qed

lemma closing_prefix:
  "run std_bytes the_tokio [ClientSends get_frame, UpstreamTurn True, P2BWrites 19, ClientCloses] new_conn = Some closed2"
proof -
  have "happens std_bytes the_tokio ClientCloses conn2 = Some closed2"
    by (simp add: happens_def upstream_happens_def closed2_def conn2_def new_conn_def)
  with run_appendI [OF conn2_run, of "[ClientCloses]" closed2] show ?thesis by simp
qed

lemma closing_end: "run std_bytes the_tokio closing_events new_conn = Some (closed2\<lparr>handled := Some (Inr ())\<rparr>)"
  using run_appendI [OF closing_prefix, of "[UpstreamTurn True]"] closed2_turn by simp

lemma closing_states:
  "closing_ss 4 = closed2" "closing_ss 5 = closed2\<lparr>handled := Some (Inr ())\<rparr>"
proof -
  show "closing_ss 5 = closed2\<lparr>handled := Some (Inr ())\<rparr>"
    by (rule lasso_loop [OF closing_end]) simp_all
  show "closing_ss 4 = closed2"
    using closing_prefix by (simp add: eval_nat_numeral lasso_events_def split: option.splits)
qed

lemma get_requests: "requests_in std_bytes get_frame = [get_packet]"
  using the_proxy.canonical_requests_in [of "[get_packet]"] get_canonical by (simp add: get_packet_frame)

lemma closing_reached: "reachable std_bytes the_tokio (closing_ss 0)"
  by (simp only: lasso_states.simps new_conn_reachable)

lemma closing_run: "execution (happens std_bytes the_tokio) closing_es closing_ss"
  by (rule lasso_execution [OF closing_end]) simp

lemma closing_fair: "weakly_fair (happens std_bytes the_tokio) E closing_es closing_ss"
  by (rule lasso_fair [OF closing_end]) (simp_all add: enabled_def happens_def)

text \<open>A run of the program: one client is refused, the request of another passes.\<close>

abbreviation serving_events :: "server_event list" where
  "serving_events \<equiv> [Accepts False, Accepts True, Task 1 (ClientSends get_frame),
     Task 1 (UpstreamTurn True), Task 1 (P2BWrites 19)]"

abbreviation serve_es :: "nat \<Rightarrow> server_event option" where
  "serve_es \<equiv> lasso_events serving_events (Some (Task 1 (UpstreamTurn True)))"

abbreviation serve_ss :: "nat \<Rightarrow> ZkServer" where
  "serve_ss \<equiv> lasso_states (serves std_bytes the_tokio) serving_events (Some (Task 1 (UpstreamTurn True)))
     (ZkServer_start True)"

definition server2 :: "connection \<Rightarrow> ZkServer" where
  "server2 c = \<lparr>tasks = [Inl (Panic UnwrapErr), Inr c], started = None\<rparr>"

lemma server2_task: "happens std_bytes the_tokio ev c = Some c' \<Longrightarrow>
    serves std_bytes the_tokio (Task 1 ev) (server2 c) = Some (server2 c')"
  by (simp add: serves_def server2_def)

lemma server2_run: "run_events (serves std_bytes the_tokio) [Accepts False, Accepts True, Task 1 (ClientSends get_frame)]
    (ZkServer_start True) = Some (server2 conn1)"
proof -
  have "run_events (serves std_bytes the_tokio) [Accepts False, Accepts True] (ZkServer_start True) =
      Some (server2 new_conn)"
    by (simp add: serves_def ZkServer_start_def handle_conn_eq server2_def)
  moreover have "happens std_bytes the_tokio (ClientSends get_frame) new_conn = Some conn1"
    using conn1_run [of std_bytes the_tokio] by (simp split: option.splits)
  ultimately show ?thesis
    using run_appendI [of "serves std_bytes the_tokio" "[Accepts False, Accepts True]" "ZkServer_start True"
        "server2 new_conn" "[Task 1 (ClientSends get_frame)]" "server2 conn1"] server2_task by simp
qed

lemma serve_end: "run_events (serves std_bytes the_tokio) serving_events (ZkServer_start True) = Some (server2 conn2)"
proof -
  have "happens std_bytes the_tokio (P2BWrites 19) waiting = Some conn2"
    by (simp add: happens_def upstream_happens_def waiting_def conn2_def new_conn_def new_upstream_def length_get_frame)
  from server2_task [OF this] server2_task [OF waiting_run]
  have "run_events (serves std_bytes the_tokio) [Task 1 (UpstreamTurn True), Task 1 (P2BWrites 19)] (server2 conn1) =
      Some (server2 conn2)" by simp
  from run_appendI [OF server2_run this] show ?thesis by simp
qed

lemma serve_idle:
  "pausing (serves std_bytes the_tokio) (Some (Task 1 (UpstreamTurn True))) (server2 conn2) = Some (server2 conn2)"
  using server2_task [OF conn2_idle] by simp

lemma serve_reached: "serving std_bytes the_tokio (serve_ss 0)"
  by (simp only: lasso_states.simps) (blast intro: reached.start)

lemma serve_run: "execution (serves std_bytes the_tokio) serve_es serve_ss"
  by (rule lasso_execution [OF serve_end serve_idle])

lemma serve_fair:
  "weakly_fair (serves std_bytes the_tokio) (Task 1 ` upstream_turns) serve_es serve_ss"
  "weakly_fair (serves std_bytes the_tokio) (Task 1 ` p2b_writes) serve_es serve_ss"
proof -
  show "weakly_fair (serves std_bytes the_tokio) (Task 1 ` upstream_turns) serve_es serve_ss"
    by (rule lasso_fair [OF serve_end serve_idle]) (simp add: upstream_turns_def)
  have "happens std_bytes the_tokio (P2BWrites (Suc n)) conn2 = None" for n
    by (simp add: happens_def upstream_happens_def b2p_happens_def p2c_happens_def conn2_def new_conn_def
        new_upstream_def)
  then have "\<not> enabled (serves std_bytes the_tokio) (Task 1 ` p2b_writes) (server2 conn2)"
    by (auto simp: enabled_def p2b_writes_def serves_def server2_def gr0_conv_Suc)
  then show "weakly_fair (serves std_bytes the_tokio) (Task 1 ` p2b_writes) serve_es serve_ss"
    by (intro lasso_fair [OF serve_end serve_idle]) simp
qed

lemma serve_task: "task_is 1 (serve_ss 3) conn1"
proof -
  have "serve_ss 3 = server2 conn1"
    using server2_run by (simp add: eval_nat_numeral lasso_events_def split: option.splits)
  then show ?thesis by (simp add: task_is_def server2_def)
qed

lemma serve_goes_on: "started (serve_ss j) = None" "task_is 1 (serve_ss j) c \<Longrightarrow> \<not> up_over c"
proof -
  have "serve_ss (j + 5) = server2 conn2" by (rule lasso_loop [OF serve_end serve_idle]) simp
  then have final: "started (serve_ss (j + 5)) = None" "task_is 1 (serve_ss (j + 5)) conn2"
    by (simp_all add: server2_def task_is_def)
  have "\<not> up_over conn2" by (simp add: up_over_def conn2_def new_conn_def new_upstream_def)
  from the_proxy.served_before [OF serve_run _ final this, of j]
  show "started (serve_ss j) = None" "task_is 1 (serve_ss j) c \<Longrightarrow> \<not> up_over c" by simp_all
qed

section \<open>A connection\<close>

text \<open>
  C1. A stream of canonical requests goes through the proxy unchanged. Whatever the order of
  events, the chunks in which the client's bytes come and the failures of sockets, the packets
  read so far are the first ones of the stream, and what the backend has been sent is a prefix
  of what the client sends.
\<close>

theorem proxy_passes_requests:
  assumes "proxy_laws B T" and "reachable B T s" and "\<forall>p \<in> set ps. canonical p"
    and "from_client (upstream_conn s) @ on_the_way = concat (map packet_frame ps)"
  shows "prefix (forwarded (upstream_conn s)) ps \<and>
    prefix (to_backend (upstream_conn s)) (from_client (upstream_conn s) @ on_the_way)"
  using proxy_laws.requests_pass [OF assms(1,2) refl assms(3,4)] .

theorem proxy_passes_requests_witness:
  "prefix (forwarded (upstream_conn conn2)) [get_packet, get_packet] \<and>
    prefix (to_backend (upstream_conn conn2)) (from_client (upstream_conn conn2) @ get_frame)"
  by (rule proxy_passes_requests [OF the_laws conn2_reachable])
    (simp_all add: get_canonical get_packet_frame conn2_def)

text \<open>
  C2. Nothing is lost, changed or reordered on the way from the backend to the client: what the
  client has been sent is a prefix of what the backend has sent, and as long as writes to the
  client succeed, the rest is in the buffer of the writer, the channel and the buffer of the
  reader.
\<close>

theorem proxy_passes_replies:
  assumes "proxy_laws B T" and "reachable B T s"
  shows "prefix (to_client (p2c_downstream_conn s)) (from_backend (b2p_downstream_conn s)) \<and>
    (\<not> p2c_broken (p2c_downstream_conn s) \<longrightarrow>
      to_client (p2c_downstream_conn s) @ p2c_buf (p2c_downstream_conn s) @ concat (channel s) @
        b2p_buf (b2p_downstream_conn s) = from_backend (b2p_downstream_conn s))"
  using proxy_laws.down_ok_reached [OF assms] by (simp add: down_ok_def transit_def)

theorem proxy_passes_replies_witness:
  "to_client (p2c_downstream_conn conn3) @ p2c_buf (p2c_downstream_conn conn3) @ concat (channel conn3) @
    b2p_buf (b2p_downstream_conn conn3) = [1, 2, 3]"
  using proxy_passes_replies [OF the_laws conn3_reachable] by (simp add: conn3_def)

text \<open>
  C3. Every request arrives, under weak fairness: take any run in which the upstream loop gets its
  turns and writes to the backend take bytes; it may pause and it may end. Then for every moment
  there is one then or later at which the frames of all requests have been written to the backend
  that can be read from what the client had sent, unless the connection has ended or a write to
  the backend has failed by then; canonical requests have arrived as they were.
\<close>

theorem fair_runs_forward_requests:
  assumes "proxy_laws B T" and "reachable B T (ss 0)" and "execution (happens B T) es ss"
    and "weakly_fair (happens B T) upstream_turns es ss" and "weakly_fair (happens B T) p2b_writes es ss"
  shows "(\<exists>j\<ge>i. handled (ss j) \<noteq> None \<or> p2b_broken (upstream_conn (ss j)) \<or>
      prefix (concat (map packet_frame (requests_in B (from_client (upstream_conn (ss i))))))
        (to_backend (upstream_conn (ss j)))) \<and>
    (\<forall>ps. (\<forall>p \<in> set ps. canonical p) \<and> from_client (upstream_conn (ss i)) = concat (map packet_frame ps) \<longrightarrow>
      (\<exists>j\<ge>i. handled (ss j) \<noteq> None \<or> p2b_broken (upstream_conn (ss j)) \<or>
        prefix (from_client (upstream_conn (ss i))) (to_backend (upstream_conn (ss j)))))"
proof -
  have "up_run B T es ss" using assms by (simp add: up_run_def up_run_axioms_def)
  from up_run.all_requests_arrive [OF this, of i] up_run.canonical_arrive [OF this, of _ i] show ?thesis
    by (simp add: arrived_def up_over_def)
qed

theorem fair_runs_forward_requests_witness:
  "\<exists>j\<ge>1. prefix get_frame (to_backend (upstream_conn (up_ss j)))"
proof -
  have sent: "from_client (upstream_conn (up_ss 1)) = concat (map packet_frame [get_packet])"
    using conn1_run [of std_bytes the_tokio]
    by (simp add: lasso_events_def conn1_def get_packet_frame split: option.splits)
  from fair_runs_forward_requests [OF the_laws up_lasso.up_starts up_lasso.up_runs up_lasso.up_fair,
      THEN conjunct2, rule_format, of "[get_packet]" 1] sent up_lasso_goes_on
  show ?thesis by (simp add: get_canonical get_packet_frame)
qed

text \<open>
  C4. Every reply arrives, under weak fairness: take any run in which both downstream loops get
  their turns and writes to the client take bytes. Then for every moment there is one then or later
  at which the client has been sent all that the backend had sent, unless the connection has ended
  or a write to the client has failed by then.
\<close>

theorem fair_runs_deliver_replies:
  assumes "proxy_laws B T" and "reachable B T (ss 0)" and "execution (happens B T) es ss"
    and "weakly_fair (happens B T) b2p_turns es ss" and "weakly_fair (happens B T) p2c_turns es ss"
    and "weakly_fair (happens B T) p2c_writes es ss"
  shows "\<exists>j\<ge>i. handled (ss j) \<noteq> None \<or> p2c_broken (p2c_downstream_conn (ss j)) \<or>
    prefix (from_backend (b2p_downstream_conn (ss i))) (to_client (p2c_downstream_conn (ss j)))"
proof -
  have "down_run B T es ss" using assms by (simp add: down_run_def down_run_axioms_def)
  from down_run.all_bytes_arrive [OF this, of i] show ?thesis by (simp add: down_over_def)
qed

theorem fair_runs_deliver_replies_witness:
  "\<exists>j\<ge>1. prefix [1, 2] (to_client (p2c_downstream_conn (down_ss j)))"
proof -
  have "from_backend (b2p_downstream_conn (down_ss 1)) = [1, 2]"
    by (simp add: lasso_events_def eval_down)
  with fair_runs_deliver_replies [OF the_laws down_lasso.down_starts down_lasso.down_runs down_lasso.down_fair, of 1]
    down_lasso_goes_on show ?thesis by simp
qed

text \<open>
  No canonical request needs help from outside: from every state of a running connection in which all
  that the client has sent are whole canonical requests and no write has failed, turns of the
  upstream loop and writes to the backend alone bring exactly the client's bytes to the backend.
\<close>

theorem proxy_forwards_all_requests:
  assumes "proxy_laws B T" and "reachable B T s" and "handled s = None"
    and "\<not> p2b_broken (upstream_conn s)" and "\<forall>p \<in> set ps. canonical p"
    and "from_client (upstream_conn s) = concat (map packet_frame ps)"
  shows "\<exists>evs s'. set evs \<subseteq> insert (UpstreamTurn True) (range P2BWrites) \<and> run B T evs s = Some s' \<and>
    forwarded (upstream_conn s') = ps \<and> to_backend (upstream_conn s') = from_client (upstream_conn s)"
  using proxy_laws.requests_arrive [OF assms] .

theorem proxy_forwards_all_requests_witness:
  "\<exists>evs s'. set evs \<subseteq> insert (UpstreamTurn True) (range P2BWrites) \<and>
    run std_bytes the_tokio evs conn1 = Some s' \<and> forwarded (upstream_conn s') = [get_packet] \<and>
    to_backend (upstream_conn s') = from_client (upstream_conn conn1)"
  by (rule proxy_forwards_all_requests [OF the_laws conn1_reachable])
    (simp_all add: get_canonical get_packet_frame, simp add: conn1_def)

text \<open>
  Nor does any reply byte: from every state of a running connection in which no write to
  the client has failed, turns of the two downstream loops and writes to the client bring all
  that the backend has sent to the client.
\<close>

theorem proxy_delivers_all_replies:
  assumes "proxy_laws B T" and "reachable B T s" and "handled s = None"
    and "\<not> p2c_broken (p2c_downstream_conn s)"
  shows "\<exists>evs s'. set evs \<subseteq> insert B2PTurn (insert (P2CTurn True) (range P2CWrites)) \<and>
    run B T evs s = Some s' \<and>
    to_client (p2c_downstream_conn s') = from_backend (b2p_downstream_conn s)"
  using proxy_laws.replies_arrive [OF assms] .

theorem proxy_delivers_all_replies_witness:
  "\<exists>evs s'. set evs \<subseteq> insert B2PTurn (insert (P2CTurn True) (range P2CWrites)) \<and>
    run std_bytes the_tokio evs conn3 = Some s' \<and> to_client (p2c_downstream_conn s') = [1, 2, 3]"
  using proxy_delivers_all_replies [OF the_laws conn3_reachable]
  by (simp add: conn3_def new_conn_def)

text \<open>
  C5. What the decoder refuses stops the flow: if canonical requests are followed by bytes on
  which \<open>decode\<close> fails, in whatever way, nothing behind the canonical requests is forwarded, and
  the backend is sent a prefix of these requests and nothing else.
\<close>

theorem refused_frames_stop_the_flow:
  assumes "proxy_laws B T" and "reachable B T s" and "\<forall>p \<in> set ps. canonical p"
    and "ServerPacketCodec_decode B new_server bad = (Inl f, c, rest)"
    and "from_client (upstream_conn s) @ on_the_way = concat (map packet_frame ps) @ bad @ behind"
  shows "prefix (forwarded (upstream_conn s)) ps \<and>
    prefix (to_backend (upstream_conn s)) (concat (map packet_frame ps))"
  using proxy_laws.refused_stops [OF assms(1,2) refl assms(3-5)] .

lemma short_refused:
  "ServerPacketCodec_decode std_bytes new_server [0, 0, 0, 1, 9] = (Inl (Panic ExplicitPanic), new_server, [])"
  using std.server_decode_frame [of new_server "[9]" "[]"] std.decode_inner_short [of "[9]"]
  by (simp add: new_server_def be_bytes_small)

theorem refused_frames_stop_the_flow_witness:
  "prefix (forwarded (upstream_conn conn2)) [get_packet] \<and> prefix (to_backend (upstream_conn conn2)) get_frame"
  using refused_frames_stop_the_flow [OF the_laws conn2_reachable _ short_refused,
      of "[get_packet]" "[0, 0, 0, 1, 9] @ get_frame" get_frame]
  by (simp add: get_canonical get_packet_frame conn2_def)

text \<open>
  C6. The way down refines a pipe: every run of a connection is seen by backend and client as a
  run of a pipe into which the backend puts bytes and from which the client gets them.
\<close>

theorem downstream_refines_pipe:
  assumes "proxy_laws B T" and "reachable B T s" and "run B T evs s = Some s'"
  shows "run_events pipe_step (List.map_filter down_view evs) (down_pipe s) = Some (down_pipe s')"
  using proxy_laws.down_refines [OF assms] .

theorem downstream_refines_pipe_witness:
  "run_events pipe_step [Put [1], Get 1, Put [2], Put [3]] \<lparr>put_in = [], got_out = []\<rparr> =
    Some \<lparr>put_in = [1, 2, 3], got_out = [1]\<rparr>"
  using downstream_refines_pipe [OF the_laws new_conn_reachable conn3_run]
  by (simp add: down_events_def down_view_def List.map_filter_simps down_pipe_def conn3_def new_conn_def
      B2PDownStreamConnection_new_def P2CDownStreamConnection_new_def)

text \<open>
  C7. The upstream side of a connection refines a function on the bytes received: split them into
  frames, read each frame, stop at the first that is refused. The packets read are a prefix of
  the result, whatever the chunks and the timing, and all of it once a turn of the loop finds
  nothing more; what has been written is a prefix of the frames of these packets, and until a
  write fails the rest waits in the writer.
\<close>

theorem upstream_refines_specification:
  assumes "proxy_laws B T" and "reachable B T s" and "u = upstream_conn s"
  shows "prefix (forwarded u) (requests_in B (from_client u)) \<and>
    (\<forall>takes s'. happens B T (UpstreamTurn takes) s = Some s' \<and> forwarded (upstream_conn s') = forwarded u \<longrightarrow>
      forwarded u = requests_in B (from_client u)) \<and>
    prefix (to_backend u) (concat (map packet_frame (forwarded u))) \<and>
    (\<not> p2b_broken u \<longrightarrow> to_backend u @ p2b_buf u = concat (map packet_frame (forwarded u)))"
  using proxy_laws.upstream_specified [OF assms] .

theorem upstream_refines_specification_witness:
  "prefix [get_packet] (requests_in std_bytes get_frame) \<and>
    to_backend (upstream_conn conn2) = packet_frame get_packet"
  using upstream_refines_specification [OF the_laws conn2_reachable refl]
  by (simp add: conn2_def new_upstream_def)

text \<open>
  C8. The table of the backend codec holds, for each transaction id, the opcode of the last
  request with that id that was read, and nothing else, as long as writes to the backend
  succeed; in any case every entry comes from a request that was read. And no id ever leaves the
  table again, whatever happens, failed writes included.
\<close>

theorem table_is_last_opcode:
  assumes "proxy_laws B T" and "reachable B T s" and "u = upstream_conn s"
  shows "(\<not> p2b_broken u \<longrightarrow>
      requests_by_xid (p2b_framed u) = map_of (rev (List.map_filter known (forwarded u)))) \<and>
    (requests_by_xid (p2b_framed u) x = Some op \<longrightarrow> (\<exists>p \<in> set (forwarded u). known p = Some (x, op))) \<and>
    (\<forall>evs s'. run B T evs s = Some s' \<longrightarrow>
      dom (requests_by_xid (p2b_framed u)) \<subseteq> dom (requests_by_xid (p2b_framed (upstream_conn s'))))"
  using proxy_laws.table_of_forwarded [OF assms] proxy_laws.table_kept_by_run [OF assms(1), of _ s]
  by (simp add: assms(3))

theorem table_is_last_opcode_witness:
  "requests_by_xid (p2b_framed (upstream_conn conn2)) 7 = Some OpCodes.GetData \<and>
    (\<exists>s'. run std_bytes the_tokio [P2BBreaks, UpstreamTurn False] conn2 = Some s' \<and>
      7 \<in> dom (requests_by_xid (p2b_framed (upstream_conn s'))))"
proof -
  note table = table_is_last_opcode [OF the_laws conn2_reachable refl]
  have here: "requests_by_xid (p2b_framed (upstream_conn conn2)) 7 = Some OpCodes.GetData"
    using table by (simp add: conn2_def new_upstream_def known_def get_packet_def eval_codes List.map_filter_simps)
  have "\<exists>s'. run std_bytes the_tokio [P2BBreaks, UpstreamTurn False] conn2 = Some s'"
    by (simp add: happens_def upstream_happens_def conn2_def new_conn_def UpStreamConnection_pipe_def
        new_upstream_def the_proxy.nothing_decoded)
  with table here show ?thesis by blast
qed

text \<open>
  C9. Requests are held back, replies are not. As long as no write to the backend has failed, the
  proxy holds for the backend at most what is left of the frame of the last request, of bounded
  length, and it takes no other before that is written. But the reader of the backend waits for
  nobody: in every state of a running connection in which it has bytes, its next turn moves some of
  them into the channel. As long as no write to the client has failed, the proxy holds on the way
  down exactly as many bytes as the backend has sent and the client has not been sent; and as long
  as the connection runs and the backend has not shut its side down, the channel can grow by any
  bytes, without the writer to the client.
\<close>

theorem only_requests_are_held_back:
  assumes "proxy_laws B T"
  shows "(reachable B T s \<and> \<not> p2b_broken (upstream_conn s) \<and> p2b_buf (upstream_conn s) \<noteq> [] \<longrightarrow>
      suffix (p2b_buf (upstream_conn s)) (packet_frame (last (forwarded (upstream_conn s)))) \<and>
      length (p2b_buf (upstream_conn s)) \<le> 1048581 \<and> happens B T (UpstreamTurn takes) s = None) \<and>
    (handled s = None \<and> b2p_buf (b2p_downstream_conn s) \<noteq> [] \<longrightarrow>
      (\<exists>s' chunk. happens B T B2PTurn s = Some s' \<and> handled s' = None \<and> chunk \<noteq> [] \<and>
        channel s' = channel s @ [chunk] \<and>
        b2p_buf (b2p_downstream_conn s) = chunk @ b2p_buf (b2p_downstream_conn s'))) \<and>
    (reachable B T s \<and> \<not> p2c_broken (p2c_downstream_conn s) \<longrightarrow>
      length (p2c_buf (p2c_downstream_conn s)) + length (concat (channel s)) +
        length (b2p_buf (b2p_downstream_conn s)) + length (to_client (p2c_downstream_conn s)) =
      length (from_backend (b2p_downstream_conn s))) \<and>
    (handled s = None \<and> \<not> b2p_eof (b2p_downstream_conn s) \<longrightarrow>
      (\<exists>evs s'. set evs \<subseteq> {BackendSends bs, B2PTurn} \<and> run B T evs s = Some s' \<and> handled s' = None \<and>
        p2c_downstream_conn s' = p2c_downstream_conn s \<and>
        concat (channel s') = concat (channel s) @ b2p_buf (b2p_downstream_conn s) @ bs))"
proof (intro conjI impI; (elim conjE)?)
  assume "\<not> p2b_broken (upstream_conn s)" "p2b_buf (upstream_conn s) \<noteq> []"
  then show "happens B T (UpstreamTurn takes) s = None"
    by (simp add: happens_def upstream_happens_def b2p_happens_def p2c_happens_def)
qed (use proxy_laws.upstream_held [OF assms] in blast,
    use proxy_laws.upstream_held [OF assms] in blast,
    erule (1) proxy_laws.reader_never_waits [OF assms],
    erule (1) proxy_laws.held_exactly [OF assms],
    erule (1) proxy_laws.downstream_held [OF assms])

theorem only_requests_are_held_back_witness:
  "happens std_bytes the_tokio (UpstreamTurn True) waiting = None \<and>
    (\<exists>s'. happens std_bytes the_tokio B2PTurn conn3 = Some s' \<and> concat (channel s') = [2, 3]) \<and>
    (\<exists>evs s'. run std_bytes the_tokio evs waiting = Some s' \<and> concat (channel s') = replicate 5000000 0)"
proof -
  note held = only_requests_are_held_back [OF the_laws]
  have state: "\<not> p2b_broken (upstream_conn waiting)" "p2b_buf (upstream_conn waiting) \<noteq> []"
    "handled waiting = None" "\<not> b2p_eof (b2p_downstream_conn waiting)" "channel waiting = []"
    "b2p_buf (b2p_downstream_conn waiting) = []"
    by (simp_all add: waiting_def conn2_def new_conn_def new_upstream_def get_frame_def
        B2PDownStreamConnection_new_def)
  have conn3: "handled conn3 = None" "b2p_buf (b2p_downstream_conn conn3) = [3]" "channel conn3 = [[2]]"
    by (simp_all add: conn3_def new_conn_def)
  obtain s' chunk where s': "happens std_bytes the_tokio B2PTurn conn3 = Some s'" "chunk \<noteq> []"
    "channel s' = channel conn3 @ [chunk]" "[3] = chunk @ b2p_buf (b2p_downstream_conn s')"
    using held [of conn3, THEN conjunct2, THEN conjunct1] conn3(1,2) by auto
  then have "\<exists>s'. happens std_bytes the_tokio B2PTurn conn3 = Some s' \<and> concat (channel s') = [2, 3]"
    using conn3(3) by (auto simp: Cons_eq_append_conv)
  moreover have "happens std_bytes the_tokio (UpstreamTurn True) waiting = None"
    using held [of waiting True] state waiting_reachable by blast
  moreover have "\<exists>evs s'. run std_bytes the_tokio evs waiting = Some s' \<and> concat (channel s') = replicate 5000000 0"
    using held [of waiting _ "replicate 5000000 0", THEN conjunct2, THEN conjunct2, THEN conjunct2] state by auto
  ultimately show ?thesis by blast
qed

section \<open>The end of a connection\<close>

text \<open>
  C10. What ends a connection, exactly: a failed read, the end of the backend's bytes when all of
  them are in the channel, and a turn of the upstream loop that finds the end of the requests or
  a frame it cannot read (\<open>ends_with\<close>). So no failed write ever ends it, on either side.
\<close>

theorem connection_ends_so:
  assumes "proxy_laws B T" and "happens B T ev s = Some s'"
  shows "handled s = None \<and> handled s' = ends_with B ev s \<and>
    (ev \<in> {P2BBreaks, P2CBreaks} \<union> range P2CTurn \<longrightarrow> handled s' = None)"
  using proxy_laws.handled_after [OF assms] happens_running [OF assms(2)] by (auto simp: ends_with_def)

theorem connection_ends_so_witness:
  "\<exists>s'. happens std_bytes the_tokio P2CBreaks conn3 = Some s' \<and> handled s' = None"
proof -
  obtain s' where s': "happens std_bytes the_tokio P2CBreaks conn3 = Some s'"
    by (simp add: happens_def upstream_happens_def b2p_happens_def p2c_happens_def conn3_def new_conn_def)
  from connection_ends_so [OF the_laws s'] s' show ?thesis by auto
qed

definition conn4 :: connection where
  "conn4 = new_conn\<lparr>upstream_conn := new_upstream\<lparr>from_client := [0, 0, 0, 1, 9]\<rparr>,
     handled := Some (Inl (Panic ExplicitPanic))\<rparr>"

lemma conn4_run:
  "run std_bytes the_tokio [ClientSends [0, 0, 0, 1, 9], UpstreamTurn True] new_conn = Some conn4"
  using short_refused
  by (simp add: happens_def upstream_happens_def UpStreamConnection_pipe_def Let_def conn4_def new_conn_def
      new_upstream_def)

lemma conn4_serving: "serving std_bytes the_tokio (server2 conn4)"
proof -
  obtain c where c: "happens std_bytes the_tokio (ClientSends [0, 0, 0, 1, 9]) new_conn = Some c"
    "happens std_bytes the_tokio (UpstreamTurn True) c = Some conn4"
    using conn4_run by (auto split: option.splits)
  have "run_events (serves std_bytes the_tokio) [Accepts False, Accepts True] (ZkServer_start True) =
      Some (server2 new_conn)"
    by (simp add: serves_def ZkServer_start_def handle_conn_eq server2_def)
  moreover have "run_events (serves std_bytes the_tokio)
      [Task 1 (ClientSends [0, 0, 0, 1, 9]), Task 1 (UpstreamTurn True)] (server2 new_conn) = Some (server2 conn4)"
    using server2_task [OF c(1)] server2_task [OF c(2)] by simp
  ultimately have "run_events (serves std_bytes the_tokio) ([Accepts False, Accepts True] @
      [Task 1 (ClientSends [0, 0, 0, 1, 9]), Task 1 (UpstreamTurn True)]) (ZkServer_start True) = Some (server2 conn4)"
    by (rule run_appendI)
  note all = this
  show ?thesis by (rule run_reached [OF reached.start all]) blast
qed

text \<open>
  C11. How the task of a client can end, in every state of the program: if \<open>handle_conn\<close> ends before
  its \<open>select!\<close>, it panics, because the backend cannot be reached, and that is when it does; if it
  ends later, it ends with \<open>Ok(())\<close> or with a panic of one of five other kinds. It never ends with
  an error, so the branch of \<open>ZkServer::start\<close> that prints one is dead code, and no frame makes a
  turn of it run forever.
\<close>

theorem handle_conn_results:
  assumes "proxy_laws B T" and "serving B T s" and "task \<in> set (tasks s)"
  shows "printed task = None \<and> (\<forall>f. task = Inl f \<longrightarrow> f = Panic UnwrapErr) \<and>
    (\<forall>connects f. handle_conn connects = Inl f \<longleftrightarrow> \<not> connects \<and> f = Panic UnwrapErr) \<and>
    (\<forall>c r. task = Inr c \<and> handled c = Some r \<longrightarrow> r = Inr () \<or>
      (\<exists>p. r = Inl (Panic p) \<and>
        p \<in> {BufUnderflow, CapacityOverflow, Unreachable, AssertFailed, ExplicitPanic}))"
proof -
  have task: "task = Inl (Panic UnwrapErr) \<or> (\<exists>c. task = Inr c \<and> result_ok c)"
    using server.always [OF assms(2)] assms(3) proxy_laws.result_reached [OF assms(1)]
    by (auto simp: tasks_ok_def)
  then show ?thesis by (auto simp: result_ok_def printed_def handle_conn_eq)
qed

theorem handle_conn_results_witness:
  "printed (Inr conn4) = None \<and> (handled conn4 = Some (Inr ()) \<or> handled conn4 = Some (Inl (Panic ExplicitPanic)))"
  using handle_conn_results [OF the_laws conn4_serving, of "Inr conn4"]
  by (simp add: server2_def conn4_def)

text \<open>
  C12. Replies can be lost without any failure. In every state of a running connection in which the
  client has shut its side down and all its requests have been read and written, the upstream loop
  can take its next turn, and that turn ends the connection, whatever is in the channel and in the
  buffer of the writer: nothing of it is sent to the client any more. So a client that sends
  canonical requests, then shuts its side down, and waits can be left without a single byte of the replies, though the
  backend has got all requests and all replies had arrived before the client shut its side down;
  no read and no write fails in that run, and \<open>handle_conn\<close> returns \<open>Ok(())\<close>.
\<close>

theorem replies_lost_at_the_end:
  assumes "proxy_laws B T" and "\<forall>p \<in> set ps. canonical p"
  shows "(reachable B T s \<and> handled s = None \<and> c2p_eof (upstream_conn s) \<and>
      forwarded (upstream_conn s) = requests_in B (from_client (upstream_conn s)) \<and>
      p2b_buf (upstream_conn s) = [] \<longrightarrow>
      (\<exists>s'. happens B T (UpstreamTurn True) s = Some s' \<and> handled s' \<noteq> None \<and>
        p2c_downstream_conn s' = p2c_downstream_conn s \<and> channel s' = channel s \<and>
        (\<forall>ev. happens B T ev s' = None))) \<and>
    (\<exists>evs s'. set evs \<subseteq> {ClientSends (concat (map packet_frame ps)), UpstreamTurn True} \<union> range P2BWrites \<and>
      run B T (evs @ [BackendSends replies, ClientCloses, UpstreamTurn True]) new_conn = Some s' \<and>
      handled s' = Some (Inr ()) \<and>
      to_backend (upstream_conn s') = concat (map packet_frame ps) \<and>
      from_backend (b2p_downstream_conn s') = replies \<and> to_client (p2c_downstream_conn s') = [])"
proof (intro conjI impI; (elim conjE)?)
  show "\<exists>evs s'. set evs \<subseteq> {ClientSends (concat (map packet_frame ps)), UpstreamTurn True} \<union> range P2BWrites \<and>
      run B T (evs @ [BackendSends replies, ClientCloses, UpstreamTurn True]) new_conn = Some s' \<and>
      handled s' = Some (Inr ()) \<and>
      to_backend (upstream_conn s') = concat (map packet_frame ps) \<and>
      from_backend (b2p_downstream_conn s') = replies \<and> to_client (p2c_downstream_conn s') = []"
    using proxy_laws.replies_are_lost [OF assms] by (simp add: insert_commute)
qed (erule (4) proxy_laws.end_drops_replies [OF assms(1)])

theorem replies_lost_at_the_end_witness:
  "(\<exists>s'. happens std_bytes the_tokio (UpstreamTurn True) closed2 = Some s' \<and> handled s' \<noteq> None) \<and>
   (\<exists>evs s'. run std_bytes the_tokio (evs @ [BackendSends [1, 2, 3], ClientCloses, UpstreamTurn True]) new_conn =
      Some s' \<and> handled s' = Some (Inr ()) \<and> to_backend (upstream_conn s') = get_frame \<and>
      to_client (p2c_downstream_conn s') = [])"
proof -
  have ok: "\<forall>p \<in> set [get_packet]. canonical p" by (simp add: get_canonical)
  have "reachable std_bytes the_tokio closed2"
    by (rule run_reached [OF new_conn_reachable closing_prefix])
  moreover have "handled closed2 = None" "forwarded (upstream_conn closed2) = [get_packet]"
    "p2b_buf (upstream_conn closed2) = []"
    by (simp_all add: closed2_def conn2_def new_conn_def new_upstream_def)
  ultimately show ?thesis
    using replies_lost_at_the_end [OF the_laws ok, of closed2 "[1, 2, 3]"] get_packet_frame
    by (simp add: get_requests) blast
qed

text \<open>
  C13. A connection does not outlive its peers, under weak fairness: when the client has shut its
  side down, the connection ends, provided the upstream loop gets its turns and writes to the
  backend take bytes or fail; when the backend has, provided the reader gets its turns. If it is
  the upstream loop that ends the connection and no write to the backend has failed, all requests
  that can be read have been written to the backend by then; if it is the reader and no write to
  the client has failed, all bytes of the backend have been handed to the channel.
\<close>

theorem closed_connections_end:
  assumes "proxy_laws B T" and "reachable B T (ss 0)" and "execution (happens B T) es ss"
  shows "(c2p_eof (upstream_conn (ss i)) \<and> weakly_fair (happens B T) upstream_turns es ss \<and>
      weakly_fair (happens B T) p2b_writes es ss \<longrightarrow> (\<exists>j\<ge>i. handled (ss j) \<noteq> None)) \<and>
    (b2p_eof (b2p_downstream_conn (ss i)) \<and> weakly_fair (happens B T) b2p_turns es ss \<longrightarrow>
      (\<exists>j\<ge>i. handled (ss j) \<noteq> None)) \<and>
    (handled (ss (Suc i)) \<noteq> None \<and> es i \<in> Some ` upstream_turns \<and> \<not> p2b_broken (upstream_conn (ss (Suc i))) \<longrightarrow>
      to_backend (upstream_conn (ss (Suc i))) =
        concat (map packet_frame (requests_in B (from_client (upstream_conn (ss (Suc i))))))) \<and>
    (handled (ss (Suc i)) \<noteq> None \<and> es i \<in> Some ` b2p_turns \<and>
        \<not> p2c_broken (p2c_downstream_conn (ss (Suc i))) \<longrightarrow>
      to_client (p2c_downstream_conn (ss (Suc i))) @ p2c_buf (p2c_downstream_conn (ss (Suc i))) @
        concat (channel (ss (Suc i))) = from_backend (b2p_downstream_conn (ss (Suc i))))"
proof -
  note last = execution_reached [OF assms(3,2)] execution_step [OF assms(3)]
  have run: "up_run B T es ss" if "weakly_fair (happens B T) upstream_turns es ss"
    "weakly_fair (happens B T) p2b_writes es ss"
    using assms that by (simp add: up_run_def up_run_axioms_def)
  show ?thesis
    using up_run.client_closing_ends [OF run] proxy_laws.backend_closing_ends [OF assms]
      proxy_laws.upstream_done_at_end [OF assms(1) last] proxy_laws.reader_done_at_end [OF assms(1) last]
    by blast
qed

theorem closed_connections_end_witness:
  "(\<exists>j\<ge>4. handled (closing_ss j) \<noteq> None) \<and> to_backend (upstream_conn (closing_ss 5)) = get_frame"
proof -
  note closed = closed_connections_end [OF the_laws closing_reached closing_run, of 4]
  have turn: "closing_es 4 \<in> Some ` upstream_turns"
    by (simp add: lasso_events_def upstream_turns_def)
  from closed have "\<exists>j\<ge>4. handled (closing_ss j) \<noteq> None"
    unfolding closing_states(1) using closing_fair closed2_simps by blast
  moreover from closed have "to_backend (upstream_conn (closing_ss 5)) = get_frame"
    using turn by (simp add: closing_states get_requests get_packet_frame)
  ultimately show ?thesis by blast
qed

section \<open>The server\<close>

text \<open>
  C14. The accept loop serves its clients at once and on their own. From a state in which it runs,
  and as long as \<open>accept\<close> does not fail, a sequence of events is possible for the whole program
  exactly when each event goes to a client that has been accepted by then and, for each client, the
  events that go to it are possible for its connection alone, from its state at the beginning or,
  if it is accepted later, from the one in which its task starts; and then each connection is in the
  state in which its own events leave it, and the accept loop still runs. So no connection waits for another, is changed by
  it or ends with it, panics included, and new clients are accepted whatever the others do.
\<close>

theorem connections_are_isolated:
  assumes "started s = None" and "AcceptFails \<notin> set evs"
  shows "run_events (serves B T) evs s = Some s' \<longleftrightarrow>
    timely (length (tasks s)) evs \<and> started s' = None \<and>
    length (tasks s') = length (tasks s @ accepts_in evs) \<and>
    (\<forall>i < length (tasks s').
      task_run B T (List.map_filter (addressed i) evs) ((tasks s @ accepts_in evs) ! i) = Some (tasks s' ! i))"
  using server_is_product [OF assms] by (auto simp: each_alone_def)

theorem connections_are_isolated_witness:
  "run_events (serves std_bytes the_tokio) [Task 0 (ClientSends [7]), Accepts True, Task 2 (ClientSends get_frame)]
     \<lparr>tasks = [Inr conn1, Inr conn4], started = None\<rparr> \<noteq> None"
proof -
  let ?s = "\<lparr>tasks = [Inr conn1, Inr conn4], started = None\<rparr>"
  let ?evs = "[Task 0 (ClientSends [7]), Accepts True, Task 2 (ClientSends get_frame)]"
  obtain c where c: "run std_bytes the_tokio [ClientSends [7]] conn1 = Some c"
    by (simp add: happens_def upstream_happens_def conn1_def new_conn_def new_upstream_def)
  have runs: "task_run std_bytes the_tokio (List.map_filter (addressed i) ?evs) (([Inr conn1, Inr conn4] @ accepts_in ?evs) ! i) =
      Some ([Inr c, Inr conn4, Inr conn1] ! i)" if "i < 3" for i
  proof -
    from that consider "i = 0" | "i = 1" | "i = 2" by linarith
    then show ?thesis
      using c conn1_run [of std_bytes the_tokio]
      by cases (simp_all add: task_run_def List.map_filter_simps handle_conn_eq)
  qed
  show ?thesis
    using connections_are_isolated [of ?s ?evs std_bytes the_tokio
        "\<lparr>tasks = [Inr c, Inr conn4, Inr conn1], started = None\<rparr>"] runs
    by (simp add: eval_nat_numeral)
qed

text \<open>
  C15. In every state of the server, each task is a connection in a reachable state, to which
  the properties above apply, or was refused by the backend; and the only thing that ever ends
  the accept loop is a failed \<open>accept\<close> (or \<open>bind\<close>), which takes \<open>main\<close> and all connections with it.
\<close>

theorem server_keeps_serving:
  assumes "serving B T s"
  shows "(\<forall>task \<in> set (tasks s). task = Inl (Panic UnwrapErr) \<or> (\<exists>c. task = Inr c \<and> reachable B T c)) \<and>
    main s \<in> {None, Some (Inl (Panic UnwrapErr))} \<and>
    (\<forall>ev s'. serves B T ev s = Some s' \<and> ev \<noteq> AcceptFails \<longrightarrow> main s' = None) \<and>
    (\<forall>ev s'. serves B T ev s = Some s' \<and> ev = AcceptFails \<longrightarrow> (\<forall>ev'. serves B T ev' s' = None))"
proof (intro conjI)
  have "tasks_ok B T s" by (rule server.always [OF assms])
  then show "\<forall>task \<in> set (tasks s). task = Inl (Panic UnwrapErr) \<or> (\<exists>c. task = Inr c \<and> reachable B T c)"
    and "main s \<in> {None, Some (Inl (Panic UnwrapErr))}"
    by (auto simp: tasks_ok_def main_def)
qed (auto simp: main_def stopped dest: started_after)

theorem server_keeps_serving_witness:
  "main server1 = None \<and> (\<exists>c. tasks server1 ! 0 = Inr c \<and> reachable std_bytes the_tokio c) \<and>
    serves std_bytes the_tokio (Accepts True) (server1\<lparr>started := Some (Inl (Panic UnwrapErr))\<rparr>) = None"
  using server_keeps_serving [OF server1_serving [of std_bytes the_tokio]]
  by (simp add: server1_def main_def stopped)

text \<open>
  C16. A fair scheduler serves every client, however many there are: take any run of the whole
  program and any connection in it, at any moment. If the loops of that connection get their turns
  and the writes on its sockets take bytes, then all its requests arrive, all its replies arrive,
  and it ends once a peer has shut its side down, each unless the program has ended by then and,
  for the first two, unless the connection has ended or a write has failed.
\<close>

theorem every_client_is_served:
  assumes "proxy_laws B T" and "serving B T (ss 0)" and "execution (serves B T) es ss"
    and "task_is n (ss i) c"
  shows "(weakly_fair (serves B T) (Task n ` upstream_turns) es ss \<and>
      weakly_fair (serves B T) (Task n ` p2b_writes) es ss \<longrightarrow>
      (\<exists>j\<ge>i. started (ss j) \<noteq> None \<or> (\<exists>c'. task_is n (ss j) c' \<and>
        (handled c' \<noteq> None \<or> p2b_broken (upstream_conn c') \<or>
         prefix (concat (map packet_frame (requests_in B (from_client (upstream_conn c)))))
           (to_backend (upstream_conn c')))))) \<and>
    (weakly_fair (serves B T) (Task n ` b2p_turns) es ss \<and>
      weakly_fair (serves B T) (Task n ` p2c_turns) es ss \<and>
      weakly_fair (serves B T) (Task n ` p2c_writes) es ss \<longrightarrow>
      (\<exists>j\<ge>i. started (ss j) \<noteq> None \<or> (\<exists>c'. task_is n (ss j) c' \<and>
        (handled c' \<noteq> None \<or> p2c_broken (p2c_downstream_conn c') \<or>
         prefix (from_backend (b2p_downstream_conn c)) (to_client (p2c_downstream_conn c')))))) \<and>
    (c2p_eof (upstream_conn c) \<and> weakly_fair (serves B T) (Task n ` upstream_turns) es ss \<and>
        weakly_fair (serves B T) (Task n ` p2b_writes) es ss \<or>
      b2p_eof (b2p_downstream_conn c) \<and> weakly_fair (serves B T) (Task n ` b2p_turns) es ss \<longrightarrow>
      (\<exists>j\<ge>i. started (ss j) \<noteq> None \<or> (\<exists>c'. task_is n (ss j) c' \<and> handled c' \<noteq> None)))"
  using proxy_laws.served_upstream [OF assms] proxy_laws.served_downstream [OF assms]
    proxy_laws.served_to_the_end [OF assms]
  unfolding up_over_def down_over_def arrived_def by (simp only: disj_assoc) blast

theorem every_client_is_served_witness:
  "\<exists>j\<ge>3. \<exists>c'. task_is 1 (serve_ss j) c' \<and> prefix get_frame (to_backend (upstream_conn c'))"
proof -
  have frames: "concat (map packet_frame (requests_in std_bytes (from_client (upstream_conn conn1)))) = get_frame"
    by (simp add: conn1_def get_requests get_packet_frame)
  from every_client_is_served [OF the_laws serve_reached serve_run serve_task, THEN conjunct1, rule_format,
      OF conjI [OF serve_fair], unfolded frames]
  obtain j c' where "3 \<le> j" "task_is 1 (serve_ss j) c'" "up_over c' \<or> prefix get_frame (to_backend (upstream_conn c'))"
    unfolding up_over_def using serve_goes_on(1) by metis
  then show ?thesis using serve_goes_on(2) by blast
qed

section \<open>Request frames\<close>

text \<open>
  C17. What \<open>decode_inner\<close> returns for a frame, exactly: a handshake when the frame starts with
  four zero bytes, and otherwise the packet whose encoding the frame starts with, provided the
  header goes with the body; the branches with an assertion accept nothing behind the body.
\<close>

theorem request_frames:
  assumes "bytes_laws B" and "length bs < 2 ^ 31"
  shows "decode_inner B bs = Inr (Some p, rest) \<longleftrightarrow>
    (case request_header p of
       None \<Rightarrow> 8 \<le> length bs \<and> take 4 bs = be_bytes 4 0 \<and>
         (\<exists>c. request p = Request.Connect c \<and> ConnectRequest_deserialize B bs = Inr (c, rest))
     | Some h \<Rightarrow> header_ok h (request p) \<and> bs = jute_bytes (RequestPacket_jute p) @ rest \<and>
         (checked_end (XidCodes_from_i32 (RequestHeader.xid h)) (request p) \<longrightarrow> rest = []))"
  using bytes_laws.decode_inner_iff [OF assms] .

theorem request_frames_witness:
  "decode_inner std_bytes (get_body @ [5]) = Inr (Some get_packet, [5])"
  by (subst request_frames [OF std_laws])
    (simp_all add: header_ok_def eval_codes eval_request)

text \<open>
  C18. A canonical request that the proxy has written is read back by the proxy as the same
  packet, and the bytes behind it are left for the next call.
\<close>

theorem request_roundtrip:
  assumes "bytes_laws B" and "canonical p" and "ServerPacketCodec.inner srv = ready"
    and "fst (ClientPacketCodec_encode B cli p []) = Inr out"
  shows "ServerPacketCodec_decode B srv (out @ rest) = (Inr (Some p), srv, rest)"
proof -
  have "out = packet_frame p"
    using assms(4) by (simp add: bytes_laws.client_encode_eq [OF assms(1)] packet_frame_def Let_def
        length_jute_bytes)
  then show ?thesis
    using bytes_laws.decode_packet_frame [OF assms(1-3)] by simp
qed

theorem request_roundtrip_witness:
  "ServerPacketCodec_decode std_bytes new_server (get_frame @ [1, 2]) =
    (Inr (Some get_packet), new_server, [1, 2])"
  by (rule request_roundtrip [OF std_laws get_canonical, of _ new_client])
    (simp_all add: new_server_def std.client_encode_eq get_bytes length_jute_bytes [symmetric]
      get_frame_def get_body_def evaluate)

text \<open>
  C19. Also a request that is not canonical is passed on as it came, except for bytes behind
  the body: if a frame that is no handshake is accepted, the frame consists of a part that is
  used and a part that is left, and what is written is a frame of the used part. Nothing is
  left where the code asserts so.
\<close>

theorem accepted_request_is_rewritten:
  assumes "bytes_laws B" and "ServerPacketCodec.inner c = ready" and "request_header p = Some h"
    and "ServerPacketCodec_decode B c src = (Inr (Some p), c', rest)"
  shows "\<exists>used left. src = be_bytes 4 (length (used @ left)) @ used @ left @ rest \<and>
    ClientPacketCodec_encode B cli p dst = (Inr (dst @ be_bytes 4 (length used) @ used), remember p cli) \<and>
    (checked_end (XidCodes_from_i32 (RequestHeader.xid h)) (request p) \<longrightarrow> left = [])"
  using bytes_laws.accepted_frame [OF assms] .

theorem accepted_request_is_rewritten_witness:
  "\<exists>used left. get_frame = be_bytes 4 (length (used @ left)) @ used @ left \<and>
    fst (ClientPacketCodec_encode std_bytes new_client get_packet []) = Inr (be_bytes 4 (length used) @ used)"
proof -
  have "ServerPacketCodec_decode std_bytes new_server get_frame = (Inr (Some get_packet), new_server, [])"
    using std.decode_packet_frame [OF get_canonical, of new_server "[]"]
    by (simp add: get_packet_frame new_server_def)
  from accepted_request_is_rewritten [OF std_laws _ _ this, of _ new_client "[]"]
  show ?thesis by (fastforce simp: new_server_def get_packet_def)
qed

section \<open>Reply frames\<close>

text \<open>
  C20. What the backend codec returns for a reply frame, exactly: a handshake when the frame
  starts with four zero bytes, and otherwise header and body, where the body is what the
  reserved id, the error code or the opcode remembered for the id asks for.
\<close>

theorem reply_frames:
  assumes "bytes_laws B" and "length bs < 2 ^ 31"
  shows "decode_reply B m bs = Inr (Some q, rest) \<longleftrightarrow>
    (case response_header q of
       None \<Rightarrow> 4 \<le> length bs \<and> take 4 bs = be_bytes 4 0 \<and>
         (\<exists>c. response q = ZkResponse.Connect c \<and> ConnectResponse_deserialize B bs = Inr (c, rest))
     | Some h \<Rightarrow> reply_ok m h (response q) \<and> bs = jute_bytes (ResponsePacket_jute q) @ rest \<and>
         (reply_checked h \<longrightarrow> rest = []))"
  using bytes_laws.decode_reply_iff [OF assms] .

theorem reply_frames_witness:
  "decode_reply std_bytes [7 \<mapsto> OpCodes.GetChildren] children_body = Inr (Some children_reply, [])"
  by (subst reply_frames [OF std_laws])
    (simp_all add: reply_ok_def eval_codes eval_reply)

text \<open>
  C21. A reply that has a header and fits it, the table and the frame limit, and is not one to a
  transaction, is read back by the backend codec as it was written by the client codec, when both
  are between two frames, and the bytes behind it are left. (A reply to a transaction cannot be
  written.)
\<close>

theorem reply_roundtrip:
  assumes "bytes_laws B" and "ServerPacketCodec.inner srv = ready"
    and "ClientPacketCodec.inner cli = ready" and "response_header q = Some h"
    and "reply_ok (requests_by_xid cli) h (response q)" and "\<not> is_multi (response q)"
    and "jute_size (ResponsePacket_jute q) \<le> 1048576"
  shows "\<exists>reply. ServerPacketCodec_encode B srv q dst = Inr (dst @ reply) \<and>
    ClientPacketCodec_decode B cli (reply @ rest) = (Inr (Some q), cli, rest)"
  using bytes_laws.reply_read_back [OF assms] .

theorem reply_roundtrip_witness:
  "\<exists>reply. ServerPacketCodec_encode std_bytes new_server children_reply [] = Inr ([] @ reply) \<and>
    ClientPacketCodec_decode std_bytes children_client (reply @ [1]) =
      (Inr (Some children_reply), children_client, [1])"
  by (rule reply_roundtrip [OF std_laws, where h = "\<lparr>ReplyHeader.xid = 7, zxid = 9, err = 0\<rparr>"])
    (simp_all add: new_server_def reply_ok_def eval_codes eval_reply)

text \<open>
  C22. Requests and replies are matched by transaction id, in every state of a connection in which
  no write to the backend has failed: when the last request with an unreserved id that was
  forwarded has a known opcode, the encoding of a successful reply with that id is read back, with
  the table of the connection, provided the reply is of the kind that is read for that opcode
  (\<open>reply_for\<close>), is well-formed and has fewer than \<open>2^30\<close> bytes. (For a \<open>sync\<close> there is no such
  reply, for a transaction only those in which every operation has failed.)
\<close>

theorem replies_match_forwarded_requests:
  assumes "proxy_laws B T" and "reachable B T s" and "u = upstream_conn s" and "\<not> p2b_broken u"
    and "forwarded u = ps @ p # qs" and "known p = Some (x, op)" and "\<forall>q \<in> set qs. \<forall>op'. known q \<noteq> Some (x, op')"
    and "XidCodes_from_i32 x = None" and "ReplyHeader.xid h = x" and "ReplyHeader.err h = 0"
    and "reply_for op r" and "jute_ok (ZkResponse_jute r)" and "jute_size (ZkResponse_jute r) < 2 ^ 30"
  shows "decode_reply B (requests_by_xid (p2b_framed u))
      (jute_bytes (ReplyHeader_jute h) @ jute_bytes (ZkResponse_jute r)) =
    Inr (Some \<lparr>response_header = Some h, response = r\<rparr>, [])"
  using proxy_laws.table_entry [OF assms(1-7)] proxy_laws.reply_read_by_table [OF assms(1) _ assms(8-13)]
  by blast

theorem replies_match_forwarded_requests_witness:
  "decode_reply std_bytes (requests_by_xid (p2b_framed (upstream_conn conn2)))
      [0, 0, 0, 7, 0, 0, 0, 0, 0, 0, 0, 9, 0, 0, 0, 0, 0, 0, 0, 1, 5,
       0, 0, 0, 0, 0, 0, 0, 1, 0, 0, 0, 0, 0, 0, 0, 1, 0, 0, 0, 0, 0, 0, 0, 0, 0, 0, 0, 0, 0, 0, 0, 0,
       0, 0, 0, 0, 0, 0, 0, 0, 0, 0, 0, 0, 0, 0, 0, 0, 0, 0, 0, 0, 0, 0, 0, 0, 0, 0, 0, 0, 0, 0, 0, 0, 0, 0, 0, 1] =
    Inr (Some \<lparr>response_header = Some \<lparr>ReplyHeader.xid = 7, zxid = 9, err = 0\<rparr>,
      response = ZkResponse.GetData \<lparr>GetDataResponse.data = [5], stat = some_stat\<rparr>\<rparr>, [])"
  using replies_match_forwarded_requests [OF the_laws conn2_reachable refl, where ps = "[]" and p = get_packet
      and qs = "[]" and x = 7 and op = OpCodes.GetData
      and h = "\<lparr>ReplyHeader.xid = 7, zxid = 9, err = 0\<rparr>"
      and r = "ZkResponse.GetData \<lparr>GetDataResponse.data = [5], stat = some_stat\<rparr>"]
  by (simp add: conn2_def new_upstream_def known_def get_packet_def eval_codes ReplyHeader_jute_def evaluate
      GetDataResponse_jute_def Bytes_jute_def Stat_jute_def some_stat_def)

text \<open>
  The same for one call of \<open>encode\<close>: once a request with a known opcode
  and an unreserved id has been written, a successful reply with that id is read as a reply to
  that opcode.
\<close>

theorem reply_matches_request:
  assumes "bytes_laws B" and "known p = Some (x, op)" and "XidCodes_from_i32 x = None"
    and "ReplyHeader.xid h = x" and "ReplyHeader.err h = 0"
    and "reply_for op r" and "jute_ok (ZkResponse_jute r)"
    and "jute_size (ZkResponse_jute r) < 2 ^ 30"
  shows "decode_reply B (requests_by_xid (snd (ClientPacketCodec_encode B cli p dst)))
      (jute_bytes (ReplyHeader_jute h) @ jute_bytes (ZkResponse_jute r)) =
    Inr (Some \<lparr>response_header = Some h, response = r\<rparr>, [])"
proof -
  have "length (jute_bytes (ReplyHeader_jute h) @ jute_bytes (ZkResponse_jute r)) < 2 ^ 31"
    using assms(8) by (simp add: length_jute_bytes ReplyHeader_jute_def)
  then show ?thesis
    using assms(2-7)
    by (simp add: bytes_laws.decode_reply_iff [OF assms(1)] bytes_laws.client_encode_eq [OF assms(1)]
        remember_table reply_ok_def ResponsePacket_jute_def)
qed

theorem reply_matches_request_witness:
  "decode_reply std_bytes
      (requests_by_xid (snd (ClientPacketCodec_encode std_bytes new_client
        \<lparr>request_header = Some \<lparr>RequestHeader.xid = 7, r_type = 8\<rparr>, request = Request.Ping\<rparr> [])))
      children_body = Inr (Some children_reply, [])"
  using reply_matches_request [OF std_laws, of
      "\<lparr>request_header = Some \<lparr>RequestHeader.xid = 7, r_type = 8\<rparr>, request = Request.Ping\<rparr>" 7
      OpCodes.GetChildren "\<lparr>ReplyHeader.xid = 7, zxid = 9, err = 0\<rparr>"
      "ZkResponse.Strings [[97], [98, 99]]" new_client "[]"]
  by (simp add: known_def eval_codes eval_reply)

text \<open>
  C23. Reading a frame always ends: no frame makes a loop of the decoders run forever. The loops
  that read transactions end for every fuel above the number of bytes, whatever they have read
  before, and always with the same result: fuel is no part of what they compute.
\<close>

theorem frames_are_read_in_finite_time:
  assumes "bytes_laws B" and "length bs < fuel"
  shows "MultiRequest_loop B fuel rs bs = MultiRequest_loop B (Suc (length bs)) rs bs \<and>
    MultiRequest_loop B fuel rs bs \<noteq> Inl Diverge \<and>
    MultiResponse_loop B fuel qs bs = MultiResponse_loop B (Suc (length bs)) qs bs \<and>
    MultiResponse_loop B fuel qs bs \<noteq> Inl Diverge \<and>
    decode_inner B bs \<noteq> Inl Diverge \<and> decode_reply B m bs \<noteq> Inl Diverge"
  using bytes_laws.MultiRequest_loop_fuel [OF assms lessI] bytes_laws.MultiResponse_loop_fuel [OF assms lessI]
    bytes_laws.MultiRequest_loop_ends [OF assms, of rs Diverge]
    bytes_laws.MultiResponse_loop_ends [OF assms, of qs Diverge]
    bytes_laws.decode_inner_ends [OF assms(1)] bytes_laws.decode_reply_ends [OF assms(1)]
  by (metis request_faultI(4) response_faultI(6))

theorem frames_are_read_in_finite_time_witness:
  "MultiRequest_loop std_bytes 100 [] [0, 0, 0, 1] =
      MultiRequest_loop std_bytes (Suc (length [0, 0, 0, 1 :: u8])) [] [0, 0, 0, 1] \<and>
    decode_inner std_bytes [0, 0, 0, 1] \<noteq> Inl Diverge"
  using frames_are_read_in_finite_time [OF std_laws, of "[0, 0, 0, 1]" 100 "[]" "[]" Map.empty]
  by (simp del: MultiRequest_loop.simps MultiResponse_loop.simps)

text \<open>
  C24. What can go wrong with a frame, exactly: a request frame and a reply frame can end in each
  of the faults listed here and in no other, in particular in no slice out of bounds and in no
  endless loop; for requests an invalid opcode is always one that does not exist, for replies it
  is always -1. A frame that is too short for an id and an opcode (for a reply, for an id)
  panics, where \<open>ensure_min_length\<close> has a result type to report it.
\<close>

theorem frames_fail_so:
  assumes "bytes_laws B"
  shows "((\<exists>bs. decode_inner B bs = Inl f) \<longleftrightarrow>
      f \<in> {fault.Err InvalidString} \<union> {fault.Err (InvalidOpCode w) | w. OpCodes_from_i32 w = None} \<union>
        Panic ` {BufUnderflow, CapacityOverflow, Unreachable, AssertFailed, ExplicitPanic}) \<and>
    ((\<exists>m bs. decode_reply B m bs = Inl g) \<longleftrightarrow>
      g \<in> {fault.Err InvalidString, fault.Err DecodeError, fault.Err (InvalidOpCode (- 1))} \<union>
        Panic ` {BufUnderflow, CapacityOverflow, Unreachable, AssertFailed, ExplicitPanic, Todo}) \<and>
    (length bs < 8 \<longrightarrow> decode_inner B bs = Inl (Panic ExplicitPanic)) \<and>
    (length bs' < 4 \<longrightarrow> decode_reply B m bs' = Inl (Panic ExplicitPanic))"
  using bytes_laws.decode_inner_short [OF assms, of bs] bytes_laws.decode_reply_short [OF assms, of bs' m]
  unfolding bytes_laws.decode_inner_fault_iff [OF assms] bytes_laws.decode_reply_fault_iff [OF assms]
  by (auto simp: frame_fault_def request_fault_def reply_fault_def response_fault_def wire_fault_def)

theorem frames_fail_so_witness:
  "decode_inner std_bytes [0, 0, 0, 7, 0, 0, 0] = Inl (Panic ExplicitPanic) \<and>
    decode_reply std_bytes Map.empty [0, 0] = Inl (Panic ExplicitPanic) \<and>
    (\<exists>bs. decode_inner std_bytes bs = Inl (fault.Err (InvalidOpCode 10)))"
  using frames_fail_so [OF std_laws, of "fault.Err (InvalidOpCode 10)" _ "[0, 0, 0, 7, 0, 0, 0]" "[0, 0]" Map.empty]
  by (simp add: OpCodes_from_i32_def enum_OpCodes_def)

section \<open>Streams\<close>

lemma get_reads: "reads (ServerPacketCodec_decode std_bytes) new_server get_reader"
proof -
  let ?dec = "ServerPacketCodec_decode std_bytes"
  note start = reads.start [of ?dec new_server]
  note chunk1 = reads.step [OF start read_step.arrive [of _ _ "take 6 get_frame"]]
  note chunk2 = reads.step [OF chunk1 read_step.arrive [of _ _ "drop 6 get_frame"]]
  show ?thesis
    using reads.step [OF chunk2 read_step.item [of ?dec _ get_packet new_server "[]"]] get_decoded
    by (simp add: new_reader_def get_reader_def)
qed

lemma children_reads:
  "reads (ClientPacketCodec_decode std_bytes) children_client
    \<lparr>codec_of = children_client, buffer = [1], received = [0, 0, 0, 31] @ children_body @ [1],
     delivered = [children_reply]\<rparr>"
proof -
  let ?dec = "ClientPacketCodec_decode std_bytes"
  have "be_bytes 4 (length children_body) = [0, 0, 0, 31]" by (simp add: eval_reply)
  moreover have "decode_reply std_bytes (requests_by_xid children_client) children_body =
      Inr (Some children_reply, [])"
    by (subst std.decode_reply_iff) (simp_all add: reply_ok_def eval_codes eval_reply)
  ultimately have "?dec children_client ([0, 0, 0, 31] @ children_body @ [1]) =
      (Inr (Some children_reply), children_client, [1])"
    using std.client_decode_frame [of children_client children_body "[1]"]
    by (simp add: children_client_def) (simp add: children_body_def)
  then show ?thesis
    using reads.step [OF reads.step [OF reads.start [of ?dec children_client]
          read_step.arrive [of _ _ "[0, 0, 0, 31] @ children_body @ [1]"]]
        read_step.item [of ?dec _ children_reply children_client "[1]"]]
    by (simp add: new_reader_def)
qed

text \<open>
  C25. Both packet codecs are equivalent to a function on all bytes: the items that a new codec
  delivers are the first ones of what reading the frames of all bytes received gives, whatever
  chunks the bytes came in and whenever \<open>decode\<close> was called.
\<close>

theorem packet_codecs_read_frames:
  assumes "bytes_laws B" and "reads (ServerPacketCodec_decode B) new_server r"
    and "reads (ClientPacketCodec_decode B) (client_with m) q"
  shows "delivered r = take (length (delivered r)) (requests_in B (received r)) \<and>
    delivered q = take (length (delivered q)) (replies_in B m (received q))"
  using bytes_laws.new_codecs_read [OF assms(1)] assms(2,3) by blast

theorem packet_codecs_read_frames_witness:
  "[get_packet] = take 1 (requests_in std_bytes get_frame) \<and>
    [children_reply] = take 1 (replies_in std_bytes [7 \<mapsto> OpCodes.GetChildren] ([0, 0, 0, 31] @ children_body @ [1]))"
proof -
  have "children_client = client_with [7 \<mapsto> OpCodes.GetChildren]"
    by (simp add: children_client_def client_with_def)
  from packet_codecs_read_frames [OF std_laws get_reads children_reads [unfolded this]] show ?thesis
    by (simp add: get_reader_def)
qed

section \<open>Framing\<close>

text \<open>
  C26. Framing is a reliable transport: if what arrives is a sequence of frames whose lengths
  fit the field and the limit, the reader has delivered exactly the first payloads, in order,
  in any configuration of byte order, field length and adjustment.
\<close>

theorem frames_are_delivered:
  assumes "bytes_laws B" and "reads (LengthDelimitedCodec_decode B) c r" and "codec_ok c"
    and "state c = Head" and "\<forall>payload \<in> set ds. plain (builder c) payload"
    and "received r @ on_the_way = concat (map (frame (builder c)) ds)"
  shows "delivered r = map (\<lambda>payload. (payload, length payload)) (take (length (delivered r)) ds)"
  using bytes_laws.frames_arrive [OF assms] .

lemma short_codec_ok: "codec_ok short_codec" "state short_codec = Head"
  by (simp_all add: short_codec_def codec_ok_def builder_ok_def)

lemma short_frame: "frame (builder short_codec) [8, 9] = [3, 0, 8, 9]" "plain (builder short_codec) [8, 9]"
  by (simp_all add: short_codec_def frame_def plain_def field_value_def checked_add_def evaluate)

lemma short_reads:
  "reads (LengthDelimitedCodec_decode std_bytes) short_codec
    \<lparr>codec_of = short_codec, buffer = [3], received = [3, 0, 8, 9, 3], delivered = [([8, 9], 2)]\<rparr>"
proof -
  let ?dec = "LengthDelimitedCodec_decode std_bytes"
  have "?dec short_codec ([3, 0, 8, 9] @ [3]) = (Inr (Some ([8, 9], 2)), short_codec, [3])"
    using std.decode_frame [OF short_codec_ok short_frame(2), of "[3]"] by (simp add: short_frame)
  then show ?thesis
    using reads.step [OF reads.step [OF reads.start [of ?dec short_codec]
          read_step.arrive [of _ _ "[3, 0, 8, 9] @ [3]"]]
        read_step.item [of ?dec _ "([8, 9], 2)" short_codec "[3]"]]
    by (simp add: new_reader_def)
qed

theorem frames_are_delivered_witness:
  "[([8, 9], 2)] = map (\<lambda>payload. (payload, length payload)) (take 1 [[8, 9 :: u8], [8, 9]])"
  using frames_are_delivered [OF std_laws short_reads short_codec_ok, of "[[8, 9], [8, 9]]" "[0, 8, 9]"]
  by (simp add: short_frame)

text \<open>
  When the reader waits for more bytes, it has delivered everything there is: no further
  item could have been delivered from the bytes received so far.
\<close>

theorem framing_loses_nothing:
  assumes "bytes_laws B" and "reads (LengthDelimitedCodec_decode B) c r" and "codec_ok c"
    and "LengthDelimitedCodec_decode B (codec_of r) (buffer r) = (Inr None, c', src')"
  shows "deliver (LengthDelimitedCodec_decode B) (length (delivered r) + k) c (received r) = delivered r"
  using bytes_laws.framing_nothing_lost [OF assms] .

theorem framing_loses_nothing_witness:
  "deliver (LengthDelimitedCodec_decode std_bytes) 4 short_codec [3, 0, 8, 9, 3] = [([8, 9], 2)]"
proof -
  have "LengthDelimitedCodec_decode std_bytes short_codec [3] = (Inr None, short_codec, [3])"
    by (simp add: std.decode_eq [OF short_codec_ok(1)]) (simp add: short_codec_def num_head_bytes_def)
  then show ?thesis
    using framing_loses_nothing [OF std_laws short_reads short_codec_ok(1), of short_codec "[3]" 3]
    by simp
qed

text \<open>
  C27. For a codec whose length field has one to eight bytes and is at the start of the frame
  (offset 0), between two frames: what \<open>encode\<close> writes is read back, whatever follows it, exactly when the reader skips nothing
  but the length field, and the value that was written fits the field and the limit of the reader.
  So a payload whose length does not fit the field is written without an error and read as
  something else.
\<close>

theorem framing_roundtrip_exact:
  assumes "bytes_laws B" and "codec_ok c" and "state c = Head" and "length_field_offset (builder c) = 0"
    and "LengthDelimitedCodec_encode B c payload [] = Inr out"
  shows "(\<forall>rest. LengthDelimitedCodec_decode B c (out @ rest) = (Inr (Some (payload, length payload)), c, rest)) \<longleftrightarrow>
    get_num_skip (builder c) = length_field_len (builder c) \<and>
    (\<exists>n. field_value (builder c) (length payload) = Some n \<and> n < 256 ^ length_field_len (builder c) \<and>
       n \<le> max_frame_len (builder c))"
  using bytes_laws.decoded_iff [OF assms] .

definition narrow_codec :: LengthDelimitedCodec where
  "narrow_codec = \<lparr>builder = \<lparr>max_frame_len = 300, length_field_len = 1, length_field_offset = 0,
     length_adjustment = 0, num_skip = None, length_field_is_big_endian = True\<rparr>, state = Head\<rparr>"

lemma narrow_codec_ok: "codec_ok narrow_codec" "state narrow_codec = Head" "length_field_offset (builder narrow_codec) = 0"
  by (simp_all add: narrow_codec_def codec_ok_def builder_ok_def)

theorem framing_roundtrip_exact_witness:
  "LengthDelimitedCodec_encode std_bytes narrow_codec (replicate 256 7) [] = Inr (0 # replicate 256 7) \<and>
    \<not> (\<forall>rest. LengthDelimitedCodec_decode std_bytes narrow_codec ((0 # replicate 256 7) @ rest) =
      (Inr (Some (replicate 256 7, 256)), narrow_codec, rest))"
proof -
  have enc: "LengthDelimitedCodec_encode std_bytes narrow_codec (replicate 256 7) [] = Inr (0 # replicate 256 7)"
    by (subst std.encode_eq [OF narrow_codec_ok(1)])
      (simp add: narrow_codec_def field_value_def checked_sub_def frame_def evaluate)
  have "field_value (builder narrow_codec) 256 = Some 256"
    by (simp add: narrow_codec_def field_value_def checked_sub_def)
  moreover have "length_field_len (builder narrow_codec) = 1" by (simp add: narrow_codec_def)
  ultimately show ?thesis
    using framing_roundtrip_exact [OF std_laws narrow_codec_ok enc] enc by simp
qed

text \<open>
  \<open>encode\<close>, on every branch: a payload above the limit and an adjustment that leaves the
  range of a \<open>usize\<close> are errors, and otherwise the frame is appended.
\<close>

theorem framing_encode:
  assumes "bytes_laws B" and "codec_ok c"
  shows "LengthDelimitedCodec_encode B c payload dst =
    (if max_frame_len (builder c) < length payload
     then Inl (fault.Err (IoError InvalidInput LengthDelimitedCodecError))
     else if field_value (builder c) (length payload) = None then Inl (fault.Err overflow_error)
     else Inr (dst @ frame (builder c) payload))"
  using bytes_laws.encode_eq [OF assms] .

theorem framing_encode_witness:
  "LengthDelimitedCodec_encode std_bytes short_codec [8, 9] [5] = Inr [5, 3, 0, 8, 9]"
  using framing_encode [OF std_laws short_codec_ok(1), of "[8, 9]" "[5]"] short_frame(1)
  by (simp add: short_codec_def field_value_def checked_add_def)

text \<open>
  C28. The examples in the documentation of the module, for all payloads \<open>p\<close> for which the value of
  the length field fits the field, all other bytes of the head and whatever follows the frame, in
  both byte orders and with any limit (of a \<open>usize\<close>): a head whose length field is above the limit is refused; otherwise the decoding
  examples 2, 5, 6 and 7 read what they are said to read. The examples 1, 3 and 4, which set
  \<open>num_skip(0)\<close>, do not: there the reader yields as many bytes as the payload (and the rest of the
  head behind the length field) has, counted from the start of the head, and leaves the end of the
  frame in the buffer. The two examples of encoding hold for all payloads within the limit (of a
  length that does not fit the field, the low bytes are written).
\<close>

theorem documented_examples:
  assumes "bytes_laws B" and "limit < 2 ^ 64" and "b = settings big limit"
    and "u16 = Builder_length_field_type Field_u16"
  shows "settings True 8388608 = LengthDelimitedCodec_builder \<and>
    (length p < 2 ^ 16 \<longrightarrow> decodes B (example_codec b 0 u16 0 id) (length p)
      (number big 2 (length p) @ p @ rest) p rest) \<and>
    (length p < 2 ^ 16 \<longrightarrow> decodes B (example_codec b 1 u16 1 (Builder_num_skip 3)) (length p)
      ([hdr1] @ number big 2 (length p) @ [hdr2] @ p @ rest) ([hdr2] @ p) rest) \<and>
    (length p + 4 < 2 ^ 16 \<longrightarrow> decodes B (example_codec b 1 u16 (- 3) (Builder_num_skip 3)) (length p + 4)
      ([hdr1] @ number big 2 (length p + 4) @ [hdr2] @ p @ rest) ([hdr2] @ p) rest) \<and>
    (length p < 2 ^ 24 \<longrightarrow>
      decodes B (example_codec b 0 (Builder_length_field_length 3) 0 (Builder_num_skip 4)) (length p)
      (number big 3 (length p) @ [unused] @ p @ rest) p rest) \<and>
    (length p < 2 ^ 16 \<and> whole = number big 2 (length p) @ p \<longrightarrow>
      decodes B (example_codec b 0 u16 0 (Builder_num_skip 0)) (length p) (whole @ rest)
        (take (length p) whole) (drop (length p) whole @ rest)) \<and>
    (length p + 2 < 2 ^ 16 \<and> whole = number big 2 (length p + 2) @ p \<longrightarrow>
      decodes B (example_codec b 0 u16 (- 2) (Builder_num_skip 0)) (length p + 2) (whole @ rest)
        (take (length p) whole) (drop (length p) whole @ rest)) \<and>
    (length p < 2 ^ 24 \<and> whole = number big 3 (length p) @ [hdr1, hdr2] @ p \<longrightarrow>
      decodes B (example_codec b 0 (Builder_length_field_length 3) 2 (Builder_num_skip 0)) (length p) (whole @ rest)
        (take (length p + 2) whole) (drop (length p + 2) whole @ rest)) \<and>
    encodes B (Inr LengthDelimitedCodec_new) p dst (dst @ number True 4 (length p) @ p) \<and>
    encodes B (example_codec b 0 u16 0 id) p dst (dst @ number big 2 (length p) @ p)"
  unfolding assms(3,4)
  using bytes_laws.right_examples [OF assms(1,2)] bytes_laws.other_examples [OF assms(1,2)]
    bytes_laws.writer_examples(1) [OF assms(1)] bytes_laws.writer_examples(2) [OF assms(1,2)]
  by (intro conjI impI default_settings; (elim conjE)?) assumption+

theorem documented_examples_witness:
  "\<not> decodes std_bytes (example_codec LengthDelimitedCodec_builder 0 (Builder_length_field_type Field_u16) 0
      (Builder_num_skip 0)) 11 ([0, 11] @ Hello_world) ([0, 11] @ Hello_world) [] \<and>
   decodes std_bytes (example_codec LengthDelimitedCodec_builder 0 (Builder_length_field_type Field_u16) 0 id)
      11 ([0, 11] @ Hello_world) Hello_world [] \<and>
   decodes std_bytes (example_codec (settings False 10) 0 (Builder_length_field_type Field_u16) 0 id)
      11 ([11, 0] @ Hello_world) Hello_world []"
proof -
  have len: "length Hello_world = 11" by (simp add: Hello_world_def)
  have field: "number True 2 11 = [0, 11]" "number False 2 11 = [11, 0]"
    by (simp_all add: number_def evaluate)
  note ex = documented_examples [OF std_laws _ refl refl, where p = Hello_world and rest = "[]"]
  from ex [where limit = 8388608 and big = True and whole = "[0, 11] @ Hello_world"] len field default_settings
  have ex1: "decodes std_bytes (example_codec LengthDelimitedCodec_builder 0 (Builder_length_field_type Field_u16) 0
      (Builder_num_skip 0)) 11 ([0, 11] @ Hello_world) (take 11 ([0, 11] @ Hello_world)) (drop 11 ([0, 11] @ Hello_world))"
    and ex2: "decodes std_bytes (example_codec LengthDelimitedCodec_builder 0 (Builder_length_field_type Field_u16) 0 id)
      11 ([0, 11] @ Hello_world) Hello_world []" by simp_all
  from ex [where limit = 10 and big = False] len field
  have "decodes std_bytes (example_codec (settings False 10) 0 (Builder_length_field_type Field_u16) 0 id)
      11 ([11, 0] @ Hello_world) Hello_world []" by simp
  moreover from ex1 have "\<not> decodes std_bytes (example_codec LengthDelimitedCodec_builder 0
      (Builder_length_field_type Field_u16) 0 (Builder_num_skip 0)) 11 ([0, 11] @ Hello_world) ([0, 11] @ Hello_world) []"
    by (auto simp: decodes_def example_codec_eq max_frame_length_def Builder_num_skip_def LengthDelimitedCodec_builder_def
        Builder_new_def Hello_world_def)
  ultimately show ?thesis using ex2 by blast
qed

text \<open>
  C29. \<open>decode\<close> keeps to the limit and fails cleanly: a payload that is delivered is as long as its
  frame says, and never longer than the limit with the adjustment, and this is kept while a
  payload is awaited; a change of the limit meanwhile does not change what becomes of that payload.
  All that can go wrong (the capacity of the buffer left aside) is that a length field is above
  the limit or leaves the range after adjustment, and then codec and buffer stay as they are.
\<close>

theorem framing_respects_limit:
  assumes "bytes_laws B" and "codec_ok c" and "LengthDelimitedCodec_decode B c src = (r, c', src')"
    and "pending_bounded c"
  shows "case r of
      Inr x \<Rightarrow> pending_bounded c' \<and> (\<forall>payload k. x = Some (payload, k) \<longrightarrow> k = length payload \<and>
          int k \<le> int (max_frame_len (builder c)) + length_adjustment (builder c)) \<and>
        (state c \<noteq> Head \<longrightarrow> LengthDelimitedCodec_decode B (set_max_frame_length val c) src =
          (Inr x, set_max_frame_length val c', src'))
    | Inl f \<Rightarrow> f \<in> {fault.Err (IoError InvalidData LengthDelimitedCodecError), fault.Err overflow_error} \<and>
        c' = c \<and> src' = src \<and> state c = Head"
proof (cases r)
  case (Inl f)
  then show ?thesis using bytes_laws.decode_refuses [OF assms(1,2)] assms(3) by simp
next
  case (Inr x)
  then show ?thesis
    using bytes_laws.decode_bounded [OF assms(1,2) _ assms(4)] bytes_laws.limit_change [OF assms(1) _ assms(3)]
      assms(3) by (cases "state c") simp_all
qed

theorem framing_respects_limit_witness:
  "LengthDelimitedCodec_decode std_bytes short_codec [0, 1, 7] =
      (Inl (fault.Err (IoError InvalidData LengthDelimitedCodecError)), short_codec, [0, 1, 7]) \<and>
    pending_bounded short_codec \<and> int (length [8, 9 :: u8]) \<le> 8"
proof -
  have bounded: "pending_bounded short_codec" by (simp add: short_codec_def pending_bounded_def)
  have "LengthDelimitedCodec_decode std_bytes short_codec [3, 0, 8, 9] =
      (Inr (Some ([8, 9], 2)), short_codec, [])"
    using std.decode_frame [OF short_codec_ok short_frame(2), of "[]"] by (simp add: short_frame)
  from framing_respects_limit [OF std_laws short_codec_ok(1) this bounded]
  have "int (length [8, 9 :: u8]) \<le> 8" by (simp add: short_codec_def)
  moreover have "LengthDelimitedCodec_decode std_bytes short_codec [0, 1, 7] =
      (Inl (fault.Err (IoError InvalidData LengthDelimitedCodecError)), short_codec, [0, 1, 7])"
    by (simp add: std.decode_eq [OF short_codec_ok(1)])
      (simp add: short_codec_def num_head_bytes_def length_field_def be_nat_def)
  ultimately show ?thesis using bounded by blast
qed

text \<open>
  C30. Every builder that can be made from \<open>Builder::new\<close> with the methods of the builder,
  leaving out calls that panic, has a length field of one to eight bytes; so have the default
  ones. The codec of the proxy comes from one of them: a limit of 1 MiB and four bytes,
  big-endian, at the start.
\<close>

theorem builders_are_sound:
  assumes "configured b"
  shows "builder_ok b \<and> codec_ok (Builder_new_codec b) \<and>
    configured Builder_default \<and> configured LengthDelimitedCodec_builder \<and>
    LengthDelimitedCodec_default = Builder_new_codec Builder_default \<and>
    (\<exists>p. LENGTH_DELIMITED_CODEC = Inr (Builder_new_codec p) \<and> configured p \<and> max_frame_len p = 1048576 \<and>
      length_field_len p = 4 \<and> length_field_is_big_endian p \<and> length_field_offset p = 0)"
proof -
  have "codec_ok (Builder_new_codec b)"
    using configured_ok [OF assms] by (simp add: codec_ok_def Builder_new_codec_def)
  then show ?thesis
    using configured_ok [OF assms] defaults_configured the_builder by (auto simp: Builder_default_def)
qed

theorem builders_are_sound_witness:
  "\<exists>b. Builder_length_field_type Field_u16 (Builder_little_endian Builder_new) =
      (Inr b :: (Builder, io_error) result) \<and> builder_ok b \<and> length_field_len b = 2"
proof -
  obtain b where b: "Builder_length_field_type Field_u16 (Builder_little_endian Builder_new) =
      (Inr b :: (Builder, io_error) result)" "length_field_len b = 2"
    by (simp add: builder_defs)
  have "configured b"
    by (rule configured.field_type [OF configured.little [OF configured.new] b(1)])
  from builders_are_sound [OF this] b show ?thesis by blast
qed

section \<open>Transactions\<close>

lemma small_multi_ok: "multi_ok small_multi"
  by (simp add: small_multi_def multi_ok_def sub_ok_def eval_codes DeleteRequest_jute_def String_jute_def)

text \<open>
  C31. A transaction is read exactly when its headers are right (each opcode goes with its
  sub-request, and only the last header is marked as done) and the buffer starts with its
  encoding.
\<close>

theorem transactions_are_read:
  assumes "bytes_laws B"
  shows "MultiRequest_deserialize B bs = Inr (m, rest) \<longleftrightarrow>
    multi_ok m \<and> bs = jute_bytes (MultiRequest_jute m) @ rest"
  using bytes_laws.MultiRequest_iff [OF assms] .

theorem transactions_are_read_witness:
  "MultiRequest_deserialize std_bytes (jute_bytes (MultiRequest_jute small_multi) @ [1]) =
    Inr (small_multi, [1])"
  by (simp add: transactions_are_read [OF std_laws] small_multi_ok del: MultiRequest_jute.simps)

text \<open>
  Reading a transaction ends, and all that can go wrong are the faults of its parts: an
  invalid string, a read past the end, a negative length, a number that is no opcode, and the
  \<open>unreachable!\<close> of an opcode that has no place in a transaction.
\<close>

theorem transactions_fail_so:
  assumes "bytes_laws B" and "MultiRequest_deserialize B bs = Inl f"
  shows "f \<in> {fault.Err InvalidString, Panic BufUnderflow, Panic CapacityOverflow, Panic Unreachable} \<union>
    range (\<lambda>w. fault.Err (InvalidOpCode w))"
  using bytes_laws.MultiRequest_faults [OF assms(1), THEN faults_inD, OF assms(2)]
  by (auto simp: request_fault_def wire_fault_def)

theorem transactions_fail_so_witness:
  "MultiRequest_deserialize std_bytes [] = Inl (Panic BufUnderflow) \<and>
    Panic BufUnderflow \<in> {fault.Err InvalidString, Panic BufUnderflow, Panic CapacityOverflow,
      Panic Unreachable} \<union> range (\<lambda>w. fault.Err (InvalidOpCode w))"
proof -
  have "MultiRequest_deserialize std_bytes [] = Inl (Panic BufUnderflow)"
    by (simp add: MultiRequest_deserialize_def MultiHeader_deserialize_def bind_def get_i32_def
        may_panic_def std_bytes_def take_off_def)
  with transactions_fail_so [OF std_laws this] show ?thesis by blast
qed

text \<open>
  What a reply is read as, by the opcode of the request: one constructor of \<open>ZkResponse\<close>
  for each opcode, whose encoding takes up the whole buffer.
\<close>

theorem replies_by_opcode:
  assumes "bytes_laws B"
  shows "ZkResponse_deserialize B (Some op) bs = Inr (r, rest) \<longleftrightarrow>
    rest = [] \<and> reply_for op r \<and> jute_ok (ZkResponse_jute r) \<and> bs = jute_bytes (ZkResponse_jute r)"
  using bytes_laws.ZkResponse_deserialize_iff [OF assms] .

theorem replies_by_opcode_witness:
  "ZkResponse_deserialize std_bytes (Some OpCodes.CreateTtl) [0, 0, 0, 2, 47, 97] =
    Inr (ZkResponse.String [47, 97], [])"
  by (subst replies_by_opcode [OF std_laws]) (simp add: String_jute_def evaluate)

text \<open>
  C32. The reply to a transaction is read exactly when every operation failed and each is
  announced by a header alone; the model of the reply then holds the error code of each header.
  So the reply to a transaction in which the first operation succeeded is never read: the call
  ends with a fault whatever follows the header of that operation.
\<close>

theorem transaction_replies_are_read:
  assumes "bytes_laws B"
  shows "(MultiResponse_deserialize B bs = Inr (m, rest) \<longleftrightarrow>
      multi_reply_ok m \<and> bs = jute_bytes (MultiResponse_jute m) @ rest) \<and>
    (MultiHeader.r_type h \<noteq> - 1 \<and> done_f h \<noteq> 1 \<longrightarrow>
      (\<exists>f. MultiResponse_deserialize B (jute_bytes (MultiHeader_jute h) @ tail) = Inl f \<and> response_fault f))"
  using bytes_laws.MultiResponse_deserialize_iff [OF assms] bytes_laws.success_not_read [OF assms] by blast

theorem transaction_replies_are_read_witness:
  "MultiResponse_deserialize std_bytes [255, 255, 255, 255, 0, 0, 0, 0, 5, 255, 255, 255, 255, 1, 0, 0, 0, 0] =
      Inr (MultiResponse [Inr (ZkResponse.Err 5, \<lparr>MultiHeader.r_type = - 1, done_f = 0, err = 5\<rparr>)]
        \<lparr>MultiHeader.r_type = - 1, done_f = 1, err = 0\<rparr>, []) \<and>
    (\<exists>f. MultiResponse_deserialize std_bytes
      ([0, 0, 0, 2, 0, 0, 0, 0, 0] @ [255, 255, 255, 255, 1, 0, 0, 0, 0]) = Inl f \<and> response_fault f)"
proof
  show "MultiResponse_deserialize std_bytes [255, 255, 255, 255, 0, 0, 0, 0, 5, 255, 255, 255, 255, 1, 0, 0, 0, 0] =
      Inr (MultiResponse [Inr (ZkResponse.Err 5, \<lparr>MultiHeader.r_type = - 1, done_f = 0, err = 5\<rparr>)]
        \<lparr>MultiHeader.r_type = - 1, done_f = 1, err = 0\<rparr>, [])"
    by (subst transaction_replies_are_read [OF std_laws, THEN conjunct1])
      (simp add: multi_reply_ok_def failed_def failed_header_def MultiResponse_jute_def result_header_def
        MultiHeader_jute_def unat_minus_one minus_one_bytes be_bytes_small)
  show "\<exists>f. MultiResponse_deserialize std_bytes
      ([0, 0, 0, 2, 0, 0, 0, 0, 0] @ [255, 255, 255, 255, 1, 0, 0, 0, 0]) = Inl f \<and> response_fault f"
    using transaction_replies_are_read [OF std_laws, THEN conjunct2, rule_format,
        of "\<lparr>MultiHeader.r_type = 2, done_f = 0, err = 0\<rparr>" "[255, 255, 255, 255, 1, 0, 0, 0, 0]"]
    by (simp add: MultiHeader_jute_def evaluate)
qed

section \<open>Writing\<close>

text \<open>
  C33. Writing a request appends its Jute encoding, header first, and \<open>size\<close> is exactly the
  number of bytes appended, through all nested transactions. Writing a reply appends its
  encoding, except that a transaction hits the \<open>todo!\<close>.
\<close>

theorem packets_are_written:
  assumes "bytes_laws B"
  shows "RequestPacket_serialize_into B p buf = Inr (buf @ jute_bytes (RequestPacket_jute p)) \<and>
    RequestPacket_size p = length (jute_bytes (RequestPacket_jute p)) \<and>
    ResponsePacket_serialize_into B q buf =
      (if is_multi (response q) then Inl (Panic Todo) else Inr (buf @ jute_bytes (ResponsePacket_jute q)))"
  using bytes_laws.RequestPacket_written [OF assms] bytes_laws.ResponsePacket_serialize [OF assms] by blast

theorem packets_are_written_witness:
  "RequestPacket_serialize_into std_bytes get_packet [9] = Inr (9 # get_body) \<and>
    RequestPacket_size get_packet = 15 \<and>
    ResponsePacket_serialize_into std_bytes children_reply [9] = Inr (9 # children_body)"
  using packets_are_written [OF std_laws, of get_packet "[9]" children_reply]
  by (simp add: get_bytes) (simp add: get_body_def eval_reply)

definition one_result :: MultiResponse where
  "one_result = MultiResponse
     [Inr (ZkResponse.String [47, 97], \<lparr>MultiHeader.r_type = 1, done_f = 0, err = 0\<rparr>)]
     \<lparr>MultiHeader.r_type = - 1, done_f = 1, err = - 1\<rparr>"

definition one_acl :: ZkResponse where
  "one_acl = ZkResponse.GetAcl [\<lparr>ACL.perms = 31, id_f = \<lparr>Id.scheme = [97], id_f = [98]\<rparr>\<rparr>] some_stat"

text \<open>
  C34. The \<open>size\<close> of a reply is the length of its encoding for every constructor but two: it
  panics on a transaction, and for an access control list with entries it is too small. The
  \<open>size\<close> of the results of a transaction is too large by exactly what it counts for their bodies,
  of which \<open>serialize_into\<close> writes nothing.
\<close>

theorem reply_size:
  assumes "bytes_laws B"
  shows "(case r of
      ZkResponse.Multi _ \<Rightarrow> ZkResponse_size r = Inl (Panic Todo)
    | ZkResponse.GetAcl acls _ \<Rightarrow>
        (\<exists>n. ZkResponse_size r = Inr n \<and>
          (if acls = [] then n = length (jute_bytes (ZkResponse_jute r))
           else n < length (jute_bytes (ZkResponse_jute r))))
    | _ \<Rightarrow> ZkResponse_size r = Inr (length (jute_bytes (ZkResponse_jute r)))) \<and>
    (\<forall>n. MultiResponse_size m = Inr n \<longrightarrow>
      (\<exists>out. MultiResponse_serialize_into B m buf = Inr (buf @ out) \<and>
        n = length out + sum_list (map unwritten_size (results m))))"
proof (intro conjI allI impI)
  fix n assume "MultiResponse_size m = Inr n"
  then show "\<exists>out. MultiResponse_serialize_into B m buf = Inr (buf @ out) \<and>
      n = length out + sum_list (map unwritten_size (results m))"
    using bytes_laws.MultiResponse_serialize [OF assms] MultiResponse_size_eq by blast
qed (rule bytes_laws.ZkResponse_size_cases [OF assms])

theorem reply_size_witness:
  "(\<exists>n. ZkResponse_size one_acl = Inr n \<and> n < length (jute_bytes (ZkResponse_jute one_acl))) \<and>
    (\<exists>out. MultiResponse_serialize_into std_bytes one_result [] = Inr out \<and> 24 = length out + 6)"
proof -
  have "MultiResponse_size one_result = Inr 24"
    by (simp add: one_result_def MultiResponse_size_def add_size_def MultiHeader_size_def)
  then show ?thesis
    using reply_size [OF std_laws, of one_acl one_result "[]"]
    by (simp add: one_result_def unwritten_size_def one_acl_def)
qed

section \<open>Structs\<close>

text \<open>
  C35. Strings, byte vectors, vectors of structs, the structs shared by others and the session
  structs with a full contract (watch lists, headers, authentication) meet the contract of
  \<open>Serialize\<close> and \<open>Deserialize\<close>: \<open>serialize_into\<close> appends the Jute encoding, \<open>size\<close> is its length,
  and \<open>deserialize\<close> returns \<open>x\<close> exactly when the buffer starts with the encoding of a
  well-formed \<open>x\<close>, which it takes off; its only faults are an invalid string, a read past the
  end and a negative length.
\<close>

theorem shared_structs_meet_contract:
  assumes "bytes_laws B"
  shows "(jute_record (String_serialize_into B) String_size String_jute (String_deserialize B) \<and>
     jute_record (Bytes_serialize_into B) Bytes_size Bytes_jute (Bytes_deserialize B) \<and>
     jute_record (Vec_serialize_into B (String_serialize_into B)) (Vec_size String_size) (Vec_jute String_jute) (Vec_deserialize B (String_deserialize B)) \<and>
     jute_record (Id_serialize_into B) Id_size Id_jute (Id_deserialize B) \<and>
     jute_record (Vec_serialize_into B (Id_serialize_into B)) (Vec_size Id_size) (Vec_jute Id_jute) (Vec_deserialize B (Id_deserialize B)) \<and>
     jute_record (ACL_serialize_into B) ACL_size ACL_jute (ACL_deserialize B) \<and>
     jute_record (Vec_serialize_into B (ACL_serialize_into B)) (Vec_size ACL_size) (Vec_jute ACL_jute) (Vec_deserialize B (ACL_deserialize B)) \<and>
     jute_record (Stat_serialize_into B) Stat_size Stat_jute (Stat_deserialize B) \<and>
     jute_record (StatPersisted_serialize_into B) StatPersisted_size StatPersisted_jute (StatPersisted_deserialize B) \<and>
     jute_record (ClientInfo_serialize_into B) ClientInfo_size ClientInfo_jute (ClientInfo_deserialize B) \<and>
     jute_record (Vec_serialize_into B (ClientInfo_serialize_into B)) (Vec_size ClientInfo_size) (Vec_jute ClientInfo_jute) (Vec_deserialize B (ClientInfo_deserialize B))) \<and>
    (jute_record (SetWatches_serialize_into B) SetWatches_size SetWatches_jute (SetWatches_deserialize B) \<and>
     jute_record (SetWatches2_serialize_into B) SetWatches2_size SetWatches2_jute (SetWatches2_deserialize B) \<and>
     jute_record (RequestHeader_serialize_into B) RequestHeader_size RequestHeader_jute (RequestHeader_deserialize B) \<and>
     jute_record (MultiHeader_serialize_into B) MultiHeader_size MultiHeader_jute (MultiHeader_deserialize B) \<and>
     jute_record (AuthPacket_serialize_into B) AuthPacket_size AuthPacket_jute (AuthPacket_deserialize B) \<and>
     jute_record (ReplyHeader_serialize_into B) ReplyHeader_size ReplyHeader_jute (ReplyHeader_deserialize B))"
  using bytes_laws.base_structs_hold [OF assms] bytes_laws.session_structs_hold [OF assms] by (rule conjI)

theorem shared_structs_meet_contract_witness:
  "AuthPacket_deserialize std_bytes [0, 0, 0, 0, 0, 0, 0, 1, 97, 0, 0, 0, 1, 255, 7] =
    Inr (\<lparr>AuthPacket.r_type = 0, scheme = [97], auth = [255]\<rparr>, [7])"
proof -
  have "jute_record (AuthPacket_serialize_into std_bytes) AuthPacket_size AuthPacket_jute
      (AuthPacket_deserialize std_bytes)"
    using shared_structs_meet_contract [OF std_laws] by blast
  from jute_message.de_law [OF jute_record.axioms(1) [OF this]] show ?thesis
    by (simp add: AuthPacket_jute_def String_jute_def Bytes_jute_def evaluate)
qed





text \<open>
  C38. The structs of the quorum protocol and the transaction log meet the contract of \<open>Serialize\<close> and
  \<open>Deserialize\<close>: \<open>serialize_into\<close> appends the Jute encoding, \<open>size\<close> is its length, and
  \<open>deserialize\<close> returns \<open>x\<close> exactly when the buffer starts with the encoding of a well-formed
  \<open>x\<close>, which it takes off; its only faults are an invalid string, a read past the end and a
  negative length.
\<close>

theorem txn_structs_meet_contract:
  assumes "bytes_laws B"
  shows "jute_record (LearnerInfo_serialize_into B) LearnerInfo_size LearnerInfo_jute (LearnerInfo_deserialize B) \<and>
     jute_record (QuorumPacket_serialize_into B) QuorumPacket_size QuorumPacket_jute (QuorumPacket_deserialize B) \<and>
     jute_record (QuorumAuthPacket_serialize_into B) QuorumAuthPacket_size QuorumAuthPacket_jute (QuorumAuthPacket_deserialize B) \<and>
     jute_record (FileHeader_serialize_into B) FileHeader_size FileHeader_jute (FileHeader_deserialize B) \<and>
     jute_record (TxnDigest_serialize_into B) TxnDigest_size TxnDigest_jute (TxnDigest_deserialize B) \<and>
     jute_record (TxnHeader_serialize_into B) TxnHeader_size TxnHeader_jute (TxnHeader_deserialize B) \<and>
     jute_record (CreateTxnV0_serialize_into B) CreateTxnV0_size CreateTxnV0_jute (CreateTxnV0_deserialize B) \<and>
     jute_record (CreateTxn_serialize_into B) CreateTxn_size CreateTxn_jute (CreateTxn_deserialize B) \<and>
     jute_record (CreateTTLTxn_serialize_into B) CreateTTLTxn_size CreateTTLTxn_jute (CreateTTLTxn_deserialize B) \<and>
     jute_record (CreateContainerTxn_serialize_into B) CreateContainerTxn_size CreateContainerTxn_jute (CreateContainerTxn_deserialize B) \<and>
     jute_record (DeleteTxn_serialize_into B) DeleteTxn_size DeleteTxn_jute (DeleteTxn_deserialize B) \<and>
     jute_record (SetDataTxn_serialize_into B) SetDataTxn_size SetDataTxn_jute (SetDataTxn_deserialize B) \<and>
     jute_record (CheckVersionTxn_serialize_into B) CheckVersionTxn_size CheckVersionTxn_jute (CheckVersionTxn_deserialize B) \<and>
     jute_record (SetACLTxn_serialize_into B) SetACLTxn_size SetACLTxn_jute (SetACLTxn_deserialize B) \<and>
     jute_record (SetMaxChildrenTxn_serialize_into B) SetMaxChildrenTxn_size SetMaxChildrenTxn_jute (SetMaxChildrenTxn_deserialize B) \<and>
     jute_record (CreateSessionTxn_serialize_into B) CreateSessionTxn_size CreateSessionTxn_jute (CreateSessionTxn_deserialize B) \<and>
     jute_record (CloseSessionTxn_serialize_into B) CloseSessionTxn_size CloseSessionTxn_jute (CloseSessionTxn_deserialize B) \<and>
     jute_record (ErrorTxn_serialize_into B) ErrorTxn_size ErrorTxn_jute (ErrorTxn_deserialize B) \<and>
     jute_record (Txn_serialize_into B) Txn_size Txn_jute (Txn_deserialize B) \<and>
     jute_record (Vec_serialize_into B (Txn_serialize_into B)) (Vec_size Txn_size) (Vec_jute Txn_jute) (Vec_deserialize B (Txn_deserialize B)) \<and>
     jute_record (MultiTxn_serialize_into B) MultiTxn_size MultiTxn_jute (MultiTxn_deserialize B)"
  using bytes_laws.txn_structs_hold [OF assms] .

theorem txn_structs_meet_contract_witness:
  "DeleteTxn_deserialize std_bytes [0, 0, 0, 2, 47, 97, 7] = Inr (\<lparr>DeleteTxn.path = [47, 97]\<rparr>, [7])"
proof -
  have "jute_record (DeleteTxn_serialize_into std_bytes) DeleteTxn_size DeleteTxn_jute
      (DeleteTxn_deserialize std_bytes)"
    using txn_structs_meet_contract [OF std_laws] by blast
  from jute_message.de_law [OF jute_record.axioms(1) [OF this]] show ?thesis
    by (simp add: DeleteTxn_jute_def String_jute_def evaluate)
qed

section \<open>The handshake\<close>

text \<open>A handshake that was written and is read again.\<close>

lemma ConnectRequest_reread:
  assumes "bytes_laws B" and "jute_ok (ConnectRequest_head x)"
    and "ConnectRequest_serialize_into B x [] = Inr bs"
  shows "ConnectRequest_deserialize B bs =
    Inr (x\<lparr>ConnectRequest.read_only := 0\<rparr>, [ConnectRequest.read_only x])"
proof -
  have "ConnectRequest_head (x\<lparr>ConnectRequest.read_only := 0\<rparr>) = ConnectRequest_head x"
    by (simp add: ConnectRequest_head_def)
  moreover have "bs = jute_bytes (ConnectRequest_head x) @ [ConnectRequest.read_only x]"
    using assms(3) by (simp add: bytes_laws.ConnectRequest_written [OF assms(1)] ConnectRequest_jute_bytes)
  ultimately show ?thesis
    using assms(2) unfolding bytes_laws.ConnectRequest_read_iff [OF assms(1)]
    by (intro conjI exI [of _ "[ConnectRequest.read_only x]"]) simp_all
qed

lemma ConnectResponse_reread:
  assumes "bytes_laws B" and "jute_ok (ConnectResponse_head x)"
    and "ConnectResponse_serialize_into B x [] = Inr bs"
  shows "ConnectResponse_deserialize B bs =
    Inr (x\<lparr>ConnectResponse.read_only := 0\<rparr>, [ConnectResponse.read_only x])"
proof -
  have "ConnectResponse_head (x\<lparr>ConnectResponse.read_only := 0\<rparr>) = ConnectResponse_head x"
    by (simp add: ConnectResponse_head_def)
  moreover have "bs = jute_bytes (ConnectResponse_head x) @ [ConnectResponse.read_only x]"
    using assms(3) by (simp add: bytes_laws.ConnectResponse_written [OF assms(1)] ConnectResponse_jute_bytes)
  ultimately show ?thesis
    using assms(2) unfolding bytes_laws.ConnectResponse_read_iff [OF assms(1)]
    by (intro conjI exI [of _ "[ConnectResponse.read_only x]"]) simp_all
qed

text \<open>
  C39. How the two handshake structs are read: \<open>read_only\<close> is taken from the byte behind the
  rest of the struct when at least two bytes are left there, and otherwise it is 0 and a single
  byte stays where it is. So \<open>read_only\<close> does not survive: a handshake that was written and is
  read again comes back with \<open>read_only\<close> 0, and its last byte is left over.
\<close>

theorem handshakes_are_read:
  assumes "bytes_laws B"
  shows "(ConnectRequest_deserialize B bs = Inr (x, rest) \<longleftrightarrow>
      jute_ok (ConnectRequest_head x) \<and> (\<exists>tail. bs = jute_bytes (ConnectRequest_head x) @ tail \<and>
        (if 1 < length tail then tail = ConnectRequest.read_only x # rest
         else ConnectRequest.read_only x = 0 \<and> rest = tail))) \<and>
    (ConnectResponse_deserialize B bs = Inr (y, rest) \<longleftrightarrow>
      jute_ok (ConnectResponse_head y) \<and> (\<exists>tail. bs = jute_bytes (ConnectResponse_head y) @ tail \<and>
        (if 1 < length tail then tail = ConnectResponse.read_only y # rest
         else ConnectResponse.read_only y = 0 \<and> rest = tail))) \<and>
    (jute_ok (ConnectRequest_head x) \<and> ConnectRequest_serialize_into B x [] = Inr written \<longrightarrow>
      ConnectRequest_deserialize B written =
        Inr (x\<lparr>ConnectRequest.read_only := 0\<rparr>, [ConnectRequest.read_only x])) \<and>
    (jute_ok (ConnectResponse_head y) \<and> ConnectResponse_serialize_into B y [] = Inr written \<longrightarrow>
      ConnectResponse_deserialize B written =
        Inr (y\<lparr>ConnectResponse.read_only := 0\<rparr>, [ConnectResponse.read_only y]))"
proof (intro conjI impI, goal_cases)
  case 1
  show ?case by (rule bytes_laws.ConnectRequest_read_iff [OF assms])
next
  case 2
  show ?case by (rule bytes_laws.ConnectResponse_read_iff [OF assms])
next
  case 3
  then show ?case by (elim conjE) (rule ConnectRequest_reread [OF assms])
next
  case 4
  then show ?case by (elim conjE) (rule ConnectResponse_reread [OF assms])
qed

theorem handshakes_are_read_witness:
  "ConnectRequest_deserialize std_bytes (jute_bytes (ConnectRequest_head hello) @ [1, 9]) = Inr (hello, [9]) \<and>
   ConnectRequest_deserialize std_bytes (jute_bytes (ConnectRequest_head hello) @ [1]) =
     Inr (hello\<lparr>ConnectRequest.read_only := 0\<rparr>, [1])"
proof -
  have only: "ConnectRequest.read_only hello = 1" and ok: "jute_ok (ConnectRequest_head hello)"
    by (simp_all add: ConnectRequest_head_def hello_def Bytes_jute_def)
  have "ConnectRequest_serialize_into std_bytes hello [] = Inr (jute_bytes (ConnectRequest_head hello) @ [1])"
    by (simp add: std.ConnectRequest_written ConnectRequest_jute_bytes only)
  with handshakes_are_read [OF std_laws, of "jute_bytes (ConnectRequest_head hello) @ [1, 9]" hello "[9]" _
      "jute_bytes (ConnectRequest_head hello) @ [1]"] ok only
  show ?thesis by simp
qed

section \<open>Codes and errors\<close>

text \<open>
  The derived conversions of the opcodes, the reserved ids and the error codes are inverse to each
  other: \<open>from_i32\<close> finds the code of a number exactly when there is one, so no number stands for
  two codes.
\<close>

theorem codes_are_inverse:
  "(OpCodes_from_i32 w = Some op \<longleftrightarrow> OpCodes_to_i32 op = w) \<and>
   (XidCodes_from_i32 w = Some x \<longleftrightarrow> XidCodes_to_i32 x = w) \<and>
   (ZooErrors_from_i32 w = Some e \<longleftrightarrow> ZooErrors_to_i32 e = w) \<and>
   inj OpCodes_to_i32 \<and> inj XidCodes_to_i32 \<and> inj ZooErrors_to_i32"
  by (simp add: OpCodes_from_i32_iff XidCodes_from_i32_iff ZooErrors_from_i32_iff OpCodes_inj XidCodes_inj
      ZooErrors_inj)

text \<open>The reply to a \<open>sync\<close> is not read, though the request is: it hits the \<open>todo!\<close>.\<close>

theorem sync_replies_are_not_read: "ZkResponse_deserialize B (Some OpCodes.Sync) bs = Inl (Panic Todo)"
  by (simp add: ZkResponse_deserialize_def ZkResponse_read_def fail_def)

text \<open>A data request with a number that is no opcode is an error that names the number.\<close>

theorem unknown_opcodes_are_errors:
  assumes "bytes_laws B" and "XidCodes_from_i32 x \<in> {None, Some WatchXid}"
    and "OpCodes_from_i32 t = None" and "length bs + 8 < 2 ^ 31"
  shows "decode_inner B (be_bytes 4 (unat x) @ be_bytes 4 (unat t) @ bs) = Inl (fault.Err (InvalidOpCode t))"
  using assms(2,3)
  by (auto simp: bytes_laws.decode_inner_eq [OF assms(1,4)] bytes_laws.decode_data_request_eq [OF assms(1)])

theorem unknown_opcodes_are_errors_witness:
  "decode_inner std_bytes [0, 0, 0, 7, 0, 0, 0, 10] = Inl (fault.Err (InvalidOpCode 10))"
  using unknown_opcodes_are_errors [OF std_laws, of 7 10 "[]"]
  by (simp add: eval_codes evaluate)

text \<open>
  C40. \<open>String::deserialize\<close> on every input that has a length field: a negative length panics in
  the allocation, a buffer that is too short in the read, and bytes that are not UTF-8 are an
  error.
\<close>

theorem strings_are_read:
  assumes "bytes_laws B" and "n < 2 ^ 32"
  shows "String_deserialize B (be_bytes 4 n @ bs) =
    (if 2 ^ 31 \<le> n then Inl (Panic CapacityOverflow)
     else if length bs < n then Inl (Panic BufUnderflow)
     else if utf8 (take n bs) then Inr (take n bs, drop n bs)
     else Inl (fault.Err InvalidString))"
  using bytes_laws.String_read_eq [OF assms] .

theorem strings_are_read_witness:
  "String_deserialize std_bytes [0, 0, 0, 1, 97, 98] = Inr ([97], [98]) \<and>
    String_deserialize std_bytes [0, 0, 0, 1, 255] = Inl (fault.Err InvalidString) \<and>
    String_deserialize std_bytes [255, 255, 255, 255] = Inl (Panic CapacityOverflow)"
  using strings_are_read [OF std_laws, of 1 "[97, 98]"] strings_are_read [OF std_laws, of 1 "[255]"]
    strings_are_read [OF std_laws, of 4294967295 "[]"]
  by (simp add: minus_one_bytes be_bytes_small)

end
